(* ===== verification/Kurlyk_Prelude.thy ===== *)
theory Kurlyk_Prelude
  imports Main "HOL-Library.AList" "HOL-Library.Word"
begin

text \<open>
  Shared vocabulary of the development: the machine types of the sources, the standard
  library facilities the sources rely on (\<open>std::chrono\<close> casts, hash maps, \<open>std::string\<close>
  searching), and the generic lemmas about them that the component theories use.

  \<^item> \<open>uint64_t\<close> and \<open>size_t\<close> counters that the sources increment are 64 bit words, so that
    \<open>++\<close> wraps around; \<open>long\<close> values that the sources only compare or that are proved to stay
    in range are \<open>int\<close>.
  \<^item> A \<open>std::chrono::steady_clock::time_point\<close> is the number of nanoseconds since the
    clock's epoch, an \<open>int\<close>; a default constructed one is \<open>0\<close>.
  \<^item> A \<open>std::unordered_map\<close> is an association list with distinct keys; its order stands for
    the unspecified iteration order of the container.
  \<^item> A \<open>std::function\<close> of the user is a number identifying it, \<open>None\<close> the empty function;
    invoking it appends an entry to an output log.
\<close>

named_theorems kurlyk_unfold \<open>definitions unfolded by the component proofs\<close>
named_theorems kurlyk_frame \<open>fields an operation does not change\<close>

type_synonym u64 = "64 word"
type_synonym time_point = int
type_synonym cb = nat
type_synonym ('k, 'v) umap = "('k \<times> 'v) list"

section \<open>Duration casts\<close>

text \<open>
  \<open>std::chrono::duration_cast\<close> to a coarser unit divides the tick count and truncates
  towards zero.
\<close>

definition trunc_div :: "int \<Rightarrow> int \<Rightarrow> int" where
  "trunc_div a b = (if 0 \<le> a then a div b else - ((- a) div b))"

definition ns_per_ms :: int where "ns_per_ms = 1000000"
definition ns_per_s :: int where "ns_per_s = 1000000000"

definition duration_ms :: "int \<Rightarrow> int" where
  "duration_ms ns = trunc_div ns ns_per_ms"

definition duration_s :: "int \<Rightarrow> int" where
  "duration_s ns = trunc_div ns ns_per_s"

lemma le_div_iff_mult_le:
  fixes a b m :: int
  assumes "0 < b"
  shows "m \<le> a div b \<longleftrightarrow> m * b \<le> a"
proof
  assume "m \<le> a div b"
  then have "m * b \<le> a div b * b" using assms by simp
  also have "\<dots> \<le> a" using assms by (simp add: minus_mod_eq_div_mult [symmetric])
  finally show "m * b \<le> a" .
next
  assume "m * b \<le> a"
  then have "m * b div b \<le> a div b" using assms by (rule zdiv_mono1)
  then show "m \<le> a div b" using assms by simp
qed

lemma trunc_div_ge_iff:
  assumes "0 < b" "0 < m"
  shows "m \<le> trunc_div a b \<longleftrightarrow> m * b \<le> a"
proof (cases "0 \<le> a")
  case True
  with assms show ?thesis
    by (simp add: trunc_div_def le_div_iff_mult_le)
next
  case False
  then have "0 \<le> (- a) div b" using assms by (simp add: pos_imp_zdiv_nonneg_iff)
  with False assms have "\<not> m \<le> trunc_div a b" by (simp add: trunc_div_def)
  moreover have "a < m * b" using False assms by (smt (verit) mult_pos_pos)
  ultimately show ?thesis by simp
qed

lemma trunc_div_ge_iff_nonneg:
  assumes "0 < b" "0 \<le> a"
  shows "m \<le> trunc_div a b \<longleftrightarrow> m * b \<le> a"
  using assms by (simp add: trunc_div_def le_div_iff_mult_le)

lemma duration_ms_ge_iff:
  "0 < m \<Longrightarrow> m \<le> duration_ms d \<longleftrightarrow> m * ns_per_ms \<le> d"
  by (simp add: duration_ms_def trunc_div_ge_iff ns_per_ms_def)

lemma duration_ms_ge_iff_nonneg:
  "0 \<le> d \<Longrightarrow> m \<le> duration_ms d \<longleftrightarrow> m * ns_per_ms \<le> d"
  by (simp add: duration_ms_def trunc_div_ge_iff_nonneg ns_per_ms_def)

lemma duration_ms_mono: "a \<le> b \<Longrightarrow> duration_ms a \<le> duration_ms b"
  by (auto simp: duration_ms_def trunc_div_def ns_per_ms_def zdiv_mono1)
    (smt (verit) pos_imp_zdiv_nonneg_iff)

lemma duration_ms_nonneg [simp]: "0 \<le> a \<Longrightarrow> 0 \<le> duration_ms a"
  by (simp add: duration_ms_def trunc_div_def ns_per_ms_def)

lemma duration_ms_le: "0 \<le> a \<Longrightarrow> duration_ms a * ns_per_ms \<le> a"
  using duration_ms_ge_iff_nonneg [of a "duration_ms a"] by simp

section \<open>Hash maps\<close>

abbreviation umap_dom :: "('k, 'v) umap \<Rightarrow> 'k set" where
  "umap_dom m \<equiv> fst ` set m"

abbreviation umap_distinct :: "('k, 'v) umap \<Rightarrow> bool" where
  "umap_distinct m \<equiv> distinct (map fst m)"

text \<open>
  Proofs look maps up with \<^const>\<open>map_of\<close>; the library's rules that turn such a lookup into a
  membership are taken out of the simplifier.
\<close>

declare map_of_eq_Some_iff [simp del] Some_eq_map_of_iff [simp del]

lemma umap_distinct_filter: "umap_distinct m \<Longrightarrow> umap_distinct (filter P m)"
  by (induction m) auto

lemma map_of_filter_distinct:
  "umap_distinct m \<Longrightarrow>
   map_of (filter P m) k = (case map_of m k of None \<Rightarrow> None | Some v \<Rightarrow> if P (k, v) then Some v else None)"
  by (induction m) (auto split: option.splits dest: map_of_SomeD intro: rev_image_eqI)

lemma map_of_map_apsnd: "map_of (map (apsnd f) m) k = map_option f (map_of m k)"
  by (induction m) auto

lemma umap_distinct_map_apsnd [simp]: "umap_distinct (map (apsnd f) m) = umap_distinct m"
  by (simp add: comp_def)

lemma update_neq_Nil [simp]: "AList.update k v m \<noteq> []"
  by (cases m) auto

lemma map_of_eq_Some_iff_distinct:
  "umap_distinct m \<Longrightarrow> map_of m k = Some v \<longleftrightarrow> (k, v) \<in> set m"
  by (rule map_of_eq_Some_iff)

lemma map_of_update [simp]: "map_of (AList.update k v m) = (map_of m)(k \<mapsto> v)"
  by (rule update_conv')

lemma map_of_delete [simp]: "map_of (AList.delete k m) = (map_of m)(k := None)"
  by (rule delete_conv')

lemma umap_dom_map_of: "umap_dom m = dom (map_of m)"
  by (rule dom_map_of_conv_image_fst [symmetric])

lemma umap_distinct_update [simp]: "umap_distinct m \<Longrightarrow> umap_distinct (AList.update k v m)"
  by (rule distinct_update)

lemma umap_distinct_delete [simp]: "umap_distinct m \<Longrightarrow> umap_distinct (AList.delete k m)"
  by (rule distinct_delete)

lemma umap_Nil_iff: "m = [] \<longleftrightarrow> map_of m = Map.empty"
  by (cases m) (auto simp: fun_eq_iff split: if_splits)

section \<open>Lists\<close>

text \<open>Removing or keeping list elements while carrying a state along.\<close>

lemma length_filter_le_imp:
  "(\<And>x. x \<in> set xs \<Longrightarrow> P x \<Longrightarrow> Q x) \<Longrightarrow> length (filter P xs) \<le> length (filter Q xs)"
  by (induction xs) auto

lemma length_filter_disj_le:
  "length (filter (\<lambda>x. P x \<or> Q x) xs) \<le> length (filter P xs) + length (filter Q xs)"
  by (induction xs) auto

end
