(* ===== verification/Http_Rate_Limiter.thy ===== *)
theory Http_Rate_Limiter
  imports Kurlyk_Prelude
begin

text \<open>
  The HTTP rate limiter: \<open>http/HttpRequestManager/HttpRateLimiter.hpp\<close>,
  \<open>HttpRateLimitHandle.hpp\<close> and \<open>HttpRateLimitDelay.hpp\<close>. This theory holds its data and its
  operations, one definition per member function.

  The mutex of the class makes every public operation atomic, so an operation is a function on
  the limiter's state. Every operation that reads \<open>std::chrono::steady_clock::now()\<close> takes the
  clock value as the argument \<open>now\<close>. A \<open>HttpRateLimitHandlePtr\<close> is the ID of the handle it points
  to, \<open>None\<close> the empty pointer; the reference counts of the shared pointers are the field
  \<open>handle_refs\<close>, and copying or destroying a shared pointer are operations of their own.
  Durations are in milliseconds, the default of the templates.
\<close>

unbundle bit_operations_syntax

section \<open>Data\<close>

record KeyState =
  ks_count :: int
  ks_start_time :: time_point
  in_flight_tokens :: "u64 set"

record LimitData =
  requests_per_period :: int
  period_ms :: int
  sequential :: bool
  removed :: bool
  keys :: "(string, KeyState) umap"

type_synonym HttpRateLimitHandlePtr = "int option"

record HttpRateLimiter =
  m_next_id :: int
  m_limits :: "(int, LimitData) umap"
  m_owned_handles :: "(int, HttpRateLimitHandlePtr) umap"
  m_gc_counter :: u64
  handle_refs :: "(int, nat) umap"

record RateLimitDelay =
  delay_duration :: int
  sequential_blocked :: bool

definition KeyState_default :: KeyState where
  "KeyState_default = \<lparr>ks_count = 0, ks_start_time = 0, in_flight_tokens = {}\<rparr>"

definition HttpRateLimiter_init :: HttpRateLimiter where
  "HttpRateLimiter_init = \<lparr>m_next_id = 1, m_limits = [], m_owned_handles = [],
     m_gc_counter = 0, handle_refs = []\<rparr>"

text \<open>\<open>std::chrono::milliseconds::max()\<close>, whose representation is a signed 64 bit integer.\<close>

definition Duration_max :: int where
  "Duration_max = 9223372036854775807"

section \<open>Per-key state\<close>

definition get_key_state :: "LimitData \<Rightarrow> string \<Rightarrow> KeyState" where
  "get_key_state limit key =
     (case map_of (keys limit) key of None \<Rightarrow> KeyState_default | Some st \<Rightarrow> st)"

definition find_key_state :: "LimitData \<Rightarrow> string \<Rightarrow> KeyState option" where
  "find_key_state limit key = map_of (keys limit) key"

definition check_key :: "LimitData \<Rightarrow> KeyState \<Rightarrow> time_point \<Rightarrow> bool" where
  "check_key limit_data state now =
     (if requests_per_period limit_data = 0 then True
      else if duration_ms (now - ks_start_time state) \<ge> period_ms limit_data then True
      else ks_count state < requests_per_period limit_data)"

definition can_pass :: "LimitData \<Rightarrow> string \<Rightarrow> u64 \<Rightarrow> time_point \<Rightarrow> bool" where
  "can_pass limit key token now =
     (case find_key_state limit key of
        None \<Rightarrow> True
      | Some state \<Rightarrow>
          if sequential limit \<and> token \<noteq> 0 \<and>
             in_flight_tokens state \<noteq> {} \<and> token \<notin> in_flight_tokens state
          then False
          else check_key limit state now)"

definition update_key :: "LimitData \<Rightarrow> KeyState \<Rightarrow> time_point \<Rightarrow> KeyState" where
  "update_key limit_data state now =
     (if requests_per_period limit_data = 0 then state
      else
        let state1 =
          (if duration_ms (now - ks_start_time state) \<ge> period_ms limit_data
           then state\<lparr>ks_start_time := now, ks_count := 0\<rparr>
           else state)
        in state1\<lparr>ks_count := ks_count state1 + 1\<rparr>)"

text \<open>
  \<open>commit_limit\<close> mutates the key state through a reference obtained from \<open>get_key_state\<close>,
  which inserts a default state when the key is new.
\<close>

definition commit_limit :: "LimitData \<Rightarrow> string \<Rightarrow> u64 \<Rightarrow> time_point \<Rightarrow> LimitData" where
  "commit_limit limit key token now =
     (let state = get_key_state limit key;
          state1 = (if sequential limit \<and> token \<noteq> 0
                    then state\<lparr>in_flight_tokens := insert token (in_flight_tokens state)\<rparr>
                    else state)
      in limit\<lparr>keys := AList.update key (update_key limit state1 now) (keys limit)\<rparr>)"

definition release_key :: "LimitData \<Rightarrow> string \<Rightarrow> u64 \<Rightarrow> LimitData" where
  "release_key limit key token =
     (case map_of (keys limit) key of
        None \<Rightarrow> limit
      | Some state \<Rightarrow>
          let state1 = state\<lparr>in_flight_tokens := in_flight_tokens state - {token}\<rparr>
          in if in_flight_tokens state1 = {} \<and> ks_count state1 = 0
             then limit\<lparr>keys := AList.delete key (keys limit)\<rparr>
             else limit\<lparr>keys := AList.update key state1 (keys limit)\<rparr>)"

section \<open>Garbage collection of stale keys\<close>

definition gc_erases_key :: "LimitData \<Rightarrow> KeyState \<Rightarrow> time_point \<Rightarrow> bool" where
  "gc_erases_key limit state now =
     (if in_flight_tokens state = {} \<and> ks_count state = 0 then True
      else if in_flight_tokens state = {}
        then duration_ms (now - ks_start_time state) \<ge> period_ms limit
      else False)"

definition gc_limit :: "time_point \<Rightarrow> LimitData \<Rightarrow> LimitData" where
  "gc_limit now limit =
     limit\<lparr>keys := filter (\<lambda>(_, state). \<not> gc_erases_key limit state now) (keys limit)\<rparr>"

definition gc_stale_keys :: "time_point \<Rightarrow> HttpRateLimiter \<Rightarrow> HttpRateLimiter" where
  "gc_stale_keys now rl =
     rl\<lparr>m_limits := filter (\<lambda>(_, limit). \<not> (removed limit \<and> keys limit = []))
                      (map (apsnd (gc_limit now)) (m_limits rl))\<rparr>"

section \<open>Handles\<close>

definition remove_limit_internal :: "int \<Rightarrow> HttpRateLimiter \<Rightarrow> HttpRateLimiter \<times> bool" where
  "remove_limit_internal limit_id rl =
     (case map_of (m_limits rl) limit_id of
        None \<Rightarrow> (rl, False)
      | Some limit \<Rightarrow>
          let limit1 = limit\<lparr>removed := True\<rparr>;
              rl1 = rl\<lparr>m_limits := AList.update limit_id limit1 (m_limits rl)\<rparr>
          in if keys limit1 \<noteq> [] then (rl1, False)
             else (rl1\<lparr>m_limits := AList.delete limit_id (m_limits rl1)\<rparr>, True))"

text \<open>\<open>HttpRateLimitHandle::reset\<close>, run by the destructor with the stored removal callback.\<close>

definition handle_reset :: "int \<Rightarrow> HttpRateLimiter \<Rightarrow> HttpRateLimiter" where
  "handle_reset m_id rl = (if m_id \<noteq> 0 then fst (remove_limit_internal m_id rl) else rl)"

text \<open>Copying and destroying a shared pointer; the last destruction destroys the handle.\<close>

definition copy_handle :: "HttpRateLimitHandlePtr \<Rightarrow> HttpRateLimiter \<Rightarrow> HttpRateLimiter" where
  "copy_handle h rl =
     (case h of
        None \<Rightarrow> rl
      | Some i \<Rightarrow>
          (case map_of (handle_refs rl) i of
             None \<Rightarrow> rl
           | Some n \<Rightarrow> rl\<lparr>handle_refs := AList.update i (n + 1) (handle_refs rl)\<rparr>))"

definition drop_handle :: "HttpRateLimitHandlePtr \<Rightarrow> HttpRateLimiter \<Rightarrow> HttpRateLimiter" where
  "drop_handle h rl =
     (case h of
        None \<Rightarrow> rl
      | Some i \<Rightarrow>
          (case map_of (handle_refs rl) i of
             None \<Rightarrow> rl
           | Some n \<Rightarrow>
               if n > 1 then rl\<lparr>handle_refs := AList.update i (n - 1) (handle_refs rl)\<rparr>
               else handle_reset i (rl\<lparr>handle_refs := AList.delete i (handle_refs rl)\<rparr>)))"

definition handle_id :: "HttpRateLimitHandlePtr \<Rightarrow> int" where
  "handle_id h = (case h of None \<Rightarrow> 0 | Some i \<Rightarrow> i)"

text \<open>
  The new handle is referenced twice when the function returns: by \<open>m_owned_handles\<close> and by
  the returned pointer.
\<close>

definition create_limit_handle ::
    "int \<Rightarrow> int \<Rightarrow> bool \<Rightarrow> HttpRateLimiter \<Rightarrow> HttpRateLimiter \<times> HttpRateLimitHandlePtr" where
  "create_limit_handle rpp per seq rl =
     (let new_id = m_next_id rl;
          data = \<lparr>requests_per_period = rpp, period_ms = per, sequential = seq,
                  removed = False, keys = []\<rparr>
      in (rl\<lparr>m_next_id := new_id + 1,
             m_limits := AList.update new_id data (m_limits rl),
             m_owned_handles := AList.update new_id (Some new_id) (m_owned_handles rl),
             handle_refs := AList.update new_id 2 (handle_refs rl)\<rparr>,
          Some new_id))"

definition create_limit :: "int \<Rightarrow> int \<Rightarrow> HttpRateLimiter \<Rightarrow> HttpRateLimiter \<times> int" where
  "create_limit rpp per rl =
     (let (rl1, h) = create_limit_handle rpp per False rl
      in (drop_handle h rl1, handle_id h))"

definition remove_limit :: "int \<Rightarrow> HttpRateLimiter \<Rightarrow> HttpRateLimiter \<times> bool" where
  "remove_limit limit_id rl =
     (case map_of (m_owned_handles rl) limit_id of
        None \<Rightarrow> (rl, False)
      | Some retired_handle \<Rightarrow>
          (drop_handle retired_handle
             (rl\<lparr>m_owned_handles := AList.delete limit_id (m_owned_handles rl)\<rparr>), True))"

definition remove_limit_handle ::
    "HttpRateLimitHandlePtr \<Rightarrow> HttpRateLimiter \<Rightarrow> HttpRateLimiter \<times> bool" where
  "remove_limit_handle h rl =
     (case h of None \<Rightarrow> (rl, False) | Some i \<Rightarrow> remove_limit i rl)"

definition get_limit :: "int \<Rightarrow> HttpRateLimiter \<Rightarrow> HttpRateLimiter \<times> HttpRateLimitHandlePtr" where
  "get_limit limit_id rl =
     (case map_of (m_owned_handles rl) limit_id of
        None \<Rightarrow> (rl, None)
      | Some h \<Rightarrow> (copy_handle h rl, h))"

section \<open>Admission\<close>

text \<open>\<open>id != 0 ? m_limits.find(id) : m_limits.end()\<close>.\<close>

definition find_limit :: "HttpRateLimiter \<Rightarrow> int \<Rightarrow> LimitData option" where
  "find_limit rl i = (if i \<noteq> 0 then map_of (m_limits rl) i else None)"

definition limit_allows :: "LimitData option \<Rightarrow> string \<Rightarrow> u64 \<Rightarrow> time_point \<Rightarrow> bool" where
  "limit_allows l key token now =
     (case l of
        None \<Rightarrow> True
      | Some limit \<Rightarrow> if removed limit then True else can_pass limit key token now)"

definition commit_at ::
    "int \<Rightarrow> string \<Rightarrow> u64 \<Rightarrow> time_point \<Rightarrow> HttpRateLimiter \<Rightarrow> HttpRateLimiter" where
  "commit_at i key token now rl =
     (case find_limit rl i of
        None \<Rightarrow> rl
      | Some limit \<Rightarrow>
          if removed limit then rl
          else rl\<lparr>m_limits := AList.update i (commit_limit limit key token now) (m_limits rl)\<rparr>)"

definition same_limit :: "int \<Rightarrow> int \<Rightarrow> string \<Rightarrow> string \<Rightarrow> bool" where
  "same_limit general_id specific_id general_key specific_key =
     (general_id \<noteq> 0 \<and> general_id = specific_id \<and> general_key = specific_key)"

text \<open>The part of \<open>allow_request\<close> that runs once both limits have agreed.\<close>

definition commit_both ::
    "int \<Rightarrow> int \<Rightarrow> u64 \<Rightarrow> string \<Rightarrow> string \<Rightarrow> time_point \<Rightarrow> HttpRateLimiter \<Rightarrow> HttpRateLimiter" where
  "commit_both general_id specific_id token general_key specific_key now rl =
     (let rl1 = commit_at general_id general_key token now rl
      in if same_limit general_id specific_id general_key specific_key then rl1
         else commit_at specific_id specific_key token now rl1)"

definition maybe_gc :: "time_point \<Rightarrow> HttpRateLimiter \<Rightarrow> HttpRateLimiter" where
  "maybe_gc now rl =
     (let rl1 = rl\<lparr>m_gc_counter := m_gc_counter rl + 1\<rparr>
      in if m_gc_counter rl1 AND 63 = 0 then gc_stale_keys now rl1 else rl1)"

definition allow_request ::
    "HttpRateLimitHandlePtr \<Rightarrow> HttpRateLimitHandlePtr \<Rightarrow> u64 \<Rightarrow> string \<Rightarrow> string \<Rightarrow>
     time_point \<Rightarrow> HttpRateLimiter \<Rightarrow> HttpRateLimiter \<times> bool" where
  "allow_request general_limit specific_limit token general_key specific_key now rl =
     (let general_id = handle_id general_limit;
          specific_id = handle_id specific_limit;
          general_it = find_limit rl general_id;
          specific_it = find_limit rl specific_id
      in if general_it = None \<and> specific_it = None then (rl, True)
         else
           let general_limit_allowed = limit_allows general_it general_key token now;
               specific_limit_allowed = limit_allows specific_it specific_key token now
           in if \<not> general_limit_allowed \<or> \<not> specific_limit_allowed then (rl, False)
              else (maybe_gc now
                      (commit_both general_id specific_id token general_key specific_key now rl),
                    True))"

definition allow_request_handles ::
    "HttpRateLimitHandlePtr \<Rightarrow> HttpRateLimitHandlePtr \<Rightarrow>
     time_point \<Rightarrow> HttpRateLimiter \<Rightarrow> HttpRateLimiter \<times> bool" where
  "allow_request_handles general_limit specific_limit now rl =
     allow_request general_limit specific_limit 0 [] [] now rl"

text \<open>The temporary handles of the ID based overload are destroyed when the call returns.\<close>

definition allow_request_ids ::
    "int \<Rightarrow> int \<Rightarrow> time_point \<Rightarrow> HttpRateLimiter \<Rightarrow> HttpRateLimiter \<times> bool" where
  "allow_request_ids general_id specific_id now rl =
     (let (rl1, g) = get_limit general_id rl;
          (rl2, s) = get_limit specific_id rl1;
          (rl3, ok) = allow_request g s 0 [] [] now rl2
      in (drop_handle g (drop_handle s rl3), ok))"

definition release_at :: "int \<Rightarrow> string \<Rightarrow> u64 \<Rightarrow> HttpRateLimiter \<Rightarrow> HttpRateLimiter" where
  "release_at i key token rl =
     (case find_limit rl i of
        None \<Rightarrow> rl
      | Some limit \<Rightarrow>
          if sequential limit
          then rl\<lparr>m_limits := AList.update i (release_key limit key token) (m_limits rl)\<rparr>
          else rl)"

definition release_request ::
    "HttpRateLimitHandlePtr \<Rightarrow> HttpRateLimitHandlePtr \<Rightarrow> u64 \<Rightarrow> string \<Rightarrow> string \<Rightarrow>
     HttpRateLimiter \<Rightarrow> HttpRateLimiter" where
  "release_request general_limit specific_limit token general_key specific_key rl =
     (if token = 0 then rl
      else
        let general_id = handle_id general_limit;
            specific_id = handle_id specific_limit;
            rl1 = release_at general_id general_key token rl
        in if same_limit general_id specific_id general_key specific_key then rl1
           else release_at specific_id specific_key token rl1)"

definition release_request_nokeys ::
    "HttpRateLimitHandlePtr \<Rightarrow> HttpRateLimitHandlePtr \<Rightarrow> u64 \<Rightarrow>
     HttpRateLimiter \<Rightarrow> HttpRateLimiter" where
  "release_request_nokeys general_limit specific_limit token rl =
     release_request general_limit specific_limit token [] [] rl"

section \<open>Delay queries\<close>

definition time_until_key_allows :: "LimitData \<Rightarrow> KeyState \<Rightarrow> time_point \<Rightarrow> int" where
  "time_until_key_allows limit state now =
     (if sequential limit \<and> in_flight_tokens state \<noteq> {} then Duration_max
      else if requests_per_period limit = 0 then 0
      else
        let elapsed = duration_ms (now - ks_start_time state);
            period_duration = period_ms limit
        in if elapsed \<ge> period_duration \<or> ks_count state < requests_per_period limit then 0
           else period_duration - elapsed)"

definition time_until_limit_allows :: "LimitData \<Rightarrow> string \<Rightarrow> time_point \<Rightarrow> int" where
  "time_until_limit_allows limit key now =
     (case find_key_state limit key of
        None \<Rightarrow> 0
      | Some state \<Rightarrow> time_until_key_allows limit state now)"

definition add_delay :: "int \<Rightarrow> RateLimitDelay \<Rightarrow> RateLimitDelay" where
  "add_delay d result =
     \<lparr>delay_duration = max (delay_duration result) d,
      sequential_blocked = (if d = Duration_max then True else sequential_blocked result)\<rparr>"

definition time_until_next_allowed ::
    "HttpRateLimitHandlePtr \<Rightarrow> HttpRateLimitHandlePtr \<Rightarrow> string \<Rightarrow> string \<Rightarrow>
     time_point \<Rightarrow> HttpRateLimiter \<Rightarrow> RateLimitDelay" where
  "time_until_next_allowed general_limit specific_limit general_key specific_key now rl =
     (let result = \<lparr>delay_duration = 0, sequential_blocked = False\<rparr>;
          result1 =
            (case find_limit rl (handle_id general_limit) of
               None \<Rightarrow> result
             | Some limit \<Rightarrow> add_delay (time_until_limit_allows limit general_key now) result)
      in case find_limit rl (handle_id specific_limit) of
           None \<Rightarrow> result1
         | Some limit \<Rightarrow> add_delay (time_until_limit_allows limit specific_key now) result1)"

definition time_until_next_allowed_nokeys ::
    "HttpRateLimitHandlePtr \<Rightarrow> HttpRateLimitHandlePtr \<Rightarrow>
     time_point \<Rightarrow> HttpRateLimiter \<Rightarrow> RateLimitDelay" where
  "time_until_next_allowed_nokeys general_limit specific_limit now rl =
     time_until_next_allowed general_limit specific_limit [] [] now rl"

definition time_until_next_allowed_ids ::
    "int \<Rightarrow> int \<Rightarrow> time_point \<Rightarrow> HttpRateLimiter \<Rightarrow> HttpRateLimiter \<times> RateLimitDelay" where
  "time_until_next_allowed_ids general_id specific_id now rl =
     (let (rl1, g) = get_limit general_id rl;
          (rl2, s) = get_limit specific_id rl1;
          d = time_until_next_allowed g s [] [] now rl2
      in (drop_handle g (drop_handle s rl2), d))"

text \<open>The two nested loops of \<open>time_until_any_limit_allows\<close>, over all keys of all limits.\<close>

fun min_key_delay ::
    "LimitData \<Rightarrow> time_point \<Rightarrow> (string, KeyState) umap \<Rightarrow> int \<times> bool \<Rightarrow> int \<times> bool" where
  "min_key_delay limit now [] (min_delay, has_positive) = (min_delay, has_positive)"
| "min_key_delay limit now ((_, state) # rest) (min_delay, has_positive) =
     (let d = time_until_key_allows limit state now
      in if d \<le> 0 then min_key_delay limit now rest (min_delay, has_positive)
         else min_key_delay limit now rest (if d < min_delay then d else min_delay, True))"

fun min_limit_delay ::
    "time_point \<Rightarrow> (int, LimitData) umap \<Rightarrow> int \<times> bool \<Rightarrow> int \<times> bool" where
  "min_limit_delay now [] acc = acc"
| "min_limit_delay now ((_, limit) # rest) acc =
     min_limit_delay now rest (min_key_delay limit now (keys limit) acc)"

definition time_until_any_limit_allows :: "time_point \<Rightarrow> HttpRateLimiter \<Rightarrow> RateLimitDelay" where
  "time_until_any_limit_allows now rl =
     (let (min_delay, has_positive) = min_limit_delay now (m_limits rl) (Duration_max, False)
      in if has_positive
         then \<lparr>delay_duration = min_delay, sequential_blocked = (min_delay = Duration_max)\<rparr>
         else \<lparr>delay_duration = 0, sequential_blocked = False\<rparr>)"

end
