(* ===== verification/Http_Rate_Limiter_Inv.thy ===== *)
theory Http_Rate_Limiter_Inv
  imports Http_Rate_Limiter
begin

text \<open>
  The invariant of the HTTP rate limiter and its preservation by every operation: map keys are
  unique, IDs come from the counter, a limit is alive exactly while a handle refers to it, counters
  stay within their limit, and a sequential key has at most one request in flight.
\<close>

section \<open>The invariant\<close>

definition key_ok :: "LimitData \<Rightarrow> KeyState \<Rightarrow> bool" where
  "key_ok l st \<longleftrightarrow>
     (if requests_per_period l = 0 then ks_count st = 0
      else 1 \<le> ks_count st \<and> ks_count st \<le> max 1 (requests_per_period l)) \<and>
     finite (in_flight_tokens st) \<and> 0 \<notin> in_flight_tokens st \<and>
     (\<not> sequential l \<longrightarrow> in_flight_tokens st = {}) \<and>
     (\<forall>a \<in> in_flight_tokens st. \<forall>b \<in> in_flight_tokens st. a = b)"

definition limit_ok :: "LimitData \<Rightarrow> bool" where
  "limit_ok l \<longleftrightarrow> umap_distinct (keys l) \<and>
     (\<forall>k st. map_of (keys l) k = Some st \<longrightarrow> key_ok l st)"

definition handles_ok :: "HttpRateLimiter \<Rightarrow> bool" where
  "handles_ok rl \<longleftrightarrow> umap_distinct (m_owned_handles rl) \<and> umap_distinct (handle_refs rl) \<and>
     (\<forall>i n. map_of (handle_refs rl) i = Some n \<longrightarrow> 0 < i \<and> i < m_next_id rl \<and> 0 < n \<and>
        (\<exists>l. map_of (m_limits rl) i = Some l \<and> \<not> removed l)) \<and>
     (\<forall>i l. map_of (m_limits rl) i = Some l \<longrightarrow>
        (removed l \<longleftrightarrow> map_of (handle_refs rl) i = None)) \<and>
     (\<forall>i h. map_of (m_owned_handles rl) i = Some h \<longrightarrow>
        h = Some i \<and> map_of (handle_refs rl) i \<noteq> None)"

definition limits_ok :: "HttpRateLimiter \<Rightarrow> bool" where
  "limits_ok rl \<longleftrightarrow> umap_distinct (m_limits rl) \<and> 0 < m_next_id rl \<and>
     (\<forall>i l. map_of (m_limits rl) i = Some l \<longrightarrow> 0 < i \<and> i < m_next_id rl \<and> limit_ok l)"

definition rl_inv :: "HttpRateLimiter \<Rightarrow> bool" where
  "rl_inv rl \<longleftrightarrow> limits_ok rl \<and> handles_ok rl"

lemma rl_inv_init: "rl_inv HttpRateLimiter_init"
  by (simp add: rl_inv_def limits_ok_def handles_ok_def HttpRateLimiter_init_def)

section \<open>One key and one limit\<close>

lemma update_key_fields [simp]:
  "in_flight_tokens (update_key l st now) = in_flight_tokens st"
  by (simp add: update_key_def Let_def)

lemma check_update_count:
  assumes "check_key l st now" "key_ok l st \<or> st = KeyState_default"
  shows "if requests_per_period l = 0 then ks_count (update_key l st now) = ks_count st
         else 1 \<le> ks_count (update_key l st now) \<and>
           ks_count (update_key l st now) \<le> max 1 (requests_per_period l)"
  using assms
  by (auto simp: check_key_def update_key_def Let_def key_ok_def KeyState_default_def split: if_splits)

lemma check_key_default:
  "0 \<le> requests_per_period l \<Longrightarrow> check_key l KeyState_default now"
  by (simp add: check_key_def KeyState_default_def)

lemma commit_limit_fields [simp]:
  "requests_per_period (commit_limit l k tok now) = requests_per_period l"
  "period_ms (commit_limit l k tok now) = period_ms l"
  "sequential (commit_limit l k tok now) = sequential l"
  "removed (commit_limit l k tok now) = removed l"
  by (simp_all add: commit_limit_def Let_def)

lemma release_key_fields [simp]:
  "requests_per_period (release_key l k tok) = requests_per_period l"
  "period_ms (release_key l k tok) = period_ms l"
  "sequential (release_key l k tok) = sequential l"
  "removed (release_key l k tok) = removed l"
  by (simp_all add: release_key_def Let_def split: option.splits)

lemma gc_limit_fields [simp]:
  "requests_per_period (gc_limit now l) = requests_per_period l"
  "period_ms (gc_limit now l) = period_ms l"
  "sequential (gc_limit now l) = sequential l"
  "removed (gc_limit now l) = removed l"
  by (simp_all add: gc_limit_def)

lemma key_ok_cong:
  "requests_per_period l' = requests_per_period l \<Longrightarrow> sequential l' = sequential l \<Longrightarrow>
   key_ok l' st = key_ok l st"
  by (simp add: key_ok_def)

definition committed_key :: "LimitData \<Rightarrow> string \<Rightarrow> u64 \<Rightarrow> time_point \<Rightarrow> KeyState" where
  "committed_key l k tok now =
     update_key l
       (let st = get_key_state l k
        in if sequential l \<and> tok \<noteq> 0
           then st\<lparr>in_flight_tokens := insert tok (in_flight_tokens st)\<rparr> else st) now"

lemma keys_commit_limit:
  "keys (commit_limit l k tok now) = AList.update k (committed_key l k tok now) (keys l)"
  by (simp add: commit_limit_def committed_key_def Let_def)

lemma update_key_tokens:
  "update_key l (st\<lparr>in_flight_tokens := T\<rparr>) now = (update_key l st now)\<lparr>in_flight_tokens := T\<rparr>"
  by (simp add: update_key_def Let_def)

lemma committed_count:
  assumes "key_ok l (get_key_state l k) \<or> get_key_state l k = KeyState_default" "can_pass l k tok now"
  shows "if requests_per_period l = 0 then ks_count (update_key l (get_key_state l k) now) = ks_count (get_key_state l k)
    else 1 \<le> ks_count (update_key l (get_key_state l k) now) \<and>
      ks_count (update_key l (get_key_state l k) now) \<le> max 1 (requests_per_period l)"
proof (cases "find_key_state l k")
  case None
  then show ?thesis
    by (auto simp: get_key_state_def find_key_state_def update_key_def Let_def KeyState_default_def)
next
  case (Some st)
  with assms(2) have "check_key l (get_key_state l k) now"
    by (auto simp: can_pass_def get_key_state_def find_key_state_def split: if_splits)
  with assms(1) show ?thesis by (rule check_update_count [rotated])
qed

lemma committed_key_ok:
  assumes "limit_ok l" "can_pass l k tok now"
  shows "key_ok l (committed_key l k tok now)"
proof -
  let ?st = "get_key_state l k"
  have ok: "key_ok l ?st \<or> ?st = KeyState_default"
    using assms(1) by (auto simp: limit_ok_def get_key_state_def split: option.splits)
  note cnt = committed_count [OF ok assms(2)]
  have tok: "sequential l \<Longrightarrow> tok \<noteq> 0 \<Longrightarrow> in_flight_tokens ?st = {} \<or> tok \<in> in_flight_tokens ?st"
    using assms(2) by (auto simp: can_pass_def get_key_state_def find_key_state_def
      KeyState_default_def split: option.splits if_splits)
  have z: "requests_per_period l = 0 \<Longrightarrow> ks_count ?st = 0"
    using ok by (auto simp: key_ok_def KeyState_default_def)
  have fin: "finite (in_flight_tokens ?st)" "0 \<notin> in_flight_tokens ?st"
      "\<not> sequential l \<Longrightarrow> in_flight_tokens ?st = {}"
      "\<forall>a \<in> in_flight_tokens ?st. \<forall>b \<in> in_flight_tokens ?st. a = b"
    using ok by (auto simp: key_ok_def KeyState_default_def)
  show ?thesis
  proof (cases "sequential l \<and> tok \<noteq> 0")
    case True
    then have "insert tok (in_flight_tokens ?st) = {tok}" using tok fin(4) by auto
    then have "update_key l (?st\<lparr>in_flight_tokens := insert tok (in_flight_tokens ?st)\<rparr>) now =
      (update_key l ?st now)\<lparr>in_flight_tokens := {tok}\<rparr>" by (simp only: update_key_tokens)
    with True cnt z show ?thesis
      by (simp add: committed_key_def key_ok_def Let_def split: if_splits)
  next
    case False
    with cnt z fin show ?thesis
      by (auto simp: committed_key_def key_ok_def split: if_splits)
  qed
qed

lemma commit_limit_ok:
  "limit_ok l \<Longrightarrow> can_pass l k tok now \<Longrightarrow> limit_ok (commit_limit l k tok now)"
  using committed_key_ok [of l k tok now]
  by (auto simp: limit_ok_def keys_commit_limit key_ok_cong [of "commit_limit l k tok now" l])

lemma keys_release_key:
  "map_of (keys (release_key l k tok)) k' =
     (if k' = k then
        (case map_of (keys l) k of None \<Rightarrow> None
         | Some st \<Rightarrow>
             if in_flight_tokens st - {tok} = {} \<and> ks_count st = 0 then None
             else Some (st\<lparr>in_flight_tokens := in_flight_tokens st - {tok}\<rparr>))
      else map_of (keys l) k')"
  by (auto simp: release_key_def Let_def split: option.splits)

lemma release_key_ok:
  assumes "limit_ok l"
  shows "limit_ok (release_key l k tok)"
proof -
  have "umap_distinct (keys (release_key l k tok))"
    using assms by (auto simp: release_key_def Let_def limit_ok_def split: option.splits)
  moreover have "key_ok l st'" if "map_of (keys (release_key l k tok)) k' = Some st'" for k' st'
    using that assms
    by (auto simp: keys_release_key limit_ok_def key_ok_def split: if_splits option.splits)
  ultimately show ?thesis
    by (auto simp: limit_ok_def key_ok_cong [of "release_key l k tok" l])
qed

lemma keys_gc_limit:
  "umap_distinct (keys l) \<Longrightarrow>
   map_of (keys (gc_limit now l)) k =
     (case map_of (keys l) k of None \<Rightarrow> None
      | Some st \<Rightarrow> if gc_erases_key l st now then None else Some st)"
  by (simp add: gc_limit_def map_of_filter_distinct split: option.splits)

lemma gc_limit_ok: "limit_ok l \<Longrightarrow> limit_ok (gc_limit now l)"
  by (auto simp: limit_ok_def keys_gc_limit key_ok_cong [of "gc_limit now l" l]
      split: option.splits if_splits)
    (simp add: gc_limit_def umap_distinct_filter)

section \<open>Operations of the limiter\<close>

lemma limits_ok_update:
  assumes "limits_ok rl" "map_of (m_limits rl) i = Some l" "limit_ok l'"
  shows "limits_ok (rl\<lparr>m_limits := AList.update i l' (m_limits rl)\<rparr>)"
  using assms by (auto simp: limits_ok_def)

lemma handles_ok_update:
  assumes "handles_ok rl" "map_of (m_limits rl) i = Some l" "removed l' = removed l"
  shows "handles_ok (rl\<lparr>m_limits := AList.update i l' (m_limits rl)\<rparr>)"
  using assms by (auto simp: handles_ok_def)

lemma rl_inv_update:
  assumes "rl_inv rl" "find_limit rl i = Some l" "limit_ok l'" "removed l' = removed l"
  shows "rl_inv (rl\<lparr>m_limits := AList.update i l' (m_limits rl)\<rparr>)"
  using assms limits_ok_update [of rl i l l'] handles_ok_update [of rl i l l']
  by (auto simp: rl_inv_def find_limit_def split: if_splits)

lemma rl_inv_limit_ok: "rl_inv rl \<Longrightarrow> find_limit rl i = Some l \<Longrightarrow> limit_ok l"
  by (auto simp: rl_inv_def limits_ok_def find_limit_def split: if_splits)

lemma rl_inv_gc_counter [simp]: "rl_inv (rl\<lparr>m_gc_counter := c\<rparr>) = rl_inv rl"
  by (simp add: rl_inv_def limits_ok_def handles_ok_def)

lemma find_limit_gc_counter [simp]: "find_limit (rl\<lparr>m_gc_counter := c\<rparr>) i = find_limit rl i"
  by (simp add: find_limit_def)

lemma rl_inv_commit_at:
  assumes "rl_inv rl" "limit_allows (find_limit rl i) key tok now"
  shows "rl_inv (commit_at i key tok now rl)"
  using assms rl_inv_update [of rl i]
  by (auto simp: commit_at_def limit_allows_def rl_inv_limit_ok commit_limit_ok split: option.splits)

lemma find_limit_commit_at:
  "find_limit (commit_at i key tok now rl) j =
     (if j = i then map_option (\<lambda>l. if removed l then l else commit_limit l key tok now) (find_limit rl i)
      else find_limit rl j)"
  by (auto simp: commit_at_def find_limit_def split: option.splits)

text \<open>Committing one key leaves the test of another key as it was.\<close>

lemma can_pass_commit_other:
  "k \<noteq> k' \<Longrightarrow> can_pass (commit_limit l k tok now) k' tok' now' = can_pass l k' tok' now'"
  by (auto simp: can_pass_def find_key_state_def keys_commit_limit check_key_def split: option.splits)

lemma limit_allows_commit_at:
  assumes "limit_allows (find_limit rl j) k' tok now" "\<not> same_limit i j k k'"
  shows "limit_allows (find_limit (commit_at i k tok now rl) j) k' tok now"
  using assms
  by (auto simp: find_limit_commit_at limit_allows_def same_limit_def can_pass_commit_other
      split: option.splits if_splits)
    (auto simp: find_limit_def)

lemma map_of_gc_stale_keys:
  assumes "umap_distinct (m_limits rl)"
  shows "map_of (m_limits (gc_stale_keys now rl)) i =
    (case map_of (m_limits rl) i of None \<Rightarrow> None
     | Some l \<Rightarrow> if removed l \<and> keys (gc_limit now l) = [] then None else Some (gc_limit now l))"
  using assms by (simp add: gc_stale_keys_def map_of_filter_distinct map_of_map_apsnd split: option.splits)

lemma rl_inv_gc: "rl_inv rl \<Longrightarrow> rl_inv (gc_stale_keys now rl)"
proof -
  assume inv: "rl_inv rl"
  let ?rl = "gc_stale_keys now rl"
  have d: "umap_distinct (m_limits rl)" using inv by (simp add: rl_inv_def limits_ok_def)
  have fields [simp]: "m_next_id ?rl = m_next_id rl" "m_owned_handles ?rl = m_owned_handles rl"
      "handle_refs ?rl = handle_refs rl" "m_gc_counter ?rl = m_gc_counter rl"
    by (simp_all add: gc_stale_keys_def)
  have "limits_ok ?rl"
    using inv d unfolding limits_ok_def map_of_gc_stale_keys [OF d]
    by (auto simp: rl_inv_def limits_ok_def gc_limit_ok split: option.splits if_splits)
      (simp add: gc_stale_keys_def umap_distinct_filter)
  moreover have "handles_ok ?rl"
    using inv d unfolding handles_ok_def map_of_gc_stale_keys [OF d] fields
    by (auto simp: rl_inv_def handles_ok_def split: option.splits if_splits)
      (metis option.distinct(1) option.exhaust)
  ultimately show ?thesis by (simp add: rl_inv_def)
qed

lemma rl_inv_commit_both:
  assumes "rl_inv rl" "limit_allows (find_limit rl gi) gk tok now"
    "limit_allows (find_limit rl si) sk tok now"
  shows "rl_inv (commit_both gi si tok gk sk now rl)"
  using assms by (simp add: commit_both_def Let_def rl_inv_commit_at limit_allows_commit_at)

lemma rl_inv_maybe_gc: "rl_inv rl \<Longrightarrow> rl_inv (maybe_gc now rl)"
  by (simp add: maybe_gc_def Let_def rl_inv_gc)

text \<open>The three outcomes of an admission request.\<close>

lemma allow_request_cases:
  obtains (no_limit) "find_limit rl (handle_id g) = None" "find_limit rl (handle_id s) = None"
      "allow_request g s tok gk sk now rl = (rl, True)"
  | (denied) "\<not> (limit_allows (find_limit rl (handle_id g)) gk tok now \<and>
        limit_allows (find_limit rl (handle_id s)) sk tok now)"
      "allow_request g s tok gk sk now rl = (rl, False)"
  | (admitted) "limit_allows (find_limit rl (handle_id g)) gk tok now"
      "limit_allows (find_limit rl (handle_id s)) sk tok now"
      "allow_request g s tok gk sk now rl =
         (maybe_gc now (commit_both (handle_id g) (handle_id s) tok gk sk now rl), True)"
proof -
  let ?g = "find_limit rl (handle_id g)" and ?s = "find_limit rl (handle_id s)"
  consider "?g = None" "?s = None"
    | "\<not> (?g = None \<and> ?s = None)" "\<not> (limit_allows ?g gk tok now \<and> limit_allows ?s sk tok now)"
    | "\<not> (?g = None \<and> ?s = None)" "limit_allows ?g gk tok now" "limit_allows ?s sk tok now"
    by (cases "?g = None \<and> ?s = None"; cases "limit_allows ?g gk tok now \<and> limit_allows ?s sk tok now") auto
  then show thesis
  proof cases
    case 1 then show thesis by (intro no_limit) (simp_all add: allow_request_def)
  next
    case 2 then show thesis by (intro denied) (simp_all add: allow_request_def Let_def)
  next
    case 3 then show thesis by (intro admitted) (auto simp: allow_request_def Let_def)
  qed
qed

lemma rl_inv_allow_request:
  assumes "rl_inv rl"
  shows "rl_inv (fst (allow_request g s tok gk sk now rl))"
  by (rule allow_request_cases [of rl g s tok gk sk now])
    (simp_all add: assms rl_inv_maybe_gc rl_inv_commit_both)

lemma rl_inv_release_at: "rl_inv rl \<Longrightarrow> rl_inv (release_at i key tok rl)"
  using rl_inv_update [of rl i]
  by (auto simp: release_at_def rl_inv_limit_ok release_key_ok split: option.splits)

lemma rl_inv_release_request: "rl_inv rl \<Longrightarrow> rl_inv (release_request g s tok gk sk rl)"
  by (simp add: release_request_def Let_def rl_inv_release_at)

lemma rl_inv_create: "rl_inv rl \<Longrightarrow> rl_inv (fst (create_limit_handle rpp per seq rl))"
  by (auto simp: create_limit_handle_def Let_def rl_inv_def limits_ok_def handles_ok_def limit_ok_def)
    (force+)?

lemma rl_inv_copy: "rl_inv rl \<Longrightarrow> rl_inv (copy_handle h rl)"
  by (auto simp: copy_handle_def rl_inv_def limits_ok_def handles_ok_def split: option.splits)


text \<open>
  Whoever destroys a shared pointer holds it: the owner's reference in \<open>m_owned_handles\<close> is not
  dropped by others.
\<close>

definition external_refs :: "HttpRateLimiter \<Rightarrow> int \<Rightarrow> nat" where
  "external_refs rl i =
     (case map_of (handle_refs rl) i of
        None \<Rightarrow> 0
      | Some n \<Rightarrow> if map_of (m_owned_handles rl) i = None then n else n - 1)"

lemma rl_inv_handle_reset:
  assumes "limits_ok rl" "handles_ok rl" "map_of (m_owned_handles rl) i = None"
  shows "rl_inv (handle_reset i (rl\<lparr>handle_refs := AList.delete i (handle_refs rl)\<rparr>))"
proof (cases "i \<noteq> 0 \<and> map_of (m_limits rl) i \<noteq> None")
  case True
  then obtain l where l: "map_of (m_limits rl) i = Some l" by auto
  have "limit_ok (l\<lparr>removed := True\<rparr>)"
    using assms(1) l by (auto simp: limits_ok_def limit_ok_def key_ok_def)
  with assms l True show ?thesis
    by (auto simp: handle_reset_def remove_limit_internal_def Let_def rl_inv_def limits_ok_def
        handles_ok_def)
next
  case False
  with assms show ?thesis
    by (auto simp: handle_reset_def remove_limit_internal_def rl_inv_def limits_ok_def handles_ok_def
        split: option.splits)
qed

lemma rl_inv_drop:
  assumes "rl_inv rl" "\<forall>i. h = Some i \<longrightarrow> 0 < external_refs rl i"
  shows "rl_inv (drop_handle h rl)"
proof (cases h)
  case (Some i)
  show ?thesis
  proof (cases "map_of (handle_refs rl) i")
    case n: (Some n)
    show ?thesis
    proof (cases "n > 1")
      case True
      with assms(1) Some n show ?thesis
        by (auto simp: drop_handle_def rl_inv_def limits_ok_def handles_ok_def)
    next
      case False
      then have "map_of (m_owned_handles rl) i = None"
        using assms(2) Some n by (auto simp: external_refs_def split: if_splits)
      then have "rl_inv (handle_reset i (rl\<lparr>handle_refs := AList.delete i (handle_refs rl)\<rparr>))"
        using assms(1) rl_inv_handle_reset [of rl i] by (simp add: rl_inv_def)
      with False Some n show ?thesis by (simp add: drop_handle_def)
    qed
  qed (use assms Some in \<open>simp add: drop_handle_def\<close>)
qed (use assms in \<open>simp add: drop_handle_def\<close>)

lemma rl_inv_disown:
  "rl_inv rl \<Longrightarrow> rl_inv (rl\<lparr>m_owned_handles := AList.delete i (m_owned_handles rl)\<rparr>)"
  by (auto simp: rl_inv_def limits_ok_def handles_ok_def)

lemma rl_inv_remove_limit:
  assumes "rl_inv rl"
  shows "rl_inv (fst (remove_limit i rl))"
proof (cases "map_of (m_owned_handles rl) i")
  case (Some h)
  let ?rl = "rl\<lparr>m_owned_handles := AList.delete i (m_owned_handles rl)\<rparr>"
  have "h = Some i" and "map_of (handle_refs rl) i \<noteq> None"
    using assms Some by (auto simp: rl_inv_def handles_ok_def)
  then obtain n where h: "h = Some i" and n: "map_of (handle_refs rl) i = Some n" by blast
  have "0 < n" using assms n by (auto simp: rl_inv_def handles_ok_def)
  with n have "0 < external_refs ?rl i" by (simp add: external_refs_def)
  then have "rl_inv (drop_handle h ?rl)"
    using h by (intro rl_inv_drop rl_inv_disown assms) simp
  with Some show ?thesis by (simp add: remove_limit_def)
qed (use assms in \<open>simp add: remove_limit_def\<close>)

lemma rl_inv_get_limit: "rl_inv rl \<Longrightarrow> rl_inv (fst (get_limit i rl))"
  by (auto simp: get_limit_def rl_inv_copy split: option.splits)

section \<open>Reachable limiters\<close>

text \<open>
  What the callers of the limiter do with it, in any order: create limits, release the owned
  handle, copy and drop handles they hold, and ask for and release admissions. The ID based
  operations are compositions of these.
\<close>

inductive rl_step :: "HttpRateLimiter \<Rightarrow> HttpRateLimiter \<Rightarrow> bool" where
  step_create: "rl_step rl (fst (create_limit_handle rpp per seq rl))"
| step_remove: "rl_step rl (fst (remove_limit i rl))"
| step_get: "rl_step rl (fst (get_limit i rl))"
| step_copy: "rl_step rl (copy_handle h rl)"
| step_drop: "0 < external_refs rl i \<Longrightarrow> rl_step rl (drop_handle (Some i) rl)"
| step_allow: "rl_step rl (fst (allow_request g s tok gk sk now rl))"
| step_release: "rl_step rl (release_request g s tok gk sk rl)"

inductive_cases rl_stepE: "rl_step rl rl'"

inductive rl_reachable :: "HttpRateLimiter \<Rightarrow> bool" where
  reach_init: "rl_reachable HttpRateLimiter_init"
| reach_step: "rl_reachable rl \<Longrightarrow> rl_step rl rl' \<Longrightarrow> rl_reachable rl'"

lemmas rl_inv_intros =
  rl_inv_create rl_inv_remove_limit rl_inv_get_limit rl_inv_copy rl_inv_drop
  rl_inv_allow_request rl_inv_release_request

lemma rl_step_inv: "rl_step rl rl' \<Longrightarrow> rl_inv rl \<Longrightarrow> rl_inv rl'"
  by (erule rl_stepE) (auto intro: rl_inv_intros)

lemma rl_reachable_inv: "rl_reachable rl \<Longrightarrow> rl_inv rl"
  by (induction rule: rl_reachable.induct) (auto intro: rl_inv_init rl_step_inv)

end
