(* ===== verification/Fixed_Window.thy ===== *)
theory Fixed_Window
  imports Kurlyk_Prelude
begin

text \<open>
  The contract of a fixed window rate limiter, shared by the HTTP limiter
  (\<open>HttpRateLimiter::check_key\<close>, \<open>update_key\<close>) and the WebSocket limiter
  (\<open>WebSocketRateLimiter::check_limit\<close>, \<open>update_limit\<close>): a state with the start of its window
  and the number of requests admitted in it, a test and an update that are run one after the
  other, and the clock values they read. The lemmas of the locale hold for every limiter that
  satisfies the laws; the theories of the two limiters interpret it.
\<close>

locale fixed_window =
  fixes check :: "int \<Rightarrow> 's \<Rightarrow> bool"
    and update :: "int \<Rightarrow> 's \<Rightarrow> 's"
    and start :: "'s \<Rightarrow> int"
    and used :: "'s \<Rightarrow> int"
    and period :: int
    and limit :: int
  assumes limit_pos: "0 < limit"
    and period_pos: "0 < period"
    and check_sound: "check now s \<Longrightarrow> start s + period \<le> now \<or> used s < limit"
    and update_reset: "start s + period \<le> now \<Longrightarrow>
      start (update now s) = now \<and> used (update now s) = 1"
    and update_count: "now < start s + period \<Longrightarrow>
      start (update now s) = start s \<and> used (update now s) = used s + 1"
begin

text \<open>
  The histories of one window state: \<open>window_run t adm s\<close> says that the state is \<open>s\<close> at
  time \<open>t\<close> and that the requests admitted so far were committed at the times \<open>adm\<close>, latest
  first. Between requests time passes, fields the window does not use may change, and an expired
  state may be replaced by another expired one.
\<close>

inductive window_run :: "int \<Rightarrow> int list \<Rightarrow> 's \<Rightarrow> bool" where
  begin_run: "start s \<le> t \<Longrightarrow> 0 \<le> used s \<Longrightarrow> used s \<le> limit \<Longrightarrow> window_run t [] s"
| wait: "window_run t adm s \<Longrightarrow> t \<le> t' \<Longrightarrow> window_run t' adm s"
| admit: "window_run t adm s \<Longrightarrow> t \<le> tc \<Longrightarrow> tc \<le> tu \<Longrightarrow> check tc s \<Longrightarrow>
     window_run tu (tu # adm) (update tu s)"
| frame: "window_run t adm s \<Longrightarrow> start s' = start s \<Longrightarrow> used s' = used s \<Longrightarrow> window_run t adm s'"
| expire: "window_run t adm s \<Longrightarrow> start s + period \<le> t \<Longrightarrow> start s' + period \<le> t \<Longrightarrow>
     0 \<le> used s' \<Longrightarrow> used s' \<le> limit \<Longrightarrow> window_run t adm s'"

definition window_live :: "int \<Rightarrow> int list \<Rightarrow> 's \<Rightarrow> bool" where
  "window_live t adm s \<longleftrightarrow> start s \<le> t \<and> (\<forall>h \<in> set adm. h < start s + period) \<and>
     int (length (filter (\<lambda>h. start s \<le> h) adm)) \<le> used s \<and>
     (\<forall>a \<ge> start s - period. int (length (filter (\<lambda>h. a \<le> h \<and> h < start s) adm)) \<le> limit)"

definition window_dead :: "int \<Rightarrow> int list \<Rightarrow> 's \<Rightarrow> bool" where
  "window_dead t adm s \<longleftrightarrow> start s + period \<le> t \<and> (\<forall>h \<in> set adm. h < t) \<and>
     int (length (filter (\<lambda>h. t - period \<le> h) adm)) \<le> limit"

definition window_inv :: "int \<Rightarrow> int list \<Rightarrow> 's \<Rightarrow> bool" where
  "window_inv t adm s \<longleftrightarrow> 0 \<le> used s \<and> used s \<le> limit \<and> (\<forall>h \<in> set adm. h \<le> t) \<and>
     (window_live t adm s \<or> window_dead t adm s) \<and>
     (\<forall>a. int (length (filter (\<lambda>h. a \<le> h \<and> h < a + period) adm)) \<le> 2 * limit)"

lemma count_mono:
  assumes "\<And>x. x \<in> set xs \<Longrightarrow> P x \<Longrightarrow> Q x" and "int (length (filter Q xs)) \<le> n"
  shows "int (length (filter P xs)) \<le> n"
proof -
  have "length (filter P xs) \<le> length (filter Q xs)"
    by (rule length_filter_le_imp) (rule assms(1))
  with assms(2) show ?thesis by simp
qed

lemma window_dead_of_expired:
  assumes "window_inv t adm s" "start s + period \<le> t"
  shows "window_dead t adm s"
proof (cases "window_live t adm s")
  case True
  then have "\<forall>h \<in> set adm. h < t"
    and cnt: "int (length (filter (\<lambda>h. start s \<le> h) adm)) \<le> used s"
    using assms(2) by (auto simp: window_live_def)
  moreover have "int (length (filter (\<lambda>h. t - period \<le> h) adm)) \<le> used s"
    by (rule count_mono [OF _ cnt]) (use assms(2) in auto)
  ultimately show ?thesis using assms by (auto simp: window_dead_def window_inv_def)
next
  case False
  with assms(1) show ?thesis by (simp add: window_inv_def)
qed

lemma window_inv_wait: "window_inv t adm s \<Longrightarrow> t \<le> t' \<Longrightarrow> window_inv t' adm s"
  unfolding window_inv_def window_live_def window_dead_def
  by (smt (verit, best) count_mono)

lemma window_live_admit:
  assumes inv: "window_inv t adm s" and "t \<le> tc" "tc \<le> tu" and ok: "check tc s"
  shows "window_live tu (tu # adm) (update tu s) \<and> used (update tu s) \<le> limit \<and> 0 \<le> used (update tu s)"
proof (cases "start s + period \<le> tu")
  case True
  have inv': "window_inv tu adm s" using inv assms(2,3) by (meson window_inv_wait order_trans)
  have dead: "window_dead tu adm s" by (rule window_dead_of_expired [OF inv' True])
  then have lt: "\<forall>h \<in> set adm. h < tu"
    and cnt: "int (length (filter (\<lambda>h. tu - period \<le> h) adm)) \<le> limit"
    by (auto simp: window_dead_def)
  have none: "filter (\<lambda>h. tu \<le> h) adm = []" using lt by (auto simp: filter_empty_conv)
  have "int (length (filter (\<lambda>h. a \<le> h \<and> h < tu) adm)) \<le> limit" if "tu - period \<le> a" for a
    by (rule count_mono [OF _ cnt]) (use that in auto)
  with update_reset [OF True] lt none period_pos limit_pos show ?thesis
    by (auto simp: window_live_def intro: order.strict_trans)
next
  case False
  have "\<not> window_dead t adm s" using False assms(2,3) by (auto simp: window_dead_def)
  with inv have live: "window_live t adm s" by (simp add: window_inv_def)
  from check_sound [OF ok] False assms(3) have "used s < limit" by linarith
  with update_count [of tu s] False live inv assms(2,3) show ?thesis
    by (auto simp: window_live_def window_inv_def)
qed

lemma window_inv_admit:
  assumes inv: "window_inv t adm s" and "t \<le> tc" "tc \<le> tu" and ok: "check tc s"
  shows "window_inv tu (tu # adm) (update tu s)"
proof -
  let ?s = "update tu s"
  let ?H = "tu # adm"
  have live: "window_live tu ?H ?s" and used: "used ?s \<le> limit" "0 \<le> used ?s"
    using window_live_admit [OF assms] by auto
  have "int (length (filter (\<lambda>h. a \<le> h \<and> h < a + period) ?H)) \<le> 2 * limit" for a
  proof (cases "a \<le> tu \<and> tu < a + period")
    case True
    have *: "length (filter (\<lambda>h. a \<le> h \<and> h < a + period) ?H) \<le>
      length (filter (\<lambda>h. (a \<le> h \<and> h < start ?s) \<or> start ?s \<le> h) ?H)"
      by (rule length_filter_le_imp) auto
    have "int (length (filter (\<lambda>h. a \<le> h \<and> h < start ?s) ?H)) \<le> limit"
      using live True by (auto simp: window_live_def)
    moreover have "int (length (filter (\<lambda>h. start ?s \<le> h) ?H)) \<le> limit"
      using live used by (auto simp: window_live_def)
    ultimately show ?thesis
      using * length_filter_disj_le [of "\<lambda>h. a \<le> h \<and> h < start ?s" "\<lambda>h. start ?s \<le> h" ?H] by linarith
  next
    case False
    with inv show ?thesis by (auto simp: window_inv_def)
  qed
  moreover have "\<forall>h \<in> set ?H. h \<le> tu" using inv assms(2,3) by (auto simp: window_inv_def)
  ultimately show ?thesis using live used unfolding window_inv_def by blast
qed

lemma window_run_inv: "window_run t adm s \<Longrightarrow> window_inv t adm s"
proof (induction rule: window_run.induct)
  case (begin_run s t)
  then show ?case using limit_pos by (simp add: window_inv_def window_live_def)
next
  case (wait t adm s t')
  then show ?case by (blast intro: window_inv_wait)
next
  case (admit t adm s tc tu)
  then show ?case by (blast intro: window_inv_admit)
next
  case (frame t adm s s')
  then show ?case by (simp add: window_inv_def window_live_def window_dead_def)
next
  case (expire t adm s s')
  then have "window_dead t adm s" by (blast intro: window_dead_of_expired)
  with expire show ?case by (simp add: window_inv_def window_dead_def)
qed

text \<open>
  The two consequences the clients use: the counter never passes the limit, and no interval
  that is shorter than one period contains more than twice the limit.
\<close>

lemma used_le_limit: "window_run t adm s \<Longrightarrow> used s \<le> limit"
  using window_run_inv by (auto simp: window_inv_def)

lemma admitted_in_interval:
  "window_run t adm s \<Longrightarrow> int (length (filter (\<lambda>h. a \<le> h \<and> h < a + period) adm)) \<le> 2 * limit"
  using window_run_inv by (auto simp: window_inv_def)

lemma run_times: "window_run t adm s \<Longrightarrow> h \<in> set adm \<Longrightarrow> h \<le> t"
  using window_run_inv by (auto simp: window_inv_def)

end

end
