(* ===== verification/Http_Rate_Limiter_Window.thy ===== *)
theory Http_Rate_Limiter_Window
  imports Http_Rate_Limiter_Inv Fixed_Window
begin

text \<open>
  The HTTP rate limiter as a fixed window limiter: one partition key of one limit satisfies the
  contract of \<open>Fixed_Window\<close>, and in every run of the limiter, whatever the other keys, limits,
  handles and garbage collections do in between, the requests admitted for that key obey it.
\<close>

section \<open>The contract holds for one key\<close>

text \<open>The parameters of a counting limit: at least one request in at least one millisecond.\<close>

definition window_params :: "nat \<Rightarrow> nat \<Rightarrow> LimitData" where
  "window_params n p = \<lparr>requests_per_period = 1 + int n, period_ms = 1 + int p,
     sequential = False, removed = False, keys = []\<rparr>"

interpretation http_window: fixed_window
  "\<lambda>now st. check_key (window_params n p) st now" "\<lambda>now st. update_key (window_params n p) st now"
  ks_start_time ks_count "(1 + int p) * ns_per_ms" "1 + int n" for n p
proof unfold_locales
  show "0 < (1 + int p) * ns_per_ms" by (simp add: ns_per_ms_def)
next
  have E: "1 + int p \<le> duration_ms d \<longleftrightarrow> (1 + int p) * ns_per_ms \<le> d" for d
    by (rule duration_ms_ge_iff) simp
  fix now :: int and s :: KeyState
  let ?l = "window_params n p"
  show "check_key ?l s now \<Longrightarrow>
      ks_start_time s + (1 + int p) * ns_per_ms \<le> now \<or> ks_count s < 1 + int n"
    by (auto simp: check_key_def window_params_def E split: if_splits)
  show "ks_start_time s + (1 + int p) * ns_per_ms \<le> now \<Longrightarrow>
      ks_start_time (update_key ?l s now) = now \<and> ks_count (update_key ?l s now) = 1"
    by (simp add: update_key_def window_params_def E)
  show "now < ks_start_time s + (1 + int p) * ns_per_ms \<Longrightarrow>
      ks_start_time (update_key ?l s now) = ks_start_time s \<and>
      ks_count (update_key ?l s now) = ks_count s + 1"
    by (simp add: update_key_def window_params_def E)
qed simp

lemma check_key_cong:
  "requests_per_period l = requests_per_period l' \<Longrightarrow> period_ms l = period_ms l' \<Longrightarrow>
   check_key l st now = check_key l' st now"
  by (simp add: check_key_def)

lemma update_key_cong:
  "requests_per_period l = requests_per_period l' \<Longrightarrow> period_ms l = period_ms l' \<Longrightarrow>
   update_key l st now = update_key l' st now"
  by (simp add: update_key_def Let_def)

section \<open>Runs of the limiter\<close>

datatype rl_op =
    RlCreate int int bool
  | RlRemove int
  | RlGet int
  | RlCopy HttpRateLimitHandlePtr
  | RlDrop int
  | RlAllow HttpRateLimitHandlePtr HttpRateLimitHandlePtr u64 string string time_point
  | RlRelease HttpRateLimitHandlePtr HttpRateLimitHandlePtr u64 string string

fun rl_exec :: "rl_op \<Rightarrow> HttpRateLimiter \<Rightarrow> HttpRateLimiter \<times> bool" where
  "rl_exec (RlCreate rpp per seq) rl = (fst (create_limit_handle rpp per seq rl), False)"
| "rl_exec (RlRemove i) rl = (fst (remove_limit i rl), False)"
| "rl_exec (RlGet i) rl = (fst (get_limit i rl), False)"
| "rl_exec (RlCopy h) rl = (copy_handle h rl, False)"
| "rl_exec (RlDrop i) rl = ((if 0 < external_refs rl i then drop_handle (Some i) rl else rl), False)"
| "rl_exec (RlAllow g s tok gk sk now) rl = allow_request g s tok gk sk now rl"
| "rl_exec (RlRelease g s tok gk sk) rl = (release_request g s tok gk sk rl, False)"

fun rl_run :: "rl_op list \<Rightarrow> HttpRateLimiter \<Rightarrow> HttpRateLimiter" where
  "rl_run [] rl = rl"
| "rl_run (x # xs) rl = rl_run xs (fst (rl_exec x rl))"

text \<open>Whether an admitted request is charged to key \<open>k\<close> of limit \<open>i\<close>, and when.\<close>

fun charged :: "int \<Rightarrow> string \<Rightarrow> rl_op \<Rightarrow> bool" where
  "charged i k (RlAllow g s tok gk sk now) =
     (handle_id g = i \<and> gk = k \<or> handle_id s = i \<and> sk = k)"
| "charged i k _ = False"

fun op_clock :: "rl_op \<Rightarrow> time_point option" where
  "op_clock (RlAllow g s tok gk sk now) = Some now"
| "op_clock _ = None"

definition op_admits :: "int \<Rightarrow> string \<Rightarrow> rl_op \<Rightarrow> HttpRateLimiter \<Rightarrow> time_point list" where
  "op_admits i k x rl =
     (if snd (rl_exec x rl) \<and> charged i k x
      then (case op_clock x of None \<Rightarrow> [] | Some now \<Rightarrow> [now]) else [])"

fun admitted_times :: "int \<Rightarrow> string \<Rightarrow> rl_op list \<Rightarrow> HttpRateLimiter \<Rightarrow> time_point list" where
  "admitted_times i k [] rl = []"
| "admitted_times i k (x # xs) rl = op_admits i k x rl @ admitted_times i k xs (fst (rl_exec x rl))"

text \<open>The clock never runs backwards.\<close>

fun clock_ok :: "time_point \<Rightarrow> rl_op list \<Rightarrow> bool" where
  "clock_ok t [] = True"
| "clock_ok t (x # xs) =
     (case op_clock x of None \<Rightarrow> clock_ok t xs | Some now \<Rightarrow> t \<le> now \<and> clock_ok now xs)"

definition alive :: "HttpRateLimiter \<Rightarrow> int \<Rightarrow> bool" where
  "alive rl i \<longleftrightarrow> map_of (handle_refs rl) i \<noteq> None"

lemma rl_exec_inv: "rl_inv rl \<Longrightarrow> rl_inv (fst (rl_exec x rl))"
  by (cases x) (auto intro: rl_inv_intros)

lemma rl_run_inv: "rl_inv rl \<Longrightarrow> rl_inv (rl_run xs rl)"
  by (induction xs arbitrary: rl) (auto intro: rl_exec_inv)

lemma alive_limit:
  assumes "rl_inv rl" "alive rl i"
  obtains l where "find_limit rl i = Some l" "\<not> removed l"
proof -
  from assms obtain n where "map_of (handle_refs rl) i = Some n" by (auto simp: alive_def)
  with assms(1) have "0 < i \<and> (\<exists>l. map_of (m_limits rl) i = Some l \<and> \<not> removed l)"
    by (auto simp: rl_inv_def handles_ok_def)
  then show thesis using that by (auto simp: find_limit_def)
qed

section \<open>How an operation changes one key\<close>

text \<open>The parameters of a limit never change, and a dead limit stays dead.\<close>

definition same_params :: "LimitData \<Rightarrow> LimitData \<Rightarrow> bool" where
  "same_params l l' \<longleftrightarrow> requests_per_period l = requests_per_period l' \<and>
     period_ms l = period_ms l' \<and> sequential l = sequential l'"

lemma handle_refs_commit_at [simp]: "handle_refs (commit_at i k tok now rl) = handle_refs rl"
  by (auto simp: commit_at_def split: option.splits)

lemma handle_refs_release_at [simp]: "handle_refs (release_at i k tok rl) = handle_refs rl"
  by (auto simp: release_at_def split: option.splits)

lemma handle_refs_gc [simp]: "handle_refs (gc_stale_keys now rl) = handle_refs rl"
  by (simp add: gc_stale_keys_def)

lemma handle_refs_allow [simp]:
  "handle_refs (fst (allow_request g s tok gk sk now rl)) = handle_refs rl"
  by (simp add: allow_request_def commit_both_def maybe_gc_def Let_def)

lemma handle_refs_release [simp]:
  "handle_refs (release_request g s tok gk sk rl) = handle_refs rl"
  by (simp add: release_request_def Let_def)

lemma handle_refs_reset [simp]: "handle_refs (handle_reset i rl) = handle_refs rl"
  by (auto simp: handle_reset_def remove_limit_internal_def Let_def split: option.splits)

lemma m_next_id_reset [simp]: "m_next_id (handle_reset i rl) = m_next_id rl"
  by (auto simp: handle_reset_def remove_limit_internal_def Let_def split: option.splits)

lemma limits_reset_other [simp]:
  "j \<noteq> i \<Longrightarrow> map_of (m_limits (handle_reset i rl)) j = map_of (m_limits rl) j"
  by (auto simp: handle_reset_def remove_limit_internal_def Let_def split: option.splits)

lemma m_next_id_drop [simp]: "m_next_id (drop_handle h rl) = m_next_id rl"
  by (auto simp: drop_handle_def split: option.splits)

lemma alive_drop: "alive (drop_handle h rl) i \<Longrightarrow> alive rl i"
  by (auto simp: alive_def drop_handle_def split: option.splits if_splits)

lemma limits_drop_alive:
  "alive (drop_handle h rl) i \<Longrightarrow> map_of (m_limits (drop_handle h rl)) i = map_of (m_limits rl) i"
  by (auto simp: alive_def drop_handle_def split: option.splits if_splits)

lemma limits_disown [simp]:
  "m_limits (rl\<lparr>m_owned_handles := x\<rparr>) = m_limits rl" "alive (rl\<lparr>m_owned_handles := x\<rparr>) = alive rl"
  by (auto simp: alive_def)

lemma copy_handle_simps [simp]:
  "m_limits (copy_handle h rl) = m_limits rl" "alive (copy_handle h rl) = alive rl"
  "m_next_id (copy_handle h rl) = m_next_id rl"
  by (auto simp: copy_handle_def alive_def fun_eq_iff split: option.splits)

text \<open>Operations that do not look at key states.\<close>

definition is_admission :: "rl_op \<Rightarrow> bool" where
  "is_admission x \<longleftrightarrow> (\<exists>g s tok gk sk now. x = RlAllow g s tok gk sk now) \<or>
     (\<exists>g s tok gk sk. x = RlRelease g s tok gk sk)"

lemma handle_op_limit:
  assumes "\<not> is_admission x" "rl_inv rl" "i < m_next_id rl" "alive (fst (rl_exec x rl)) i"
  shows "alive rl i \<and> find_limit (fst (rl_exec x rl)) i = find_limit rl i"
proof (cases x)
  case (RlCreate rpp per seq)
  with assms show ?thesis
    by (auto simp: create_limit_handle_def Let_def find_limit_def alive_def)
next
  case (RlRemove j)
  with assms(4) show ?thesis
    by (auto simp: remove_limit_def find_limit_def limits_drop_alive dest: alive_drop split: option.splits)
next
  case (RlGet j)
  with assms(4) show ?thesis by (auto simp: get_limit_def find_limit_def split: option.splits)
next
  case (RlCopy h)
  with assms(4) show ?thesis by (simp add: find_limit_def)
next
  case (RlDrop j)
  with assms(4) show ?thesis
    by (auto simp: find_limit_def limits_drop_alive dest: alive_drop split: if_splits)
qed (use assms in \<open>auto simp: is_admission_def\<close>)

lemma m_next_id_mono: "m_next_id rl \<le> m_next_id (fst (rl_exec x rl))"
  by (cases x) (auto simp: create_limit_handle_def Let_def remove_limit_def get_limit_def
      allow_request_def commit_both_def maybe_gc_def release_request_def commit_at_def release_at_def gc_stale_keys_def
      split: option.splits)


section \<open>Admissions and releases\<close>

lemma get_key_state_commit:
  "get_key_state (commit_limit l k' tok now) k =
     (if k = k' then committed_key l k tok now else get_key_state l k)"
  by (auto simp: get_key_state_def keys_commit_limit)

lemma get_key_state_gc:
  "umap_distinct (keys l) \<Longrightarrow>
   get_key_state (gc_limit now l) k =
     (case find_key_state l k of
        None \<Rightarrow> KeyState_default
      | Some st \<Rightarrow> if gc_erases_key l st now then KeyState_default else st)"
  by (auto simp: get_key_state_def find_key_state_def keys_gc_limit split: option.splits)

lemma committed_key_window:
  "ks_start_time (committed_key l k tok now) = ks_start_time (update_key l (get_key_state l k) now)"
  "ks_count (committed_key l k tok now) = ks_count (update_key l (get_key_state l k) now)"
  by (simp_all add: committed_key_def Let_def update_key_tokens)

text \<open>The limit after a successful admission, before garbage collection.\<close>

definition admit_limit ::
    "int \<Rightarrow> int \<Rightarrow> int \<Rightarrow> u64 \<Rightarrow> string \<Rightarrow> string \<Rightarrow> time_point \<Rightarrow> LimitData \<Rightarrow> LimitData" where
  "admit_limit i gi si tok gk sk now l =
     (let l1 = (if gi = i then commit_limit l gk tok now else l)
      in if si = i \<and> \<not> same_limit gi si gk sk then commit_limit l1 sk tok now else l1)"

lemma admit_limit_params [simp]:
  "requests_per_period (admit_limit i gi si tok gk sk now l) = requests_per_period l"
  "period_ms (admit_limit i gi si tok gk sk now l) = period_ms l"
  "sequential (admit_limit i gi si tok gk sk now l) = sequential l"
  "removed (admit_limit i gi si tok gk sk now l) = removed l"
  by (simp_all add: admit_limit_def Let_def)

lemma committed_key_cong:
  "get_key_state l k = get_key_state l' k \<Longrightarrow> same_params l l' \<Longrightarrow>
   committed_key l k tok now = committed_key l' k tok now"
  by (simp add: committed_key_def same_params_def update_key_def Let_def)

lemma committed_key_commit_other:
  "k \<noteq> k' \<Longrightarrow> committed_key (commit_limit l k' tok now) k tok2 now2 = committed_key l k tok2 now2"
  by (rule committed_key_cong) (simp_all add: get_key_state_commit same_params_def)

lemma get_key_state_admit:
  assumes "i \<noteq> 0"
  shows "get_key_state (admit_limit i gi si tok gk sk now l) k =
     (if gi = i \<and> gk = k \<or> si = i \<and> sk = k then committed_key l k tok now else get_key_state l k)"
proof (cases "gi = i")
  case True
  show ?thesis
    by (cases "si = i"; cases "gk = sk")
      (simp_all add: True assms admit_limit_def same_limit_def get_key_state_commit
        committed_key_commit_other)
next
  case False
  then show ?thesis
    by (cases "si = i") (simp_all add: admit_limit_def same_limit_def get_key_state_commit)
qed

lemma find_limit_commit_both:
  assumes "find_limit rl i = Some l" "\<not> removed l"
  shows "find_limit (commit_both gi si tok gk sk now rl) i =
    Some (admit_limit i gi si tok gk sk now l)"
proof -
  have i: "find_limit (commit_at j key tok now rl') i =
      Some (if j = i then commit_limit l' key tok now else l')"
    if "find_limit rl' i = Some l'" "\<not> removed l'" for j key rl' l'
    using that by (auto simp: find_limit_commit_at)
  note c1 = i [OF assms, of gi gk]
  have "\<not> removed (if gi = i then commit_limit l gk tok now else l)" using assms(2) by simp
  note c2 = i [OF c1 this, of si sk]
  show ?thesis
    by (cases "same_limit gi si gk sk") (auto simp: commit_both_def admit_limit_def Let_def c1 c2)
qed

lemma find_limit_maybe_gc:
  assumes "rl_inv rl" "find_limit rl i = Some l" "\<not> removed l"
  shows "find_limit (maybe_gc now rl) i = Some l \<or> find_limit (maybe_gc now rl) i = Some (gc_limit now l)"
proof -
  have "umap_distinct (m_limits (rl\<lparr>m_gc_counter := m_gc_counter rl + 1\<rparr>))"
    using assms(1) by (simp add: rl_inv_def limits_ok_def)
  note map_of_gc_stale_keys [OF this, of now i]
  with assms(2,3) show ?thesis
    by (simp add: maybe_gc_def Let_def find_limit_def split: if_splits)
qed

lemma allow_request_limit:
  assumes "rl_inv rl" "find_limit rl i = Some l" "\<not> removed l"
    and ok: "allow_request g s tok gk sk now rl = (rl', True)"
  shows "find_limit rl' i = Some (admit_limit i (handle_id g) (handle_id s) tok gk sk now l) \<or>
    find_limit rl' i = Some (gc_limit now (admit_limit i (handle_id g) (handle_id s) tok gk sk now l))"
proof (rule allow_request_cases [of rl g s tok gk sk now])
  assume "find_limit rl (handle_id g) = None" "find_limit rl (handle_id s) = None"
    "allow_request g s tok gk sk now rl = (rl, True)"
  then have "rl' = rl" "handle_id g \<noteq> i" "handle_id s \<noteq> i" using ok assms(2) by auto
  with assms(2) show ?thesis by (simp add: admit_limit_def)
next
  let ?rl = "commit_both (handle_id g) (handle_id s) tok gk sk now rl"
  assume al: "limit_allows (find_limit rl (handle_id g)) gk tok now"
    "limit_allows (find_limit rl (handle_id s)) sk tok now"
    and "allow_request g s tok gk sk now rl = (maybe_gc now ?rl, True)"
  then have "rl' = maybe_gc now ?rl" using ok by simp
  moreover have "rl_inv ?rl" using assms(1) al by (rule rl_inv_commit_both)
  moreover note find_limit_commit_both [OF assms(2,3), of "handle_id g" "handle_id s" tok gk sk now]
  ultimately show ?thesis using find_limit_maybe_gc [of ?rl i _ now] assms(3) by simp
qed (use ok in simp)

lemma allow_request_charged_check:
  assumes "find_limit rl i = Some l" "\<not> removed l" "0 < requests_per_period l"
    and ok: "allow_request g s tok gk sk now rl = (rl', True)"
    and ch: "handle_id g = i \<and> gk = k \<or> handle_id s = i \<and> sk = k"
  shows "check_key l (get_key_state l k) now"
proof -
  have "can_pass l k tok now"
    by (rule allow_request_cases [of rl g s tok gk sk now])
      (use assms in \<open>auto simp: limit_allows_def\<close>)
  then show ?thesis
    using assms(3) check_key_default [of l now]
    by (auto simp: can_pass_def get_key_state_def find_key_state_def split: option.splits if_splits)
qed


section \<open>Histories\<close>

text \<open>
  The state of key \<open>k\<close> of the live limit \<open>i\<close>, together with the times at which requests were
  charged to it.
\<close>

definition key_history ::
    "nat \<Rightarrow> nat \<Rightarrow> int \<Rightarrow> string \<Rightarrow> time_point \<Rightarrow> time_point list \<Rightarrow> HttpRateLimiter \<Rightarrow> bool" where
  "key_history n p i k t adm rl \<longleftrightarrow> rl_inv rl \<and> 0 \<le> t \<and> i < m_next_id rl \<and>
     (\<exists>l. find_limit rl i = Some l \<and> \<not> removed l \<and>
        requests_per_period l = 1 + int n \<and> period_ms l = 1 + int p \<and>
        0 \<le> ks_start_time (get_key_state l k) \<and>
        http_window.window_run n p t adm (get_key_state l k))"

lemma get_key_state_ok:
  "limit_ok l \<Longrightarrow> get_key_state l k = KeyState_default \<or>
     (find_key_state l k = Some (get_key_state l k) \<and> key_ok l (get_key_state l k))"
  by (auto simp: limit_ok_def get_key_state_def find_key_state_def split: option.splits)

lemma run_gc:
  assumes run: "http_window.window_run n p t adm (get_key_state l k)"
    and ok: "limit_ok l" and par: "requests_per_period l = 1 + int n" "period_ms l = 1 + int p"
    and st0: "0 \<le> ks_start_time (get_key_state l k)"
  shows "http_window.window_run n p t adm (get_key_state (gc_limit t l) k) \<and>
    0 \<le> ks_start_time (get_key_state (gc_limit t l) k)"
proof -
  have d: "umap_distinct (keys l)" using ok by (simp add: limit_ok_def)
  show ?thesis
  proof (cases "find_key_state l k")
    case None
    then have "get_key_state l k = KeyState_default"
      by (simp add: get_key_state_def find_key_state_def)
    with run None show ?thesis by (simp add: get_key_state_gc [OF d] KeyState_default_def)
  next
    case (Some st)
    then have st: "get_key_state l k = st" and kok: "key_ok l st"
      using ok by (auto simp: get_key_state_def find_key_state_def limit_ok_def)
    show ?thesis
    proof (cases "gc_erases_key l st t")
      case True
      with kok par have "1 + int p \<le> duration_ms (t - ks_start_time st)"
        by (auto simp: gc_erases_key_def key_ok_def split: if_splits)
      then have "ks_start_time st + (1 + int p) * ns_per_ms \<le> t"
        using duration_ms_ge_iff [of "1 + int p" "t - ks_start_time st"] by simp
      then show ?thesis
        using run st st0 True Some
          http_window.window_run.expire [of n p t adm st KeyState_default]
        by (simp add: get_key_state_gc [OF d] KeyState_default_def)
    next
      case False
      with run st st0 Some show ?thesis by (simp add: get_key_state_gc [OF d])
    qed
  qed
qed

lemma run_admit:
  assumes run: "http_window.window_run n p t adm (get_key_state l k)" and now: "0 \<le> t" "t \<le> now"
    and l: "find_limit rl i = Some l" "\<not> removed l"
    and par: "requests_per_period l = 1 + int n" "period_ms l = 1 + int p"
    and st0: "0 \<le> ks_start_time (get_key_state l k)"
    and ex: "allow_request g s tok gk sk now rl = (rl', True)"
  defines "c \<equiv> handle_id g = i \<and> gk = k \<or> handle_id s = i \<and> sk = k"
    and "l' \<equiv> admit_limit i (handle_id g) (handle_id s) tok gk sk now l"
  shows "http_window.window_run n p now ((if c then [now] else []) @ adm) (get_key_state l' k) \<and>
    0 \<le> ks_start_time (get_key_state l' k)"
proof -
  have i0: "i \<noteq> 0" using l(1) by (auto simp: find_limit_def split: if_splits)
  have cong: "check_key l st now = check_key (window_params n p) st now"
      "update_key l st now = update_key (window_params n p) st now" for st
    using par by (simp_all add: check_key_def update_key_def window_params_def)
  show ?thesis
  proof (cases c)
    case True
    have "check_key l (get_key_state l k) now"
      by (rule allow_request_charged_check [OF l _ ex]) (use True in \<open>simp_all add: par c_def\<close>)
    then have "http_window.window_run n p now (now # adm)
        (update_key (window_params n p) (get_key_state l k) now)"
      using run now by (intro http_window.window_run.admit [of n p t]) (simp_all add: cong)
    moreover have "get_key_state l' k = committed_key l k tok now"
      using True by (simp add: l'_def c_def get_key_state_admit [OF i0])
    moreover have "0 \<le> ks_start_time (update_key l (get_key_state l k) now)"
      using st0 now by (auto simp: update_key_def Let_def)
    ultimately show ?thesis
      using True http_window.window_run.frame [of n p now "now # adm"
          "update_key (window_params n p) (get_key_state l k) now" "committed_key l k tok now"]
      by (simp add: committed_key_window cong)
  next
    case False
    with run st0 now show ?thesis
      by (auto simp: l'_def c_def get_key_state_admit [OF i0] intro: http_window.window_run.wait)
  qed
qed

lemma limit_ok_admit:
  assumes inv: "rl_inv rl" and l: "find_limit rl i = Some l" "\<not> removed l"
    and ex: "allow_request g s tok gk sk now rl = (rl', True)"
  shows "limit_ok (admit_limit i (handle_id g) (handle_id s) tok gk sk now l)"
proof (rule allow_request_cases [of rl g s tok gk sk now])
  assume "find_limit rl (handle_id g) = None" "find_limit rl (handle_id s) = None"
  with l rl_inv_limit_ok [OF inv l(1)] show ?thesis by (auto simp: admit_limit_def)
next
  assume al: "limit_allows (find_limit rl (handle_id g)) gk tok now"
    "limit_allows (find_limit rl (handle_id s)) sk tok now"
  show ?thesis
    using rl_inv_limit_ok [OF rl_inv_commit_both [OF inv al] find_limit_commit_both [OF l]] .
qed (use ex in simp)

lemma key_history_allow:
  assumes h: "key_history n p i k t adm rl" and now: "t \<le> now"
    and ex: "allow_request g s tok gk sk now rl = (rl', ok)"
  shows "key_history n p i k now
    ((if ok \<and> (handle_id g = i \<and> gk = k \<or> handle_id s = i \<and> sk = k) then [now] else []) @ adm) rl'"
proof -
  from h obtain l where inv: "rl_inv rl" and l: "find_limit rl i = Some l" "\<not> removed l"
    and par: "requests_per_period l = 1 + int n" "period_ms l = 1 + int p"
    and st0: "0 \<le> ks_start_time (get_key_state l k)" and t0: "0 \<le> t" and i: "i < m_next_id rl"
    and run: "http_window.window_run n p t adm (get_key_state l k)"
    by (auto simp: key_history_def)
  have inv': "rl_inv rl'" using rl_inv_allow_request [OF inv, of g s tok gk sk now] ex by simp
  have i': "i < m_next_id rl'"
    using m_next_id_mono [of rl "RlAllow g s tok gk sk now"] ex i by simp
  show ?thesis
  proof (cases ok)
    case False
    then have "rl' = rl" using ex
      by (cases rule: allow_request_cases [of rl g s tok gk sk now]) auto
    with h False now t0 i show ?thesis
      by (auto simp: key_history_def intro: http_window.window_run.wait)
  next
    case True
    then have ex': "allow_request g s tok gk sk now rl = (rl', True)" using ex by simp
    let ?l = "admit_limit i (handle_id g) (handle_id s) tok gk sk now l"
    note r = run_admit [OF run t0 now l par st0 ex']
    from allow_request_limit [OF inv l ex'] show ?thesis
    proof
      assume "find_limit rl' i = Some ?l"
      with r True inv' i' par l(2) now t0 show ?thesis by (auto simp: key_history_def)
    next
      assume "find_limit rl' i = Some (gc_limit now ?l)"
      moreover note run_gc [OF r [THEN conjunct1] limit_ok_admit [OF inv l ex'] _ _ r [THEN conjunct2]]
      ultimately show ?thesis using True inv' i' par l(2) now t0 by (auto simp: key_history_def)
    qed
  qed
qed


lemma find_limit_release_at:
  "find_limit (release_at i key tok rl) j =
     (if j = i then map_option (\<lambda>l. if sequential l then release_key l key tok else l) (find_limit rl i)
      else find_limit rl j)"
  by (auto simp: release_at_def find_limit_def split: option.splits)

lemma get_key_state_release:
  assumes "limit_ok l" "requests_per_period l \<noteq> 0"
  shows "ks_start_time (get_key_state (release_key l k' tok) k) = ks_start_time (get_key_state l k) \<and>
    ks_count (get_key_state (release_key l k' tok) k) = ks_count (get_key_state l k)"
proof (cases "map_of (keys l) k'")
  case (Some st)
  then have "1 \<le> ks_count st" using assms by (auto simp: limit_ok_def key_ok_def)
  with Some show ?thesis by (auto simp: get_key_state_def keys_release_key)
qed (auto simp: get_key_state_def keys_release_key)

lemma key_history_release_at:
  assumes h: "key_history n p i k t adm rl"
  shows "key_history n p i k t adm (release_at j key tok rl)"
proof -
  from h obtain l where inv: "rl_inv rl" and l: "find_limit rl i = Some l" "\<not> removed l"
    and par: "requests_per_period l = 1 + int n" "period_ms l = 1 + int p"
    and st0: "0 \<le> ks_start_time (get_key_state l k)" "0 \<le> t" "i < m_next_id rl"
    and run: "http_window.window_run n p t adm (get_key_state l k)"
    by (auto simp: key_history_def)
  let ?l = "if j = i \<and> sequential l then release_key l key tok else l"
  have fl: "find_limit (release_at j key tok rl) i = Some ?l"
    using l by (auto simp: find_limit_release_at)
  have eq: "ks_start_time (get_key_state ?l k) = ks_start_time (get_key_state l k)"
      "ks_count (get_key_state ?l k) = ks_count (get_key_state l k)"
    using get_key_state_release [OF rl_inv_limit_ok [OF inv l(1)], of key tok k] par by auto
  have "http_window.window_run n p t adm (get_key_state ?l k)"
    by (rule http_window.window_run.frame [OF run eq])
  moreover have "m_next_id (release_at j key tok rl) = m_next_id rl"
    by (simp add: release_at_def split: option.splits)
  ultimately show ?thesis
    using fl eq l(2) par st0 rl_inv_release_at [OF inv, of j key tok]
    by (auto simp: key_history_def)
qed

lemma key_history_release:
  "key_history n p i k t adm rl \<Longrightarrow> key_history n p i k t adm (release_request g s tok gk sk rl)"
  by (simp add: release_request_def Let_def key_history_release_at)

lemma key_history_handle_op:
  assumes h: "key_history n p i k t adm rl" and x: "\<not> is_admission x"
    and al: "alive (fst (rl_exec x rl)) i"
  shows "key_history n p i k t adm (fst (rl_exec x rl))"
  using h handle_op_limit [OF x _ _ al] rl_exec_inv [of rl x] m_next_id_mono [of rl x]
  by (auto simp: key_history_def)

text \<open>A limit that is alive at the end was alive all the time: IDs are not reused.\<close>

lemma alive_exec_back:
  "rl_inv rl \<Longrightarrow> i < m_next_id rl \<Longrightarrow> alive (fst (rl_exec x rl)) i \<Longrightarrow> alive rl i"
  using handle_op_limit [of x rl i] by (cases x) (auto simp: is_admission_def alive_def)

lemma alive_run_back:
  "rl_inv rl \<Longrightarrow> i < m_next_id rl \<Longrightarrow> alive (rl_run xs rl) i \<Longrightarrow> alive rl i"
proof (induction xs arbitrary: rl)
  case (Cons x xs)
  have "alive (fst (rl_exec x rl)) i"
    using Cons.IH [OF rl_exec_inv [OF Cons.prems(1)]] Cons.prems(2,3) m_next_id_mono [of rl x] by simp
  with Cons.prems show ?case by (blast intro: alive_exec_back)
qed simp

lemma key_history_exec:
  assumes h: "key_history n p i k t adm rl" and al: "alive (fst (rl_exec x rl)) i"
    and clk: "\<forall>now. op_clock x = Some now \<longrightarrow> t \<le> now"
  shows "key_history n p i k (case op_clock x of None \<Rightarrow> t | Some now \<Rightarrow> now)
    (op_admits i k x rl @ adm) (fst (rl_exec x rl))"
proof (cases "is_admission x")
  case False
  then have "op_admits i k x rl = []" "op_clock x = None"
    by (cases x; auto simp: op_admits_def is_admission_def)+
  with key_history_handle_op [OF h False al] show ?thesis by simp
next
  case True
  then consider g s tok gk sk now where "x = RlAllow g s tok gk sk now"
    | g s tok gk sk where "x = RlRelease g s tok gk sk"
    by (auto simp: is_admission_def)
  then show ?thesis
  proof cases
    case 1
    then show ?thesis
      using key_history_allow [OF h, of now g s tok gk sk] clk
      by (cases "allow_request g s tok gk sk now rl") (auto simp: op_admits_def)
  next
    case 2
    with key_history_release [OF h] show ?thesis by (simp add: op_admits_def)
  qed
qed

lemma key_history_run:
  assumes "key_history n p i k t adm rl" "clock_ok t xs" "alive (rl_run xs rl) i"
  shows "\<exists>t'. key_history n p i k t' (rev (admitted_times i k xs rl) @ adm) (rl_run xs rl)"
  using assms
proof (induction xs arbitrary: t adm rl)
  case Nil
  then show ?case by auto
next
  case (Cons x xs)
  let ?rl = "fst (rl_exec x rl)"
  let ?t = "case op_clock x of None \<Rightarrow> t | Some now \<Rightarrow> now"
  have inv: "rl_inv rl" "i < m_next_id rl" using Cons.prems(1) by (auto simp: key_history_def)
  have "alive ?rl i"
    using alive_run_back [OF rl_exec_inv [OF inv(1)]] Cons.prems(3) inv(2) m_next_id_mono [of rl x]
    by simp
  moreover have clk: "\<forall>now. op_clock x = Some now \<longrightarrow> t \<le> now" "clock_ok ?t xs"
    using Cons.prems(2) by (auto split: option.splits)
  ultimately have "key_history n p i k ?t (op_admits i k x rl @ adm) ?rl"
    by (intro key_history_exec [OF Cons.prems(1)])
  from Cons.IH [OF this clk(2)] Cons.prems(3) show ?case
    by (cases "op_admits i k x rl") (auto simp: op_admits_def split: option.splits if_splits)
qed

text \<open>A freshly created limit has no history.\<close>

lemma key_history_create:
  assumes "rl_inv rl" "0 \<le> t"
  shows "key_history n p (m_next_id rl) k t []
    (fst (create_limit_handle (1 + int n) (1 + int p) seq rl))"
proof -
  let ?rl = "fst (create_limit_handle (1 + int n) (1 + int p) seq rl)"
  have "0 < m_next_id rl" using assms(1) by (simp add: rl_inv_def limits_ok_def)
  then have "find_limit ?rl (m_next_id rl) = Some \<lparr>requests_per_period = 1 + int n,
      period_ms = 1 + int p, sequential = seq, removed = False, keys = []\<rparr>"
    and "m_next_id rl < m_next_id ?rl"
    by (simp_all add: create_limit_handle_def Let_def find_limit_def)
  moreover have "http_window.window_run n p t [] KeyState_default"
    using assms(2) by (intro http_window.window_run.begin_run) (simp_all add: KeyState_default_def)
  ultimately show ?thesis
    using assms rl_inv_create [OF assms(1), of "1 + int n" "1 + int p" seq]
    by (simp add: key_history_def get_key_state_def KeyState_default_def)
qed

end
