(* ===== verification/Http_Rate_Limiter_Props.thy ===== *)
theory Http_Rate_Limiter_Props
  imports Http_Rate_Limiter_Window
begin

text \<open>
  What the HTTP rate limiter guarantees to its callers: how many requests it admits, mutual
  exclusion for sequential limits, the agreement of the delay queries with the admission test,
  the invisibility of garbage collection and the lifetime of limits.
\<close>

section \<open>Sequential limits\<close>

definition in_flight :: "HttpRateLimiter \<Rightarrow> int \<Rightarrow> string \<Rightarrow> u64 \<Rightarrow> bool" where
  "in_flight rl i k a =
     (case find_limit rl i of
        None \<Rightarrow> False
      | Some l \<Rightarrow> sequential l \<and> \<not> removed l \<and> a \<in> in_flight_tokens (get_key_state l k))"

lemma committed_key_tokens:
  "in_flight_tokens (committed_key l k tok now) =
     (if sequential l \<and> tok \<noteq> 0 then insert tok (in_flight_tokens (get_key_state l k))
      else in_flight_tokens (get_key_state l k))"
  by (simp add: committed_key_def Let_def)

lemma in_flight_gc:
  assumes "limit_ok l" "a \<in> in_flight_tokens (get_key_state l k)"
  shows "a \<in> in_flight_tokens (get_key_state (gc_limit now l) k)"
  using assms
  by (auto simp: limit_ok_def get_key_state_def keys_gc_limit gc_erases_key_def
      KeyState_default_def split: option.splits if_splits)

lemma in_flight_admit:
  assumes "rl_inv rl" "find_limit rl i = Some l" "\<not> removed l" "sequential l"
    and ex: "allow_request g s tok gk sk now rl = (rl', True)"
    and a: "a \<in> in_flight_tokens (get_key_state l k) \<or>
      (charged i k (RlAllow g s tok gk sk now) \<and> a = tok \<and> tok \<noteq> 0)"
  shows "in_flight rl' i k a"
proof -
  let ?l = "admit_limit i (handle_id g) (handle_id s) tok gk sk now l"
  have i0: "i \<noteq> 0" using assms(2) by (auto simp: find_limit_def split: if_splits)
  have "a \<in> in_flight_tokens (get_key_state ?l k)"
    using a assms(4) by (auto simp: get_key_state_admit [OF i0] committed_key_tokens)
  moreover note in_flight_gc [OF limit_ok_admit [OF assms(1-3) ex] this, of now]
  ultimately show ?thesis
    using allow_request_limit [OF assms(1-3) ex] assms(3,4) by (auto simp: in_flight_def)
qed

lemma in_flight_release:
  assumes "rl_inv rl" "in_flight rl i k a" "tok \<noteq> a"
  shows "in_flight (release_at j key tok rl) i k a"
proof -
  obtain l where l: "find_limit rl i = Some l" "sequential l" "\<not> removed l"
      and a: "a \<in> in_flight_tokens (get_key_state l k)"
    using assms(2) by (auto simp: in_flight_def split: option.splits)
  have "a \<in> in_flight_tokens (get_key_state (release_key l key tok) k)"
    using a assms(3)
    by (auto simp: get_key_state_def keys_release_key KeyState_default_def split: option.splits if_splits)
  with l a show ?thesis by (auto simp: in_flight_def find_limit_release_at)
qed

lemma in_flight_exec:
  assumes "rl_inv rl" "in_flight rl i k a" "alive (fst (rl_exec x rl)) i"
    and nr: "\<forall>g s gk sk. x \<noteq> RlRelease g s a gk sk"
  shows "in_flight (fst (rl_exec x rl)) i k a"
proof (cases "is_admission x")
  case False
  obtain l where l: "map_of (m_limits rl) i = Some l"
    using assms(2) by (auto simp: in_flight_def find_limit_def split: option.splits if_splits)
  with assms(1) have "i < m_next_id rl" by (auto simp: rl_inv_def limits_ok_def)
  from handle_op_limit [OF False assms(1) this assms(3)] assms(2) show ?thesis
    by (simp add: in_flight_def)
next
  case True
  then consider g s tok gk sk now where "x = RlAllow g s tok gk sk now"
    | g s tok gk sk where "x = RlRelease g s tok gk sk"
    by (auto simp: is_admission_def)
  then show ?thesis
  proof cases
    case 1
    obtain l where l: "find_limit rl i = Some l" "\<not> removed l" "sequential l"
        and a: "a \<in> in_flight_tokens (get_key_state l k)"
      using assms(2) by (auto simp: in_flight_def split: option.splits)
    show ?thesis
    proof (cases rule: allow_request_cases [of rl g s tok gk sk now])
      case admitted
      then show ?thesis using in_flight_admit [OF assms(1) l, of g s tok gk sk now _ a k] a 1 by simp
    qed (use 1 assms(2) in simp_all)
  next
    case 2
    with nr have "tok \<noteq> a" by blast
    then show ?thesis
      using 2 assms(1,2)
      by (simp add: release_request_def Let_def in_flight_release rl_inv_release_at)
  qed
qed

lemma in_flight_run:
  assumes "rl_inv rl" "in_flight rl i k a" "alive (rl_run xs rl) i"
    and "\<forall>x \<in> set xs. \<forall>g s gk sk. x \<noteq> RlRelease g s a gk sk"
  shows "in_flight (rl_run xs rl) i k a"
  using assms
proof (induction xs arbitrary: rl)
  case (Cons x xs)
  let ?rl = "fst (rl_exec x rl)"
  have "map_of (m_limits rl) i \<noteq> None"
    using Cons.prems(2) by (auto simp: in_flight_def find_limit_def split: option.splits if_splits)
  then have "i < m_next_id rl" using Cons.prems(1) by (auto simp: rl_inv_def limits_ok_def)
  then have "i < m_next_id ?rl" using m_next_id_mono [of rl x] by simp
  with Cons.prems(3) have "alive ?rl i"
    using alive_run_back [OF rl_exec_inv [OF Cons.prems(1)], of i x xs] by simp
  then have "in_flight ?rl i k a" using in_flight_exec [OF Cons.prems(1,2)] Cons.prems(4) by simp
  with Cons show ?case using rl_exec_inv [OF Cons.prems(1), of x] by simp
qed simp

lemma in_flight_blocks:
  assumes "in_flight rl i k a" "b \<noteq> 0" "b \<noteq> a" "rl_inv rl"
    and "charged i k (RlAllow g s b gk sk now)"
  shows "allow_request g s b gk sk now rl = (rl, False)"
proof -
  obtain l where l: "find_limit rl i = Some l" "\<not> removed l" "sequential l"
      and a: "a \<in> in_flight_tokens (get_key_state l k)"
    using assms(1) by (auto simp: in_flight_def split: option.splits)
  then obtain st where st: "find_key_state l k = Some st" "a \<in> in_flight_tokens st"
    by (auto simp: get_key_state_def find_key_state_def KeyState_default_def split: option.splits)
  have "key_ok l st"
    using rl_inv_limit_ok [OF assms(4) l(1)] st(1) by (auto simp: limit_ok_def find_key_state_def)
  with st(2) assms(3) have "b \<notin> in_flight_tokens st" by (auto simp: key_ok_def)
  with st l assms(2) have "\<not> can_pass l k b now" by (auto simp: can_pass_def)
  with l assms(5) have n: "\<not> (limit_allows (find_limit rl (handle_id g)) gk b now \<and>
      limit_allows (find_limit rl (handle_id s)) sk b now)"
    by (auto simp: limit_allows_def)
  show ?thesis
    by (cases rule: allow_request_cases [of rl g s b gk sk now]) (use n in \<open>auto simp: limit_allows_def\<close>)
qed

section \<open>Delay queries\<close>

lemma time_until_key_pos:
  "0 \<le> time_until_key_allows l st now"
  by (auto simp: time_until_key_allows_def Duration_max_def Let_def)

lemma time_until_limit_zero:
  assumes "\<not> in_flight_tokens (get_key_state l k) = {} \<longrightarrow> tok \<notin> in_flight_tokens (get_key_state l k)"
    and "tok \<noteq> 0"
  shows "time_until_limit_allows l k now = 0 \<longleftrightarrow> can_pass l k tok now"
  using assms
  by (auto simp: time_until_limit_allows_def time_until_key_allows_def can_pass_def check_key_def
      get_key_state_def find_key_state_def Duration_max_def Let_def split: option.splits)

lemma time_until_limit_nonneg: "0 \<le> time_until_limit_allows l k now"
  by (auto simp: time_until_limit_allows_def time_until_key_pos split: option.splits)

lemma delay_duration_eq:
  "delay_duration (time_until_next_allowed g s gk sk now rl) =
     max (case find_limit rl (handle_id g) of None \<Rightarrow> 0 | Some l \<Rightarrow> time_until_limit_allows l gk now)
         (case find_limit rl (handle_id s) of None \<Rightarrow> 0 | Some l \<Rightarrow> time_until_limit_allows l sk now)"
  by (auto simp: time_until_next_allowed_def Let_def add_delay_def max_def time_until_limit_nonneg
      split: option.splits)
    (meson dual_order.antisym time_until_limit_nonneg)+


lemma limit_allows_live:
  "rl_inv rl \<Longrightarrow> alive rl i \<Longrightarrow> \<exists>l. find_limit rl i = Some l \<and> \<not> removed l"
  by (blast elim: alive_limit)

definition starts_before :: "time_point \<Rightarrow> HttpRateLimiter \<Rightarrow> bool" where
  "starts_before now rl \<longleftrightarrow>
     list_all (\<lambda>(_, l). list_all (\<lambda>(_, st). ks_start_time st \<le> now) (keys l)) (m_limits rl)"

lemma starts_beforeD:
  "starts_before now rl \<Longrightarrow> find_limit rl i = Some l \<Longrightarrow> find_key_state l k = Some st \<Longrightarrow>
   ks_start_time st \<le> now"
  by (auto simp: starts_before_def list_all_iff find_limit_def find_key_state_def
      dest!: map_of_SomeD split: if_splits)

lemma wait_suffices:
  assumes d: "time_until_limit_allows l k now = d" "d < Duration_max"
    and now: "now + d * ns_per_ms \<le> now'" "\<forall>st. find_key_state l k = Some st \<longrightarrow> ks_start_time st \<le> now"
    and d0: "0 \<le> d"
  shows "can_pass l k tok now'"
proof (cases "find_key_state l k")
  case (Some st)
  have noseq: "\<not> (sequential l \<and> in_flight_tokens st \<noteq> {})"
    using d Some by (auto simp: time_until_limit_allows_def time_until_key_allows_def split: if_splits)
  have "now \<le> now'" using now(1) d0 by (smt (verit) ns_per_ms_def mult_nonneg_nonneg)
  then have mono: "duration_ms (now - ks_start_time st) \<le> duration_ms (now' - ks_start_time st)"
    by (simp add: duration_ms_mono)
  have "check_key l st now'"
  proof (cases "requests_per_period l = 0 \<or> duration_ms (now - ks_start_time st) \<ge> period_ms l \<or>
      ks_count st < requests_per_period l")
    case True
    with mono show ?thesis by (auto simp: check_key_def)
  next
    case False
    let ?e = "duration_ms (now - ks_start_time st)"
    have "period_ms l = d + ?e"
      using d(1) Some False noseq
      by (auto simp: time_until_limit_allows_def time_until_key_allows_def Let_def)
    moreover have ge: "0 \<le> now - ks_start_time st" using now(2) Some by simp
    then have "?e * ns_per_ms \<le> now - ks_start_time st" by (rule duration_ms_le)
    ultimately have "period_ms l * ns_per_ms \<le> now' - ks_start_time st"
      using now(1) by (simp add: distrib_right)
    moreover have "0 \<le> now' - ks_start_time st" using ge \<open>now \<le> now'\<close> by simp
    ultimately have "period_ms l \<le> duration_ms (now' - ks_start_time st)"
      by (simp add: duration_ms_ge_iff_nonneg)
    then show ?thesis by (simp add: check_key_def)
  qed
  with noseq Some show ?thesis by (auto simp: can_pass_def)
qed (simp add: can_pass_def)

section \<open>Garbage collection\<close>

lemma can_pass_gc:
  assumes "limit_ok l" "now \<le> now'"
  shows "can_pass (gc_limit now l) k tok now' = can_pass l k tok now'"
proof (cases "map_of (keys l) k")
  case None
  with assms(1) show ?thesis by (simp add: can_pass_def find_key_state_def keys_gc_limit limit_ok_def)
next
  case (Some st)
  have "duration_ms (now - ks_start_time st) \<le> duration_ms (now' - ks_start_time st)"
    using assms(2) by (simp add: duration_ms_mono)
  moreover have d: "umap_distinct (keys l)" and "key_ok l st"
    using assms(1) Some by (auto simp: limit_ok_def)
  ultimately show ?thesis
    using Some
    by (auto simp: can_pass_def find_key_state_def keys_gc_limit [OF d] gc_erases_key_def
        check_key_def key_ok_def split: if_splits)
qed

lemma limit_allows_gc:
  assumes "rl_inv rl" "now \<le> now'"
  shows "limit_allows (find_limit (gc_stale_keys now rl) i) k tok now' =
    limit_allows (find_limit rl i) k tok now'"
proof -
  have d: "umap_distinct (m_limits rl)" using assms(1) by (simp add: rl_inv_def limits_ok_def)
  show ?thesis
    using rl_inv_limit_ok [OF assms(1), of i] assms(2)
    by (auto simp: find_limit_def map_of_gc_stale_keys [OF d] limit_allows_def can_pass_gc
        split: option.splits)
qed

lemma allow_request_decision:
  "snd (allow_request g s tok gk sk now rl) \<longleftrightarrow>
     limit_allows (find_limit rl (handle_id g)) gk tok now \<and>
     limit_allows (find_limit rl (handle_id s)) sk tok now"
  by (cases rule: allow_request_cases [of rl g s tok gk sk now]) (auto simp: limit_allows_def)


section \<open>Guarantees\<close>

text \<open>
  C4: whatever else happens in between, a limit of \<open>rpp\<close> requests per \<open>per\<close> milliseconds admits at
  most twice \<open>rpp\<close> requests for one partition key in any interval of that length, in every run of
  the limiter from the creation of the limit on while a handle keeps the limit alive.
\<close>

theorem rate_limit_window:
  assumes "rl_reachable rl" "0 < rpp" "0 < per"
    and "create_limit_handle rpp per seq rl = (rl1, Some i)"
    and "clock_ok 0 xs" "alive (rl_run xs rl1) i"
  shows "int (length (filter (\<lambda>t. a \<le> t \<and> t < a + per * ns_per_ms) (admitted_times i k xs rl1)))
    \<le> 2 * rpp"
proof -
  define n p where "n = nat (rpp - 1)" and "p = nat (per - 1)"
  then have np: "rpp = 1 + int n" "per = 1 + int p" using assms(2,3) by auto
  have i: "i = m_next_id rl" using assms(4) by (simp add: create_limit_handle_def Let_def)
  have "key_history n p i k 0 [] rl1"
    using key_history_create [OF rl_reachable_inv [OF assms(1)], of 0 n p k seq] assms(4)
    by (simp add: np i)
  from key_history_run [OF this assms(5,6)]
  obtain t st where "http_window.window_run n p t (rev (admitted_times i k xs rl1)) st"
    by (auto simp: key_history_def)
  from http_window.admitted_in_interval [OF this, of a] show ?thesis
    by (simp add: np rev_filter [symmetric])
qed

definition wit_rl :: HttpRateLimiter where
  "wit_rl = fst (create_limit_handle 1 1000 True HttpRateLimiter_init)"

definition wit_ops :: "rl_op list" where
  "wit_ops = [RlAllow (Some 1) None 5 ''k'' [] 2000000000, RlAllow (Some 1) None 6 ''k'' [] 2000000001,
     RlRelease (Some 1) None 5 ''k'' [], RlAllow (Some 1) None 7 ''k'' [] 3000000000]"

lemma wit_rl_reachable: "rl_reachable wit_rl"
  unfolding wit_rl_def by (rule reach_step [OF reach_init step_create])

theorem rate_limit_window_witness:
  "admitted_times 1 ''k'' wit_ops wit_rl = [2000000000, 3000000000] \<and>
   int (length (filter (\<lambda>t. 0 \<le> t \<and> t < 0 + 1000 * ns_per_ms) (admitted_times 1 ''k'' wit_ops wit_rl)))
    \<le> 2 * 1"
proof
  have c: "create_limit_handle 1 1000 True HttpRateLimiter_init = (wit_rl, Some 1)" by code_simp
  have k: "clock_ok 0 wit_ops" "alive (rl_run wit_ops wit_rl) 1" by code_simp+
  show "int (length (filter (\<lambda>t. 0 \<le> t \<and> t < 0 + 1000 * ns_per_ms) (admitted_times 1 ''k'' wit_ops wit_rl)))
    \<le> 2 * 1"
    by (rule rate_limit_window [OF reach_init _ _ c k]) simp_all
  show "admitted_times 1 ''k'' wit_ops wit_rl = [2000000000, 3000000000]" by code_simp
qed

text \<open>
  In every reachable state the request counter of a key lies between 0 and its limit, so the
  \<open>long\<close> counter never overflows; a limit of 0, which means unlimited, is never counted at all.
\<close>

theorem rate_limit_counter_bounds:
  assumes "rl_reachable rl" "find_limit rl i = Some l" "find_key_state l k = Some st"
  shows "0 \<le> ks_count st \<and> ks_count st \<le> max 1 (requests_per_period l) \<and>
    (requests_per_period l = 0 \<longrightarrow> ks_count st = 0)"
proof -
  have "key_ok l st"
    using rl_inv_limit_ok [OF rl_reachable_inv [OF assms(1)] assms(2)] assms(3)
    by (simp add: limit_ok_def find_key_state_def)
  then show ?thesis by (auto simp: key_ok_def split: if_splits)
qed

definition wit_rl2 :: HttpRateLimiter where
  "wit_rl2 = fst (allow_request (Some 1) None 5 ''k'' [] 2000000000 wit_rl)"

lemma wit_rl2_reachable: "rl_reachable wit_rl2"
  unfolding wit_rl2_def by (rule reach_step [OF wit_rl_reachable step_allow])

theorem rate_limit_counter_bounds_witness:
  "\<exists>l st. find_limit wit_rl2 1 = Some l \<and> find_key_state l ''k'' = Some st \<and>
     ks_count st \<le> max 1 (requests_per_period l)"
proof -
  have "\<exists>l. find_limit wit_rl2 1 = Some l \<and> find_key_state l ''k'' \<noteq> None"
    by (simp add: wit_rl2_def wit_rl_def HttpRateLimiter_init_def create_limit_handle_def Let_def
        allow_request_def handle_id_def find_limit_def limit_allows_def can_pass_def find_key_state_def
        maybe_gc_def commit_both_def same_limit_def commit_at_def commit_limit_def)
  then obtain l st where "find_limit wit_rl2 1 = Some l" "find_key_state l ''k'' = Some st" by auto
  with rate_limit_counter_bounds [OF wit_rl2_reachable this] show ?thesis by blast
qed

text \<open>
  C11: mutual exclusion of a sequential limit. Once request \<open>a\<close> has been admitted for a key of a
  sequential limit, every other request for that key is refused, without any change of state,
  as long as \<open>a\<close> is not released and the limit is alive, whatever else the limiter is asked to do
  in between, retries of \<open>a\<close> included.
\<close>

theorem sequential_exclusion:
  assumes "rl_reachable rl" "find_limit rl i = Some l" "\<not> removed l" "sequential l" "a \<noteq> 0"
    and "allow_request g s a gk sk now rl = (rl1, True)" "charged i k (RlAllow g s a gk sk now)"
    and "alive (rl_run xs rl1) i" "\<forall>x \<in> set xs. \<forall>g s gk sk. x \<noteq> RlRelease g s a gk sk"
    and "b \<noteq> 0" "b \<noteq> a" "charged i k (RlAllow g' s' b gk' sk' now')"
  shows "allow_request g' s' b gk' sk' now' (rl_run xs rl1) = (rl_run xs rl1, False)"
proof -
  have inv: "rl_inv rl" by (rule rl_reachable_inv [OF assms(1)])
  have inv1: "rl_inv rl1" using rl_inv_allow_request [OF inv, of g s a gk sk now] assms(6) by simp
  have "in_flight rl1 i k a"
    using in_flight_admit [OF inv assms(2,3,4,6), of a k] assms(5,7) by simp
  from in_flight_run [OF inv1 this assms(8,9)] have "in_flight (rl_run xs rl1) i k a" .
  then show ?thesis by (rule in_flight_blocks [OF _ assms(10,11) rl_run_inv [OF inv1] assms(12)])
qed

theorem sequential_exclusion_witness:
  "allow_request (Some 1) None 6 ''k'' [] 9000000000 (rl_run [RlCopy (Some 1), RlAllow (Some 1) None 5 ''k'' [] 4000000000] wit_rl2)
   = (rl_run [RlCopy (Some 1), RlAllow (Some 1) None 5 ''k'' [] 4000000000] wit_rl2, False)"
proof -
  let ?xs = "[RlCopy (Some 1), RlAllow (Some 1) None 5 ''k'' [] 4000000000]"
  obtain l where l: "find_limit wit_rl 1 = Some l" "\<not> removed l" "sequential l"
    by (simp add: wit_rl_def HttpRateLimiter_init_def create_limit_handle_def Let_def find_limit_def)
  have e: "allow_request (Some 1) None 5 ''k'' [] 2000000000 wit_rl = (wit_rl2, True)" by code_simp
  have al: "alive (rl_run ?xs wit_rl2) 1" by code_simp
  show ?thesis
    by (rule sequential_exclusion [OF wit_rl_reachable l _ e _ al]) (simp_all add: handle_id_def)
qed


text \<open>
  The admission contract. A request is admitted exactly when every present, not removed limit
  lets it pass, and a refused request leaves the whole limiter as it was, counters and in-flight
  sets included.
\<close>

theorem allow_request_contract:
  "case allow_request g s tok gk sk now rl of (rl', ok) \<Rightarrow>
     (ok \<longleftrightarrow> limit_allows (find_limit rl (handle_id g)) gk tok now \<and>
             limit_allows (find_limit rl (handle_id s)) sk tok now) \<and>
     (ok \<or> rl' = rl)"
  by (cases rule: allow_request_cases [of rl g s tok gk sk now]) (auto simp: limit_allows_def)

text \<open>
  Releasing hands a sequential limit over. After the only request in flight for a key of an
  uncounted sequential limit is released, the next request for that key is admitted, and then it
  is the one in flight.
\<close>

theorem sequential_handover:
  assumes "rl_reachable rl" "find_limit rl i = Some l" "\<not> removed l" "sequential l"
    and "requests_per_period l = 0" "in_flight rl i k a" "a \<noteq> 0" "b \<noteq> 0"
    and "allow_request (Some i) None b k [] now (release_request (Some i) None a k [] rl) = (rl', ok)"
  shows "ok \<and> in_flight rl' i k b"
proof -
  let ?rl = "release_request (Some i) None a k [] rl"
  have inv: "rl_inv rl" by (rule rl_reachable_inv [OF assms(1)])
  then have inv': "rl_inv ?rl" by (rule rl_inv_release_request)
  have f0: "find_limit rl 0 = None" for rl by (simp add: find_limit_def)
  have i0: "i \<noteq> 0" using assms(2) by (auto simp: f0)
  have fl: "find_limit ?rl i = Some (release_key l k a)"
    using assms(2,4,7) i0
    by (simp add: release_request_def Let_def same_limit_def handle_id_def find_limit_release_at)
  have st: "in_flight_tokens (get_key_state l k) = {a}"
  proof -
    have "a \<in> in_flight_tokens (get_key_state l k)" using assms(2,6) by (simp add: in_flight_def)
    moreover from this have "key_ok l (get_key_state l k)"
      using get_key_state_ok [OF rl_inv_limit_ok [OF inv assms(2)], of k]
      by (auto simp: KeyState_default_def)
    ultimately show ?thesis by (auto simp: key_ok_def)
  qed
  have "in_flight_tokens (get_key_state (release_key l k a) k) = {}"
    using st by (auto simp: get_key_state_def keys_release_key KeyState_default_def split: option.splits)
  then have "can_pass (release_key l k a) k b now"
    using assms(5) by (auto simp: can_pass_def check_key_def find_key_state_def get_key_state_def
        split: option.splits)
  then have ok: "ok"
    using allow_request_decision [of "Some i" None b k "[]" now ?rl] assms(3,9) fl f0
    by (simp add: handle_id_def limit_allows_def)
  have "in_flight rl' i k b"
    by (rule in_flight_admit [OF inv' fl, of "Some i" None b k "[]" now])
      (use assms(3,4,8,9) ok in \<open>simp_all add: handle_id_def\<close>)
  with ok show ?thesis by simp
qed

definition wit_seq :: HttpRateLimiter where
  "wit_seq = fst (allow_request (Some 1) None 5 ''k'' [] 2000000000
     (fst (create_limit_handle 0 0 True HttpRateLimiter_init)))"

theorem sequential_handover_witness:
  "in_flight (fst (allow_request (Some 1) None 6 ''k'' [] 7
      (release_request (Some 1) None 5 ''k'' [] wit_seq))) 1 ''k'' 6"
proof -
  have r: "rl_reachable wit_seq"
    unfolding wit_seq_def
    by (rule reach_step [OF reach_step [OF reach_init step_create] step_allow])
  obtain l where l: "find_limit wit_seq 1 = Some l" "\<not> removed l" "sequential l" "requests_per_period l = 0"
    by (simp add: wit_seq_def HttpRateLimiter_init_def create_limit_handle_def Let_def find_limit_def
        allow_request_def handle_id_def limit_allows_def can_pass_def find_key_state_def maybe_gc_def
        commit_both_def same_limit_def commit_at_def commit_limit_def)
  have f: "in_flight wit_seq 1 ''k'' 5" by code_simp
  obtain rl' ok where e: "allow_request (Some 1) None 6 ''k'' [] 7
      (release_request (Some 1) None 5 ''k'' [] wit_seq) = (rl', ok)" by fastforce
  have "ok \<and> in_flight rl' 1 ''k'' 6" by (rule sequential_handover [OF r l f _ _ e]) simp_all
  with e show ?thesis by simp
qed

text \<open>
  The delay query agrees with admission. For a request that is not itself in flight and whose
  limits are alive, the reported delay is 0 exactly when the request would be admitted now.
\<close>

theorem delay_zero_iff_admitted:
  assumes "rl_reachable rl" "tok \<noteq> 0"
    and "\<forall>i \<in> {handle_id g, handle_id s}. i = 0 \<or> alive rl i"
    and "\<not> in_flight rl (handle_id g) gk tok" "\<not> in_flight rl (handle_id s) sk tok"
  shows "delay_duration (time_until_next_allowed g s gk sk now rl) = 0 \<longleftrightarrow>
    snd (allow_request g s tok gk sk now rl)"
proof -
  have inv: "rl_inv rl" by (rule rl_reachable_inv [OF assms(1)])
  have key: "(case find_limit rl i of None \<Rightarrow> 0 | Some l \<Rightarrow> time_until_limit_allows l k now) = 0 \<longleftrightarrow>
      limit_allows (find_limit rl i) k tok now"
    if i: "i = 0 \<or> alive rl i" and nf: "\<not> in_flight rl i k tok" for i k
  proof (cases "find_limit rl i")
    case (Some l)
    with i have "alive rl i" by (auto simp: find_limit_def split: if_splits)
    then have nr: "\<not> removed l" using Some limit_allows_live [OF inv] by fastforce
    have "tok \<notin> in_flight_tokens (get_key_state l k)"
    proof (cases "sequential l")
      case False
      then show ?thesis
        using get_key_state_ok [OF rl_inv_limit_ok [OF inv Some], of k]
        by (auto simp: key_ok_def KeyState_default_def)
    qed (use nf Some nr in \<open>simp add: in_flight_def\<close>)
    with Some nr time_until_limit_zero [of l k tok now] assms(2) show ?thesis
      by (simp add: limit_allows_def)
  qed (simp add: limit_allows_def)
  have nn: "0 \<le> (case find_limit rl i of None \<Rightarrow> 0 | Some l \<Rightarrow> time_until_limit_allows l k now)" for i k
    by (simp add: time_until_limit_nonneg split: option.splits)
  show ?thesis
    unfolding delay_duration_eq allow_request_decision
    using key [of "handle_id g" gk] key [of "handle_id s" sk] assms(3-5) nn
    by (metis insertCI max.absorb1 max.absorb2 nle_le)
qed

theorem delay_zero_iff_admitted_witness:
  "delay_duration (time_until_next_allowed (Some 1) None ''j'' [] 2000000001 wit_rl2) = 0 \<longleftrightarrow>
    snd (allow_request (Some 1) None 6 ''j'' [] 2000000001 wit_rl2)"
proof -
  have 1: "alive wit_rl2 1" "\<not> in_flight wit_rl2 1 ''j'' 6" "\<not> in_flight wit_rl2 0 [] 6" by code_simp+
  show ?thesis
    by (rule delay_zero_iff_admitted [OF wit_rl2_reachable]) (use 1 in \<open>simp_all add: handle_id_def\<close>)
qed


text \<open>
  C26: a finite reported delay is long enough. If no limit is blocked by a sequential request and
  nothing else uses the limiter, a request that waits at least the reported number of
  milliseconds is admitted, although the elapsed time was rounded down when the delay was computed.
\<close>

theorem reported_delay_suffices:
  assumes "time_until_next_allowed g s gk sk now rl = d" "delay_duration d < Duration_max"
    and "starts_before now rl" "now + delay_duration d * ns_per_ms \<le> now'"
  shows "snd (allow_request g s tok gk sk now' rl)"
proof -
  have key: "limit_allows (find_limit rl i) k tok now'"
    if "(case find_limit rl i of None \<Rightarrow> 0 | Some l \<Rightarrow> time_until_limit_allows l k now) \<le> delay_duration d"
    for i k
  proof (cases "find_limit rl i")
    case (Some l)
    let ?d = "time_until_limit_allows l k now"
    have "?d \<le> delay_duration d" using that Some by simp
    then have "?d < Duration_max" and "?d * ns_per_ms \<le> delay_duration d * ns_per_ms"
      using assms(2) by (auto simp: ns_per_ms_def)
    then have "can_pass l k tok now'"
      using wait_suffices [OF refl, of l k now now' tok] assms(4) time_until_limit_nonneg [of l k now]
        starts_beforeD [OF assms(3) Some] by auto
    with Some show ?thesis by (simp add: limit_allows_def)
  qed (simp add: limit_allows_def)
  show ?thesis
    unfolding allow_request_decision
    using key delay_duration_eq [of g s gk sk now rl] assms(1) by (metis max.cobounded1 max.cobounded2)
qed

definition wit_count :: HttpRateLimiter where
  "wit_count = fst (allow_request (Some 1) None 5 [] [] 2000000000
     (fst (create_limit_handle 1 1000 False HttpRateLimiter_init)))"

theorem reported_delay_suffices_witness:
  "delay_duration (time_until_next_allowed (Some 1) None [] [] 2000400123 wit_count) = 1000 \<and>
   snd (allow_request (Some 1) None 9 [] [] 3000400123 wit_count)"
proof
  show d: "delay_duration (time_until_next_allowed (Some 1) None [] [] 2000400123 wit_count) = 1000"
    by code_simp
  have sb: "starts_before 2000400123 wit_count" by code_simp
  show "snd (allow_request (Some 1) None 9 [] [] 3000400123 wit_count)"
    by (rule reported_delay_suffices [OF refl _ sb]) (simp_all add: d Duration_max_def ns_per_ms_def)
qed



text \<open>
  The lifetime of a limit. Its data is present and enforced exactly while some handle to it
  exists; releasing the owner's handle takes nothing from those who still hold one, and
  destroying the last handle either erases the limit or, if a key still has state, marks it as
  removed so that it no longer restricts anybody.
\<close>

theorem limit_lifetime:
  assumes "rl_reachable rl"
  shows "(alive rl i \<longleftrightarrow> (\<exists>l. find_limit rl i = Some l \<and> \<not> removed l)) \<and>
    (0 < external_refs rl i \<longrightarrow> find_limit (fst (remove_limit i rl)) i = find_limit rl i) \<and>
    (map_of (handle_refs rl) i = Some 1 \<longrightarrow>
       limit_allows (find_limit (drop_handle (Some i) rl) i) k tok now)"
proof -
  have inv: "rl_inv rl" by (rule rl_reachable_inv [OF assms])
  have "alive rl i \<longleftrightarrow> (\<exists>l. find_limit rl i = Some l \<and> \<not> removed l)"
  proof
    assume "\<exists>l. find_limit rl i = Some l \<and> \<not> removed l"
    with inv show "alive rl i"
      by (auto simp: rl_inv_def handles_ok_def alive_def find_limit_def split: if_splits)
  qed (rule limit_allows_live [OF inv])
  moreover have "find_limit (fst (remove_limit i rl)) i = find_limit rl i" if "0 < external_refs rl i"
  proof (cases "map_of (m_owned_handles rl) i")
    case (Some h)
    then have "h = Some i" using inv by (auto simp: rl_inv_def handles_ok_def)
    with Some that show ?thesis
      by (auto simp: remove_limit_def external_refs_def drop_handle_def find_limit_def split: option.splits)
  qed (simp add: remove_limit_def)
  moreover have "limit_allows (find_limit (drop_handle (Some i) rl) i) k tok now"
    if "map_of (handle_refs rl) i = Some 1"
    using that by (auto simp: drop_handle_def handle_reset_def remove_limit_internal_def Let_def
        find_limit_def limit_allows_def split: option.splits)
  ultimately show ?thesis by blast
qed

theorem limit_lifetime_witness:
  "alive wit_rl2 1 \<and> find_limit (fst (remove_limit 1 wit_rl2)) 1 = find_limit wit_rl2 1"
proof -
  have "alive wit_rl2 1" "0 < external_refs wit_rl2 1" by code_simp+
  with limit_lifetime [OF wit_rl2_reachable, of 1] show ?thesis by blast
qed

section \<open>The shortest delay\<close>

definition positive_key_delays :: "time_point \<Rightarrow> LimitData \<Rightarrow> (string, KeyState) umap \<Rightarrow> int list" where
  "positive_key_delays now l ks = filter (\<lambda>d. 0 < d) (map (\<lambda>(_, st). time_until_key_allows l st now) ks)"

definition positive_delays :: "time_point \<Rightarrow> HttpRateLimiter \<Rightarrow> int list" where
  "positive_delays now rl = concat (map (\<lambda>(_, l). positive_key_delays now l (keys l)) (m_limits rl))"

lemma min_key_delay_eq:
  "min_key_delay l now ks (m, h) =
     (fold min (positive_key_delays now l ks) m, h \<or> positive_key_delays now l ks \<noteq> [])"
proof (induction ks arbitrary: m h)
  case (Cons x ks)
  then show ?case by (cases x) (auto simp: positive_key_delays_def Let_def min_def)
qed (simp add: positive_key_delays_def)

lemma min_limit_delay_eq:
  "min_limit_delay now ls (m, h) =
     (let ds = concat (map (\<lambda>(_, l). positive_key_delays now l (keys l)) ls)
      in (fold min ds m, h \<or> ds \<noteq> []))"
  by (induction ls arbitrary: m h) (auto simp: min_key_delay_eq Let_def)

text \<open>
  The shortest delay. \<^verbatim>\<open>time_until_any_limit_allows\<close> returns the minimum of the positive delays
  of all keys of all limits, zero when no key is delayed, and reports
  \<^verbatim>\<open>sequential_blocked\<close> exactly when some key is delayed and none has a finite delay.
\<close>

theorem shortest_delay:
  "time_until_any_limit_allows now rl =
     (let ds = positive_delays now rl
      in \<lparr>delay_duration = (if ds = [] then 0 else Min (insert Duration_max (set ds))),
          sequential_blocked = (ds \<noteq> [] \<and> {d \<in> set ds. d < Duration_max} = {})\<rparr>)"
proof -
  let ?ds = "positive_delays now rl"
  have m: "fold min ?ds Duration_max = Min (insert Duration_max (set ?ds))"
    using Min.set_eq_fold [of Duration_max ?ds] by simp
  have "(Min (insert Duration_max (set ?ds)) = Duration_max) = ({d \<in> set ?ds. d < Duration_max} = {})"
    by (subst Min_eq_iff) (auto simp: not_less)
  then show ?thesis
    by (simp add: time_until_any_limit_allows_def min_limit_delay_eq positive_delays_def [symmetric] Let_def m
        del: Min_insert)
qed

end
