(* ===== verification/Kurlyk_Strings.thy ===== *)
theory Kurlyk_Strings
  imports Kurlyk_Prelude
begin

text \<open>
  The parts of \<open>std::string\<close> and of \<open>cctype\<close> that the sources use. A \<open>std::string\<close> is a list
  of bytes, the type \<open>string\<close>; \<open>std::string::npos\<close> is \<open>None\<close>. Character classes are those of
  the "C" locale. \<open>substr\<close> throws in C++ when its position is beyond the end; every position the
  sources pass to it comes from a search in the same string, and the lemmas
  \<open>find_first_le\<close>, \<open>find_str_le\<close> and \<open>rfind_char_less\<close> give the bounds.
\<close>

section \<open>Character classes\<close>

abbreviation ord :: "char \<Rightarrow> nat" where "ord c \<equiv> of_char c"

definition isdigit :: "char \<Rightarrow> bool" where "isdigit c = (48 \<le> ord c \<and> ord c \<le> 57)"
definition isupper :: "char \<Rightarrow> bool" where "isupper c = (65 \<le> ord c \<and> ord c \<le> 90)"
definition islower :: "char \<Rightarrow> bool" where "islower c = (97 \<le> ord c \<and> ord c \<le> 122)"
definition isalpha :: "char \<Rightarrow> bool" where "isalpha c = (isupper c \<or> islower c)"
definition isalnum :: "char \<Rightarrow> bool" where "isalnum c = (isalpha c \<or> isdigit c)"
definition isspace :: "char \<Rightarrow> bool" where "isspace c = (ord c = 32 \<or> 9 \<le> ord c \<and> ord c \<le> 13)"

definition toupper :: "char \<Rightarrow> char" where
  "toupper c = (if islower c then char_of (ord c - 32) else c)"

definition tolower :: "char \<Rightarrow> char" where
  "tolower c = (if isupper c then char_of (ord c + 32) else c)"

lemmas char_class_defs = isdigit_def isupper_def islower_def isalpha_def isalnum_def isspace_def

lemma ord_less [simp]: "ord c < 256"
  using of_char_mod_256 [of c, where ?'a = nat] by (metis mod_less_divisor zero_less_numeral)

lemma ord_char_of: "n < 256 \<Longrightarrow> ord (char_of n) = n"
  by simp

lemma ord_tolower: "ord (tolower c) = (if isupper c then ord c + 32 else ord c)"
  by (simp add: tolower_def isupper_def)

lemma ord_toupper: "ord (toupper c) = (if islower c then ord c - 32 else ord c)"
  using mod_less [of "ord c - 32" 256] by (auto simp: toupper_def islower_def)

lemma tolower_idem [simp]: "tolower (tolower c) = tolower c"
  using ord_tolower [of c] by (auto simp: tolower_def [of "tolower c"] isupper_def)

lemma toupper_idem [simp]: "toupper (toupper c) = toupper c"
  using ord_toupper [of c] by (auto simp: toupper_def [of "toupper c"] islower_def split: if_splits)

lemma toupper_not_islower: "\<not> islower c \<Longrightarrow> toupper c = c"
  by (simp add: toupper_def)

section \<open>Searching\<close>

fun find_index :: "('a \<Rightarrow> bool) \<Rightarrow> 'a list \<Rightarrow> nat option" where
  "find_index P [] = None"
| "find_index P (x # xs) = (if P x then Some 0 else map_option Suc (find_index P xs))"

definition find_first :: "(char \<Rightarrow> bool) \<Rightarrow> string \<Rightarrow> nat \<Rightarrow> nat option" where
  "find_first P s pos = map_option (\<lambda>i. pos + i) (find_index P (drop pos s))"

definition find_char :: "string \<Rightarrow> char \<Rightarrow> nat \<Rightarrow> nat option" where
  "find_char s c pos = find_first (\<lambda>x. x = c) s pos"

definition find_first_of :: "string \<Rightarrow> string \<Rightarrow> nat \<Rightarrow> nat option" where
  "find_first_of s cs pos = find_first (\<lambda>x. x \<in> set cs) s pos"

definition find_first_not_of :: "string \<Rightarrow> string \<Rightarrow> nat \<Rightarrow> nat option" where
  "find_first_not_of s cs pos = find_first (\<lambda>x. x \<notin> set cs) s pos"

definition starts_with :: "'a list \<Rightarrow> 'a list \<Rightarrow> bool" where
  "starts_with s p = (take (length p) s = p)"

fun find_sub :: "string \<Rightarrow> string \<Rightarrow> nat option" where
  "find_sub [] p = (if p = [] then Some 0 else None)"
| "find_sub (c # s) p = (if starts_with (c # s) p then Some 0 else map_option Suc (find_sub s p))"

definition find_str :: "string \<Rightarrow> string \<Rightarrow> nat \<Rightarrow> nat option" where
  "find_str s p pos = (if pos \<le> length s then map_option (\<lambda>i. pos + i) (find_sub (drop pos s) p) else None)"

definition rfind_char :: "string \<Rightarrow> char \<Rightarrow> nat option" where
  "rfind_char s c = map_option (\<lambda>i. length s - 1 - i) (find_index (\<lambda>x. x = c) (rev s))"

definition substr :: "string \<Rightarrow> nat \<Rightarrow> nat \<Rightarrow> string" where
  "substr s pos n = take n (drop pos s)"

definition erase_range :: "string \<Rightarrow> nat \<Rightarrow> nat \<Rightarrow> string" where
  "erase_range s pos n = take pos s @ drop (pos + n) s"

lemma find_index_None_iff: "find_index P xs = None \<longleftrightarrow> (\<forall>x \<in> set xs. \<not> P x)"
  by (induction xs) auto

lemma find_index_Some_iff:
  "find_index P xs = Some i \<longleftrightarrow> i < length xs \<and> P (xs ! i) \<and> (\<forall>j < i. \<not> P (xs ! j))"
proof (induction xs arbitrary: i)
  case (Cons x xs)
  then show ?case by (cases i) (auto simp: less_Suc_eq_0_disj)
qed simp

lemma find_index_append:
  "find_index P (xs @ ys) =
     (case find_index P xs of Some i \<Rightarrow> Some i | None \<Rightarrow> map_option (\<lambda>i. length xs + i) (find_index P ys))"
proof (induction xs)
  case Nil
  show ?case by (cases "find_index P ys") simp_all
next
  case (Cons x xs)
  then show ?case by (cases "find_index P ys") (auto split: option.splits)
qed

lemma find_index_hit: "\<forall>x \<in> set xs. \<not> P x \<Longrightarrow> P y \<Longrightarrow> find_index P (xs @ y # ys) = Some (length xs)"
  using find_index_None_iff [of P xs] by (simp add: find_index_append)

lemma find_first_Some_iff:
  "find_first P s pos = Some i \<longleftrightarrow> pos \<le> i \<and> i < length s \<and> P (s ! i) \<and> (\<forall>j. pos \<le> j \<longrightarrow> j < i \<longrightarrow> \<not> P (s ! j))"
proof -
  have eq: "find_first P s pos = Some i \<longleftrightarrow> pos \<le> i \<and> find_index P (drop pos s) = Some (i - pos)"
    by (auto simp: find_first_def)
  have all: "(\<forall>j < i - pos. \<not> P (s ! (pos + j))) \<longleftrightarrow> (\<forall>j. pos \<le> j \<longrightarrow> j < i \<longrightarrow> \<not> P (s ! j))"
  proof safe
    fix j assume "\<forall>j < i - pos. \<not> P (s ! (pos + j))" "pos \<le> j" "j < i" "P (s ! j)"
    then show False by (auto dest!: spec [of _ "j - pos"])
  qed auto
  show ?thesis
  proof (cases "pos \<le> i \<and> i < length s")
    case True
    then show ?thesis by (simp add: eq find_index_Some_iff all [symmetric] diff_less_mono)
  next
    case False
    then show ?thesis by (auto simp: eq find_index_Some_iff)
  qed
qed

lemma find_first_le: "find_first P s pos = Some i \<Longrightarrow> pos \<le> i \<and> i < length s"
  by (simp add: find_first_Some_iff)

lemma find_first_None_iff: "find_first P s pos = None \<longleftrightarrow> (\<forall>x \<in> set (drop pos s). \<not> P x)"
  by (simp add: find_first_def find_index_None_iff)

lemma find_sub_le: "find_sub s p = Some i \<Longrightarrow> i + length p \<le> length s \<and> starts_with (drop i s) p"
proof (induction s arbitrary: i)
  case (Cons c s)
  then show ?case
  proof (cases "starts_with (c # s) p")
    case True
    then have "length p \<le> length (c # s)"
      unfolding starts_with_def by (metis length_take min.cobounded1)
    with Cons.prems True show ?thesis by simp
  qed auto
qed (auto simp: starts_with_def split: if_splits)

lemma find_str_le: "find_str s p pos = Some i \<Longrightarrow> pos \<le> i \<and> i + length p \<le> length s"
  by (auto simp: find_str_def split: if_splits dest!: find_sub_le)

lemma rfind_char_less: "rfind_char s c = Some i \<Longrightarrow> i < length s \<and> s ! i = c"
  unfolding rfind_char_def by (auto simp: find_index_Some_iff rev_nth)

lemma rfind_char_append:
  assumes "c \<notin> set t"
  shows "rfind_char (s @ c # t) c = Some (length s)"
proof -
  have "find_index (\<lambda>x. x = c) (rev t @ c # rev s) = Some (length (rev t))"
    by (rule find_index_hit) (use assms in auto)
  then show ?thesis by (simp add: rfind_char_def)
qed

lemma find_char_append:
  assumes "c \<notin> set s"
  shows "find_char (s @ c # t) c 0 = Some (length s)"
  using find_index_hit [of s "\<lambda>x. x = c" c t] assms by (auto simp: find_char_def find_first_def)

section \<open>Numbers\<close>

text \<open>\<open>std::to_string\<close> of an integer: its decimal digits, most significant first.\<close>

definition digit_char :: "nat \<Rightarrow> char" where
  "digit_char d = char_of (48 + d)"

fun nat_digits :: "nat \<Rightarrow> string" where
  "nat_digits n = (if n < 10 then [digit_char n] else nat_digits (n div 10) @ [digit_char (n mod 10)])"

declare nat_digits.simps [simp del]

definition to_string :: "int \<Rightarrow> string" where
  "to_string i = (if i < 0 then CHR ''-'' # nat_digits (nat (- i)) else nat_digits (nat i))"

text \<open>\<open>std::stoi\<close>: leading white space, an optional sign, digits; what follows the digits is
  ignored. \<open>None\<close> stands for the two exceptions, no digits and a value outside \<open>int\<close>.\<close>

definition digits_value :: "string \<Rightarrow> nat" where
  "digits_value ds = foldl (\<lambda>a c. 10 * a + (ord c - 48)) 0 ds"

definition stoi :: "string \<Rightarrow> int option" where
  "stoi s =
     (let s1 = dropWhile isspace s;
          neg = (case s1 of c # _ \<Rightarrow> c = CHR ''-'' | [] \<Rightarrow> False);
          s2 = (case s1 of c # r \<Rightarrow> if c = CHR ''-'' \<or> c = CHR ''+'' then r else s1 | [] \<Rightarrow> []);
          ds = takeWhile isdigit s2;
          v = (if neg then - int (digits_value ds) else int (digits_value ds))
      in if ds = [] then None
         else if v < - 2147483648 \<or> 2147483647 < v then None
         else Some v)"

lemma digit_char: "d < 10 \<Longrightarrow> ord (digit_char d) = 48 + d"
  by (simp add: digit_char_def)

lemma isdigit_digit_char: "d < 10 \<Longrightarrow> isdigit (digit_char d)"
  by (simp add: isdigit_def digit_char)

lemma nat_digits_isdigit: "\<forall>c \<in> set (nat_digits n). isdigit c"
proof (induction n rule: nat_digits.induct)
  case (1 n)
  then show ?case by (subst nat_digits.simps) (auto simp: isdigit_digit_char)
qed

lemma nat_digits_nonempty [simp]: "nat_digits n \<noteq> []"
  by (subst nat_digits.simps) simp

lemma digits_value_nat_digits [simp]: "digits_value (nat_digits n) = n"
proof (induction n rule: nat_digits.induct)
  case (1 n)
  then show ?case
    by (subst nat_digits.simps) (auto simp: digits_value_def digit_char)
qed

lemma takeWhile_nat_digits [simp]: "takeWhile isdigit (nat_digits n) = nat_digits n"
  by (simp add: takeWhile_eq_all_conv nat_digits_isdigit)

lemma nat_digits_Cons:
  obtains c r where "nat_digits n = c # r" "isdigit c"
  using nat_digits_isdigit [of n] by (cases "nat_digits n") auto

lemma stoi_to_string:
  assumes "0 \<le> i" "i \<le> 2147483647"
  shows "stoi (to_string i) = Some i"
proof -
  obtain c r where cr: "nat_digits (nat i) = c # r" "isdigit c" by (rule nat_digits_Cons)
  then have c: "\<not> isspace c" "c \<noteq> CHR ''-''" "c \<noteq> CHR ''+''"
    by (auto simp: isdigit_def isspace_def)
  have t: "takeWhile isdigit r = r" "digits_value (c # r) = nat i"
    using cr takeWhile_nat_digits [of "nat i"] digits_value_nat_digits [of "nat i"] by simp_all
  have "nat i \<le> 2147483647" using assms by simp
  with assms c t cr show ?thesis
    by (simp add: stoi_def to_string_def Let_def del: takeWhile_eq_all_conv)
qed

lemma colon_notin_to_string: "CHR '':'' \<notin> set (to_string i)"
  using nat_digits_isdigit [of "nat i"] nat_digits_isdigit [of "nat (- i)"]
  by (auto simp: to_string_def isdigit_def)

end
