(* ===== verification/Kurlyk_Types.thy ===== *)
theory Kurlyk_Types
  imports Kurlyk_Strings
begin

text \<open>
  The plain data types of the library (\<^verbatim>\<open>types/enums.hpp\<close>, \<^verbatim>\<open>types/type_utils.hpp\<close>,
  \<^verbatim>\<open>types/SubmitResult.hpp\<close>, \<^verbatim>\<open>types/Cookie.hpp\<close>, \<^verbatim>\<open>utils/string_utils.hpp\<close>) and its error codes
  (\<^verbatim>\<open>utils/ClientErrorCategory.hpp\<close>, \<^verbatim>\<open>utils/HttpErrorCategory.hpp\<close>,
  \<^verbatim>\<open>utils/WebSocketErrorCategory.hpp\<close>, \<^verbatim>\<open>utils/CurlErrorCategory.hpp\<close>). A \<open>std::error_code\<close> is a
  value with its category; the default one is value 0 of the system category.
\<close>

section \<open>Error codes\<close>

datatype error_category =
    system_category | generic_category | client_error_category | http_error_category
  | curl_error_category | websocket_error_category

datatype error_code = error_code (ec_value: int) (ec_category: error_category)

definition no_error :: error_code where
  "no_error = error_code 0 system_category"

definition ec_bool :: "error_code \<Rightarrow> bool" where
  "ec_bool ec = (ec_value ec \<noteq> 0)"

datatype ClientError =
    CancelledByUser | AbortedDuringDestruction | ClientNotInitialized | InvalidConfiguration
  | NotConnected | QueueLimitExceeded | ShuttingDown

fun client_error_value :: "ClientError \<Rightarrow> int" where
  "client_error_value CancelledByUser = 1"
| "client_error_value AbortedDuringDestruction = 2"
| "client_error_value ClientNotInitialized = 3"
| "client_error_value InvalidConfiguration = 4"
| "client_error_value NotConnected = 5"
| "client_error_value QueueLimitExceeded = 6"
| "client_error_value ShuttingDown = 7"

definition client_error :: "ClientError \<Rightarrow> error_code" where
  "client_error e = error_code (client_error_value e) client_error_category"

definition client_error_message :: "int \<Rightarrow> string" where
  "client_error_message ev =
     (if ev = 1 then ''Request was cancelled by the user''
      else if ev = 2 then ''Request was aborted due to handler destruction''
      else if ev = 3 then ''Client was not initialized properly''
      else if ev = 4 then ''Invalid or missing client configuration''
      else if ev = 5 then ''Operation failed: client is not connected''
      else if ev = 6 then ''Operation was rejected because the queue limit was exceeded''
      else if ev = 7 then ''Operation was rejected because the client is shutting down''
      else ''Unknown HTTP client error'')"

datatype WebSocketError =
    ConnectionFailed | UnexpectedClose | ProtocolViolation | UnsupportedDataType
  | InvalidCloseCode | CompressionError

fun websocket_error_value :: "WebSocketError \<Rightarrow> int" where
  "websocket_error_value ConnectionFailed = 1"
| "websocket_error_value UnexpectedClose = 2"
| "websocket_error_value ProtocolViolation = 3"
| "websocket_error_value UnsupportedDataType = 4"
| "websocket_error_value InvalidCloseCode = 5"
| "websocket_error_value CompressionError = 6"

definition websocket_error :: "WebSocketError \<Rightarrow> error_code" where
  "websocket_error e = error_code (websocket_error_value e) websocket_error_category"

definition websocket_error_message :: "int \<Rightarrow> string" where
  "websocket_error_message ev =
     (if ev = 1 then ''Failed to establish WebSocket connection''
      else if ev = 2 then ''WebSocket connection was closed unexpectedly''
      else if ev = 3 then ''WebSocket protocol violation detected''
      else if ev = 4 then ''Unsupported WebSocket data type received''
      else if ev = 5 then ''Received invalid WebSocket close code''
      else if ev = 6 then ''Compression or decompression error during WebSocket exchange''
      else ''Unknown WebSocket error'')"

definition make_http_error :: "int \<Rightarrow> error_code" where
  "make_http_error status_code = error_code status_code http_error_category"

definition http_error_message :: "int \<Rightarrow> string" where
  "http_error_message ev =
     (if ev = 400 then ''Bad Request''
      else if ev = 401 then ''Unauthorized''
      else if ev = 403 then ''Forbidden''
      else if ev = 404 then ''Not Found''
      else if ev = 408 then ''Request Timeout''
      else if ev = 429 then ''Too Many Requests''
      else if ev = 500 then ''Internal Server Error''
      else if ev = 502 then ''Bad Gateway''
      else if ev = 503 then ''Service Unavailable''
      else if ev = 504 then ''Gateway Timeout''
      else ''HTTP Error '' @ to_string ev)"

fun category_name :: "error_category \<Rightarrow> string" where
  "category_name system_category = ''system''"
| "category_name generic_category = ''generic''"
| "category_name client_error_category = ''http_client''"
| "category_name http_error_category = ''http''"
| "category_name curl_error_category = ''curl''"
| "category_name websocket_error_category = ''websocket''"

definition is_http_error :: "error_code \<Rightarrow> bool" where
  "is_http_error ec = (category_name (ec_category ec) = ''http'')"

text \<open>A \<open>CURLcode\<close> is its integer value.\<close>

definition curl_error :: "int \<Rightarrow> error_code" where
  "curl_error e = error_code e curl_error_category"

definition CURLE_OK :: int where "CURLE_OK = 0"

section \<open>Admission results\<close>

record SubmitResult =
  accepted :: bool
  submit_error :: error_code

definition submit_result :: "bool \<Rightarrow> error_code \<Rightarrow> SubmitResult" where
  "submit_result a e = \<lparr>accepted = a, submit_error = e\<rparr>"

lemma submit_result_sel [simp]:
  "accepted (submit_result a e) = a" "submit_error (submit_result a e) = e"
  by (simp_all add: submit_result_def)

section \<open>Strings and enumerations\<close>

definition to_upper_case :: "string \<Rightarrow> string" where
  "to_upper_case str = map toupper str"

definition to_lower_case :: "string \<Rightarrow> string" where
  "to_lower_case str = map tolower str"

datatype ProxyType =
    PROXY_HTTP | PROXY_HTTPS | PROXY_HTTP_1_0 | PROXY_SOCKS4 | PROXY_SOCKS4A | PROXY_SOCKS5
  | PROXY_SOCKS5_HOSTNAME

datatype RateLimitType = RL_GENERAL | RL_SPECIFIC

datatype WebSocketEventType = WS_OPEN | WS_MESSAGE | WS_CLOSE | WS_ERROR

record Cookie =
  cookie_name :: string
  cookie_value :: string
  cookie_path :: string
  expiration_date :: u64

definition ProxyType_names :: "(string \<times> ProxyType) list" where
  "ProxyType_names =
     [(''PROXY_HTTP'', PROXY_HTTP), (''PROXY_HTTPS'', PROXY_HTTPS), (''PROXY_HTTP_1_0'', PROXY_HTTP_1_0),
      (''PROXY_SOCKS4'', PROXY_SOCKS4), (''PROXY_SOCKS4A'', PROXY_SOCKS4A), (''PROXY_SOCKS5'', PROXY_SOCKS5),
      (''PROXY_SOCKS5_HOSTNAME'', PROXY_SOCKS5_HOSTNAME)]"

definition RateLimitType_names :: "(string \<times> RateLimitType) list" where
  "RateLimitType_names = [(''RL_GENERAL'', RL_GENERAL), (''RL_SPECIFIC'', RL_SPECIFIC)]"

definition WebSocketEventType_names :: "(string \<times> WebSocketEventType) list" where
  "WebSocketEventType_names =
     [(''WS_OPEN'', WS_OPEN), (''WS_MESSAGE'', WS_MESSAGE), (''WS_CLOSE'', WS_CLOSE), (''WS_ERROR'', WS_ERROR)]"

text \<open>\<open>to_str\<close> indexes a table of names by the value of the enumerator.\<close>

fun ProxyType_to_nat :: "ProxyType \<Rightarrow> nat" where
  "ProxyType_to_nat PROXY_HTTP = 0"
| "ProxyType_to_nat PROXY_HTTPS = 1"
| "ProxyType_to_nat PROXY_HTTP_1_0 = 2"
| "ProxyType_to_nat PROXY_SOCKS4 = 3"
| "ProxyType_to_nat PROXY_SOCKS4A = 4"
| "ProxyType_to_nat PROXY_SOCKS5 = 5"
| "ProxyType_to_nat PROXY_SOCKS5_HOSTNAME = 6"

fun RateLimitType_to_nat :: "RateLimitType \<Rightarrow> nat" where
  "RateLimitType_to_nat RL_GENERAL = 0"
| "RateLimitType_to_nat RL_SPECIFIC = 1"

fun WebSocketEventType_to_nat :: "WebSocketEventType \<Rightarrow> nat" where
  "WebSocketEventType_to_nat WS_OPEN = 0"
| "WebSocketEventType_to_nat WS_MESSAGE = 1"
| "WebSocketEventType_to_nat WS_CLOSE = 2"
| "WebSocketEventType_to_nat WS_ERROR = 3"

definition to_str_ProxyType :: "ProxyType \<Rightarrow> string" where
  "to_str_ProxyType v =
     [''PROXY_HTTP'', ''PROXY_HTTPS'', ''PROXY_HTTP_1_0'', ''PROXY_SOCKS4'', ''PROXY_SOCKS4A'',
      ''PROXY_SOCKS5'', ''PROXY_SOCKS5_HOSTNAME''] ! ProxyType_to_nat v"

definition to_str_RateLimitType :: "RateLimitType \<Rightarrow> string" where
  "to_str_RateLimitType v = [''RL_GENERAL'', ''RL_SPECIFIC''] ! RateLimitType_to_nat v"

definition to_str_WebSocketEventType :: "WebSocketEventType \<Rightarrow> string" where
  "to_str_WebSocketEventType v =
     [''WS_OPEN'', ''WS_MESSAGE'', ''WS_CLOSE'', ''WS_ERROR''] ! WebSocketEventType_to_nat v"

text \<open>\<open>to_enum\<close> looks the upper-cased name up in a map; \<open>None\<close> is \<open>std::invalid_argument\<close>.\<close>

definition to_enum_ProxyType :: "string \<Rightarrow> ProxyType option" where
  "to_enum_ProxyType str = map_of ProxyType_names (to_upper_case str)"

definition to_enum_RateLimitType :: "string \<Rightarrow> RateLimitType option" where
  "to_enum_RateLimitType str = map_of RateLimitType_names (to_upper_case str)"

definition to_enum_WebSocketEventType :: "string \<Rightarrow> WebSocketEventType option" where
  "to_enum_WebSocketEventType str = map_of WebSocketEventType_names (to_upper_case str)"

text \<open>The constants of libcurl that stand for the proxy types are parameters, in the order of the
  table of the source.\<close>

definition to_curl_proxy_type :: "int list \<Rightarrow> ProxyType \<Rightarrow> int" where
  "to_curl_proxy_type values t = values ! ProxyType_to_nat t"

section \<open>Lemmas\<close>

lemma client_error_inject [simp]: "client_error e = client_error e' \<longleftrightarrow> e = e'"
  by (cases e; cases e') (simp_all add: client_error_def)

lemma client_error_is_error [simp]: "ec_bool (client_error e)"
  by (cases e) (simp_all add: client_error_def ec_bool_def)

lemma client_error_neq_none [simp]: "client_error e \<noteq> no_error" "no_error \<noteq> client_error e"
  by (simp_all add: client_error_def no_error_def)

lemma to_upper_case_idem [simp]: "to_upper_case (to_upper_case s) = to_upper_case s"
  by (simp add: to_upper_case_def)

lemma to_lower_case_idem [simp]: "to_lower_case (to_lower_case s) = to_lower_case s"
  by (simp add: to_lower_case_def)

lemma ProxyType_names_upper: "\<forall>(n, v) \<in> set ProxyType_names. to_upper_case n = n"
  by code_simp

end
