(* ===== verification/Http_Text.thy ===== *)
theory Http_Text
  imports Kurlyk_Types
begin

text \<open>
  The text formats of HTTP: percent encoding (\<^verbatim>\<open>utils/percent_encoding.hpp\<close>), the case-insensitive
  multimaps (\<^verbatim>\<open>utils/CaseInsensitiveMultimap.hpp\<close>), headers, query strings and cookies
  (\<^verbatim>\<open>utils/http_parser.hpp\<close>), and URLs (\<^verbatim>\<open>utils/url_utils.hpp\<close>, \<^verbatim>\<open>utils/http_utils.hpp\<close>).

  An unordered multimap is the list of its entries in iteration order, which the standard leaves
  open: insertion puts the entry at the end. libcurl's \<open>curl_easy_escape\<close> is the argument \<open>escape\<close>,
  \<open>None\<close> for a null result, and the success of \<open>curl_easy_init\<close> is the argument \<open>curl_ok\<close>.
\<close>

section \<open>Percent encoding\<close>

definition hex_chars :: string where "hex_chars = ''0123456789ABCDEF''"

definition is_unreserved :: "char \<Rightarrow> bool" where
  "is_unreserved c = (isalnum c \<or> c = CHR ''-'' \<or> c = CHR ''.'' \<or> c = CHR ''_'' \<or> c = CHR ''~'')"

definition percent_encode_char :: "char \<Rightarrow> string" where
  "percent_encode_char c =
     (if is_unreserved c then [c]
      else [CHR ''%'', hex_chars ! (ord c div 16), hex_chars ! (ord c mod 16)])"

definition percent_encode :: "string \<Rightarrow> string" where
  "percent_encode value = concat (map percent_encode_char value)"

text \<open>
  \<open>std::strtol\<close> in base 16 on the two characters after a percent sign: leading white space, an
  optional sign and hexadecimal digits. A prefix \<open>0x\<close> takes up both characters and gives 0, as
  the digit 0 alone does; a terminating zero is not a digit and ends the number.
\<close>

definition hex_value :: "char \<Rightarrow> nat option" where
  "hex_value c =
     (if isdigit c then Some (ord c - 48)
      else if 65 \<le> ord c \<and> ord c \<le> 70 then Some (ord c - 55)
      else if 97 \<le> ord c \<and> ord c \<le> 102 then Some (ord c - 87)
      else None)"

fun hex_digits :: "string \<Rightarrow> nat \<Rightarrow> nat" where
  "hex_digits [] acc = acc"
| "hex_digits (c # s) acc = (case hex_value c of None \<Rightarrow> acc | Some d \<Rightarrow> hex_digits s (16 * acc + d))"

definition strtol16 :: "string \<Rightarrow> int" where
  "strtol16 s =
     (case dropWhile isspace s of
        [] \<Rightarrow> 0
      | c # r \<Rightarrow>
          if c = CHR ''-'' then - int (hex_digits r 0)
          else if c = CHR ''+'' then int (hex_digits r 0)
          else int (hex_digits (c # r) 0))"

fun percent_decode :: "string \<Rightarrow> string" where
  "percent_decode [] = []"
| "percent_decode (c # s) =
     (if c = CHR ''%'' \<and> 2 \<le> length s
      then char_of (nat (strtol16 (take 2 s) mod 256)) # percent_decode (drop 2 s)
      else if c = CHR ''+'' then CHR '' '' # percent_decode s
      else c # percent_decode s)"

section \<open>Case-insensitive multimaps\<close>

definition case_insensitive_equal :: "string \<Rightarrow> string \<Rightarrow> bool" where
  "case_insensitive_equal str1 str2 =
     (length str1 = length str2 \<and> list_all2 (\<lambda>a b. tolower a = tolower b) str1 str2)"

text \<open>\<open>std::hash<int>\<close> is a parameter.\<close>

definition CaseInsensitiveHash :: "(nat \<Rightarrow> u64) \<Rightarrow> string \<Rightarrow> u64" where
  "CaseInsensitiveHash hash str =
     foldl (\<lambda>h c. xor h (hash (ord (tolower c)) + 0x9e3779b9 + push_bit 6 h + drop_bit 2 h)) 0 str"

type_synonym CaseInsensitiveMultimap = "(string \<times> string) list"
type_synonym Headers = CaseInsensitiveMultimap
type_synonym QueryParams = CaseInsensitiveMultimap
type_synonym Cookies = "(string \<times> Cookie) list"

definition multimap_find :: "(string \<times> 'v) list \<Rightarrow> string \<Rightarrow> (string \<times> 'v) option" where
  "multimap_find m key = List.find (\<lambda>(k, _). case_insensitive_equal k key) m"

definition multimap_emplace :: "string \<Rightarrow> 'v \<Rightarrow> (string \<times> 'v) list \<Rightarrow> (string \<times> 'v) list" where
  "multimap_emplace k v m = m @ [(k, v)]"

section \<open>Headers, query strings, cookies\<close>

fun pop_newlines :: "string \<Rightarrow> string" where
  "pop_newlines [] = []"
| "pop_newlines (c # s) =
     (if last (c # s) = CHR 0x0D \<or> last (c # s) = CHR 0x0A then pop_newlines (butlast (c # s)) else c # s)"

text \<open>The result of \<open>parse_http_header_pair\<close> is the pair of its output parameters, which an early
  return leaves as they were.\<close>

definition parse_http_header_pair :: "string \<Rightarrow> string \<times> string \<Rightarrow> string \<times> string" where
  "parse_http_header_pair header kv =
     (if length header < 3 then kv
      else case find_first_of header '':'' 0 of
        None \<Rightarrow> kv
      | Some colon_pos \<Rightarrow>
          if colon_pos = 0 then kv
          else
            let start_pos = colon_pos + 1;
                value = (case find_first_not_of header '' '' start_pos of
                           Some end_pos \<Rightarrow> drop end_pos header
                         | None \<Rightarrow> [])
            in (substr header 0 colon_pos, pop_newlines value))"

fun query_fields_curl :: "(string \<Rightarrow> string option) \<Rightarrow> nat \<Rightarrow> nat \<Rightarrow> QueryParams \<Rightarrow> string" where
  "query_fields_curl escape index_end index [] = []"
| "query_fields_curl escape index_end index ((k, v) # rest) =
     (case escape k of Some e \<Rightarrow> e | None \<Rightarrow> []) @ ''='' @
     (case escape v of Some e \<Rightarrow> e | None \<Rightarrow> []) @
     (if index \<noteq> index_end then ''&'' else []) @
     query_fields_curl escape index_end (index + 1) rest"

definition to_query_string_curl ::
    "bool \<Rightarrow> (string \<Rightarrow> string option) \<Rightarrow> QueryParams \<Rightarrow> string \<Rightarrow> string" where
  "to_query_string_curl curl_ok escape query prefix =
     (if query = [] then []
      else if \<not> curl_ok then prefix
      else prefix @ query_fields_curl escape (length query - 1) 0 query)"

fun query_fields :: "bool \<Rightarrow> QueryParams \<Rightarrow> string" where
  "query_fields first [] = []"
| "query_fields first ((k, v) # rest) =
     (if \<not> first then ''&'' else []) @ k @ ''='' @ percent_encode v @ query_fields False rest"

definition to_query_string :: "QueryParams \<Rightarrow> string \<Rightarrow> string" where
  "to_query_string query prefix = prefix @ query_fields True query"

fun cookie_pairs :: "bool \<Rightarrow> CaseInsensitiveMultimap \<Rightarrow> string" where
  "cookie_pairs first [] = []"
| "cookie_pairs first ((k, v) # rest) =
     (if \<not> first then ''; '' else []) @ k @ ''='' @ v @ cookie_pairs False rest"

definition to_cookie_string_map :: "CaseInsensitiveMultimap \<Rightarrow> string" where
  "to_cookie_string_map cookies = cookie_pairs True cookies"

definition cookie_field :: "Cookie \<Rightarrow> string" where
  "cookie_field c =
     cookie_name c @ ''='' @ cookie_value c @
     (if cookie_path c \<noteq> [] then ''; Path='' @ cookie_path c else []) @
     (if expiration_date c \<noteq> 0 then ''; Expires='' @ to_string (uint (expiration_date c)) else [])"

fun cookie_fields :: "bool \<Rightarrow> Cookies \<Rightarrow> string" where
  "cookie_fields first [] = []"
| "cookie_fields first ((_, c) # rest) =
     (if \<not> first then ''; '' else []) @ cookie_field c @ cookie_fields False rest"

definition to_cookie_string :: "Cookies \<Rightarrow> string" where
  "to_cookie_string cookies = cookie_fields True cookies"

definition host_prefix :: string where "host_prefix = ''__Host-''"

definition is_cookie_option :: "string \<Rightarrow> bool" where
  "is_cookie_option name =
     (case_insensitive_equal name ''expires'' \<or> case_insensitive_equal name ''max-age'' \<or>
      case_insensitive_equal name ''path'' \<or> case_insensitive_equal name ''domain'' \<or>
      case_insensitive_equal name ''samesite'')"

definition is_cookie_flag :: "string \<Rightarrow> bool" where
  "is_cookie_flag name =
     (case_insensitive_equal name ''secure'' \<or> case_insensitive_equal name ''httponly'')"

definition has_cookie_prefix :: "string \<Rightarrow> bool" where
  "has_cookie_prefix name = (length host_prefix < length name \<and> substr name 0 2 = ''__'')"

definition strip_cookie_prefix :: "string \<Rightarrow> string" where
  "strip_cookie_prefix name =
     (case find_first_of name ''-'' 0 of
        None \<Rightarrow> name
      | Some prefix_pos \<Rightarrow> substr name (prefix_pos + 1) (length name - prefix_pos - 1))"

definition make_cookie :: "string \<Rightarrow> string \<Rightarrow> Cookie" where
  "make_cookie name value =
     \<lparr>cookie_name = name, cookie_value = value, cookie_path = [], expiration_date = 0\<rparr>"

text \<open>
  The loop of \<open>parse_cookie\<close>, from \<open>start_pos\<close> on, with the cookies found so far. A count of
  \<open>size - separator_pos - 2\<close> characters that underflows means the rest of the string in C++;
  it happens only when nothing is left, so the truncated subtraction of the model gives the same
  empty value.
\<close>

function parse_cookie_loop :: "string \<Rightarrow> nat \<Rightarrow> Cookies \<Rightarrow> Cookies" where
  "parse_cookie_loop cookie start_pos cookies =
     (case find_first_of cookie ''=;'' start_pos of
        None \<Rightarrow> cookies
      | Some separator_pos \<Rightarrow>
          let name0 = substr cookie start_pos (separator_pos - start_pos);
              name = (if has_cookie_prefix name0 then strip_cookie_prefix name0 else name0);
              is_option = (\<not> has_cookie_prefix name0 \<and> is_cookie_option name0)
          in if \<not> has_cookie_prefix name0 \<and> \<not> is_option \<and> is_cookie_flag name0
             then parse_cookie_loop cookie
                    (if cookie ! separator_pos = CHR '';'' then separator_pos + 2 else separator_pos + 1) cookies
             else
               (case find_str cookie ''; '' (separator_pos + 1) of
                  None \<Rightarrow>
                    let value = substr cookie (separator_pos + 1) (length cookie - separator_pos - 2)
                    in if is_option then cookies else multimap_emplace name (make_cookie name value) cookies
                | Some end_pos \<Rightarrow>
                    let value = substr cookie (separator_pos + 1) (end_pos - separator_pos - 1)
                    in parse_cookie_loop cookie (end_pos + 2)
                         (if is_option then cookies
                          else multimap_emplace name (make_cookie name value) cookies)))"
  by pat_completeness auto

lemma find_first_of_le: "find_first_of s cs pos = Some i \<Longrightarrow> pos \<le> i \<and> i < length s"
  unfolding find_first_of_def by (rule find_first_le)

termination parse_cookie_loop
proof (relation "measure (\<lambda>(cookie, start_pos, _). length cookie - start_pos)", goal_cases)
  case (2 cookie start_pos cookies sep)
  then show ?case using find_first_of_le [of cookie "''=;''" start_pos sep] by auto
next
  case (3 cookie start_pos cookies sep)
  then show ?case
    using find_first_of_le [of cookie "''=;''" start_pos sep] by (auto dest!: find_str_le)
qed simp

declare parse_cookie_loop.simps [simp del]

definition parse_cookie :: "string \<Rightarrow> Cookies" where
  "parse_cookie cookie = parse_cookie_loop (cookie @ '';'') 0 []"

section \<open>URLs\<close>

definition extract_protocol :: "string \<Rightarrow> string" where
  "extract_protocol url =
     (case find_str url ''://'' 0 of None \<Rightarrow> [] | Some pos \<Rightarrow> substr url 0 pos)"

definition compare_eq :: "string \<Rightarrow> nat \<Rightarrow> nat \<Rightarrow> string \<Rightarrow> bool" where
  "compare_eq s pos n t = (substr s pos n = t)"

definition remove_prefix2 :: "string \<Rightarrow> string \<Rightarrow> string \<Rightarrow> string" where
  "remove_prefix2 p1 p2 url =
     (case (case find_str url p1 0 of None \<Rightarrow> find_str url p2 0 | Some pos \<Rightarrow> Some pos) of
        None \<Rightarrow> url
      | Some pos \<Rightarrow>
          if compare_eq url pos (length p1) p1 then erase_range url pos (length p1)
          else if compare_eq url pos (length p2) p2 then erase_range url pos (length p2)
          else url)"

definition remove_ws_prefix :: "string \<Rightarrow> string" where
  "remove_ws_prefix url = remove_prefix2 ''wss://'' ''ws://'' url"

definition remove_http_prefix :: "string \<Rightarrow> string" where
  "remove_http_prefix url = remove_prefix2 ''https://'' ''http://'' url"

definition is_valid_scheme :: "string \<Rightarrow> string \<Rightarrow> bool" where
  "is_valid_scheme url scheme = compare_eq url 0 (length scheme) scheme"

definition is_valid_domain :: "string \<Rightarrow> bool" where
  "is_valid_domain domain =
     (case find_char domain CHR ''.'' 0 of
        None \<Rightarrow> False
      | Some dot_pos \<Rightarrow>
          if dot_pos = 0 \<or> dot_pos = length domain - 1 then False
          else if \<not> list_all (\<lambda>ch. isalnum ch \<or> ch = CHR ''-'' \<or> ch = CHR ''.'') domain then False
          else list_all isalpha (drop (dot_pos + 1) domain))"

definition is_valid_path :: "string \<Rightarrow> bool" where
  "is_valid_path path =
     (if path = [] \<or> hd path \<noteq> CHR ''/'' then False
      else list_all (\<lambda>ch. isalnum ch \<or> ch = CHR ''/'' \<or> ch = CHR ''-'' \<or> ch = CHR ''_'') path)"

function is_valid_query_loop :: "string \<Rightarrow> nat \<Rightarrow> bool" where
  "is_valid_query_loop query pos =
     (if pos < length query
      then
        (case find_char query CHR ''='' pos of
           None \<Rightarrow> False
         | Some equalPos \<Rightarrow>
             (case find_char query CHR ''&'' pos of
                None \<Rightarrow> is_valid_query_loop query (length query)
              | Some ampPos \<Rightarrow>
                  if ampPos < equalPos then False
                  else is_valid_query_loop query (ampPos + 1)))
      else True)"
  by pat_completeness auto

lemma find_char_le: "find_char s c pos = Some i \<Longrightarrow> pos \<le> i \<and> i < length s"
  unfolding find_char_def by (rule find_first_le)

termination is_valid_query_loop
  by (relation "measure (\<lambda>(query, pos). length query - pos)") (auto dest!: find_char_le)

declare is_valid_query_loop.simps [simp del]

definition is_valid_query :: "string \<Rightarrow> bool" where
  "is_valid_query query =
     (if query = [] \<or> hd query \<noteq> CHR ''?'' then False else is_valid_query_loop query 1)"

text \<open>
  When the query starts before the first slash, \<open>query_start - path_start\<close> underflows in C++ and
  the path is the rest of the string, which the conditional of the model makes explicit.
\<close>

definition is_valid_url :: "string \<Rightarrow> string list \<Rightarrow> bool" where
  "is_valid_url url protocol =
     (case find_str url ''://'' 0 of
        None \<Rightarrow> False
      | Some scheme_end \<Rightarrow>
          if substr url 0 scheme_end \<notin> set protocol then False
          else
            let domain_start = scheme_end + 3;
                path_start = find_char url CHR ''/'' domain_start;
                query_start = find_char url CHR ''?'' domain_start;
                domain_end = (case path_start of
                                Some p \<Rightarrow> p
                              | None \<Rightarrow> (case query_start of Some q \<Rightarrow> q | None \<Rightarrow> length url))
            in if \<not> is_valid_domain (substr url domain_start (domain_end - domain_start)) then False
               else if (case path_start of
                          None \<Rightarrow> False
                        | Some p \<Rightarrow>
                            \<not> is_valid_path
                              (case query_start of
                                 Some q \<Rightarrow> if p \<le> q then substr url p (q - p) else drop p url
                               | None \<Rightarrow> drop p url))
               then False
               else (case query_start of None \<Rightarrow> True | Some q \<Rightarrow> is_valid_query (drop q url)))"

end
