(* ===== verification/Web_Socket_Config.thy ===== *)
theory Web_Socket_Config
  imports Http_Text
begin

text \<open>
  \<^verbatim>\<open>websocket/data/WebSocketConfig.hpp\<close> and \<^verbatim>\<open>websocket/data/WebSocketSendInfo.hpp\<close>: the
  configuration of a WebSocket client with its setters, and a queued send operation. The overload
  of \<open>set_url\<close> that takes query parameters receives the variant of \<open>to_query_string\<close> the build
  selects as an argument.
\<close>

record RateLimitData =
  rld_requests_per_period :: int
  rld_period_ms :: int

record WebSocketConfig =
  wc_headers :: Headers
  wc_url :: string
  wc_user_agent :: string
  wc_accept_encoding :: string
  wc_cookie :: string
  wc_protocols :: "string list"
  wc_cert_file :: string
  wc_key_file :: string
  wc_ca_file :: string
  wc_proxy_server :: string
  wc_proxy_auth :: string
  wc_proxy_type :: ProxyType
  wc_request_timeout :: int
  wc_idle_timeout :: int
  reconnect_delay :: int
  reconnect_attempts :: int
  max_send_queue_size :: nat
  reconnect :: bool
  wc_verify_cert :: bool
  rate_limits :: "RateLimitData list"

definition WebSocketConfig_default :: WebSocketConfig where
  "WebSocketConfig_default =
     \<lparr>wc_headers = [], wc_url = [], wc_user_agent = [], wc_accept_encoding = [], wc_cookie = [],
      wc_protocols = [], wc_cert_file = [], wc_key_file = [], wc_ca_file = [], wc_proxy_server = [],
      wc_proxy_auth = [], wc_proxy_type = PROXY_HTTP, wc_request_timeout = 20, wc_idle_timeout = 0,
      reconnect_delay = 5, reconnect_attempts = 0, max_send_queue_size = 0, reconnect = True,
      wc_verify_cert = True, rate_limits = []\<rparr>"

definition wc_set_url :: "string \<Rightarrow> string \<Rightarrow> string \<Rightarrow> WebSocketConfig \<Rightarrow> WebSocketConfig" where
  "wc_set_url host path query c =
     c\<lparr>wc_url := host @ (if path \<noteq> [] \<and> hd path \<noteq> CHR ''/'' then ''/'' else []) @ path @
        (if query \<noteq> [] then (if hd query = CHR ''?'' then [] else ''?'') @ query else [])\<rparr>"

definition wc_set_url_query ::
    "(QueryParams \<Rightarrow> string \<Rightarrow> string) \<Rightarrow> string \<Rightarrow> QueryParams \<Rightarrow> WebSocketConfig \<Rightarrow> WebSocketConfig" where
  "wc_set_url_query query_string url query c =
     c\<lparr>wc_url := url @ (if query = [] then [] else query_string query ''?'')\<rparr>"

definition add_encoding :: "bool \<Rightarrow> string \<Rightarrow> string \<Rightarrow> string" where
  "add_encoding flag name encodings =
     (if flag then encodings @ (if encodings = [] then [] else '','') @ name else encodings)"

definition accept_encoding_string :: "bool \<Rightarrow> bool \<Rightarrow> bool \<Rightarrow> bool \<Rightarrow> string" where
  "accept_encoding_string identity deflate gzip brotli =
     add_encoding brotli ''br'' (add_encoding gzip ''gzip'' (add_encoding deflate ''deflate''
       (if identity then ''identity'' else [])))"

definition wc_set_accept_encoding ::
    "bool \<Rightarrow> bool \<Rightarrow> bool \<Rightarrow> bool \<Rightarrow> WebSocketConfig \<Rightarrow> WebSocketConfig" where
  "wc_set_accept_encoding identity deflate gzip brotli c =
     c\<lparr>wc_accept_encoding := accept_encoding_string identity deflate gzip brotli\<rparr>"

definition wc_set_proxy :: "string \<Rightarrow> int \<Rightarrow> WebSocketConfig \<Rightarrow> WebSocketConfig" where
  "wc_set_proxy ip port c = c\<lparr>wc_proxy_server := ip @ '':'' @ to_string port\<rparr>"

definition wc_set_proxy_typed :: "string \<Rightarrow> int \<Rightarrow> ProxyType \<Rightarrow> WebSocketConfig \<Rightarrow> WebSocketConfig" where
  "wc_set_proxy_typed ip port type c =
     c\<lparr>wc_proxy_server := ip @ '':'' @ to_string port, wc_proxy_type := type\<rparr>"

definition wc_set_proxy_server :: "string \<Rightarrow> WebSocketConfig \<Rightarrow> WebSocketConfig" where
  "wc_set_proxy_server server c = c\<lparr>wc_proxy_server := server\<rparr>"

definition wc_set_proxy_auth :: "string \<Rightarrow> WebSocketConfig \<Rightarrow> WebSocketConfig" where
  "wc_set_proxy_auth auth c = c\<lparr>wc_proxy_auth := auth\<rparr>"

definition wc_set_proxy_type :: "ProxyType \<Rightarrow> WebSocketConfig \<Rightarrow> WebSocketConfig" where
  "wc_set_proxy_type type c = c\<lparr>wc_proxy_type := type\<rparr>"

definition wc_set_proxy_credentials :: "string \<Rightarrow> string \<Rightarrow> WebSocketConfig \<Rightarrow> WebSocketConfig" where
  "wc_set_proxy_credentials username password c = c\<lparr>wc_proxy_auth := username @ '':'' @ password\<rparr>"

definition wc_set_proxy_full ::
    "string \<Rightarrow> int \<Rightarrow> string \<Rightarrow> string \<Rightarrow> ProxyType \<Rightarrow> WebSocketConfig \<Rightarrow> WebSocketConfig" where
  "wc_set_proxy_full ip port username password type c =
     (wc_set_proxy_credentials username password (wc_set_proxy ip port c))\<lparr>wc_proxy_type := type\<rparr>"

definition wc_set_reconnect :: "bool \<Rightarrow> int \<Rightarrow> int \<Rightarrow> WebSocketConfig \<Rightarrow> WebSocketConfig" where
  "wc_set_reconnect r attempts del c =
     c\<lparr>reconnect := r, reconnect_attempts := attempts, reconnect_delay := del\<rparr>"

definition wc_set_user_agent :: "string \<Rightarrow> WebSocketConfig \<Rightarrow> WebSocketConfig" where
  "wc_set_user_agent ua c = c\<lparr>wc_user_agent := ua\<rparr>"

definition wc_set_accept_language :: "string \<Rightarrow> WebSocketConfig \<Rightarrow> WebSocketConfig" where
  "wc_set_accept_language l c = c\<lparr>wc_headers := multimap_emplace ''Accept-Language'' l (wc_headers c)\<rparr>"

definition wc_set_cookie :: "string \<Rightarrow> WebSocketConfig \<Rightarrow> WebSocketConfig" where
  "wc_set_cookie ck c = c\<lparr>wc_cookie := ck\<rparr>"

definition wc_set_idle_timeout :: "int \<Rightarrow> WebSocketConfig \<Rightarrow> WebSocketConfig" where
  "wc_set_idle_timeout t c = c\<lparr>wc_idle_timeout := t\<rparr>"

definition wc_set_request_timeout :: "int \<Rightarrow> WebSocketConfig \<Rightarrow> WebSocketConfig" where
  "wc_set_request_timeout t c = c\<lparr>wc_request_timeout := t\<rparr>"

definition wc_set_max_send_queue_size :: "nat \<Rightarrow> WebSocketConfig \<Rightarrow> WebSocketConfig" where
  "wc_set_max_send_queue_size n c = c\<lparr>max_send_queue_size := n\<rparr>"

definition wc_set_ca_file :: "string \<Rightarrow> WebSocketConfig \<Rightarrow> WebSocketConfig" where
  "wc_set_ca_file f c = c\<lparr>wc_ca_file := f\<rparr>"

definition wc_set_ca_file_verify :: "bool \<Rightarrow> string \<Rightarrow> WebSocketConfig \<Rightarrow> WebSocketConfig" where
  "wc_set_ca_file_verify v f c = c\<lparr>wc_verify_cert := v, wc_ca_file := f\<rparr>"

definition wc_set_verify_cert :: "bool \<Rightarrow> WebSocketConfig \<Rightarrow> WebSocketConfig" where
  "wc_set_verify_cert v c = c\<lparr>wc_verify_cert := v\<rparr>"

definition wc_add_rate_limit :: "int \<Rightarrow> int \<Rightarrow> WebSocketConfig \<Rightarrow> WebSocketConfig \<times> int" where
  "wc_add_rate_limit rpp per c =
     (let c' = c\<lparr>rate_limits := rate_limits c @
                   [\<lparr>rld_requests_per_period = rpp, rld_period_ms = per\<rparr>]\<rparr>
      in (c', int (length (rate_limits c')) - 1))"

definition wc_add_rate_limit_rpm :: "int \<Rightarrow> WebSocketConfig \<Rightarrow> WebSocketConfig \<times> int" where
  "wc_add_rate_limit_rpm rpm c = wc_add_rate_limit rpm 60000 c"

definition wc_add_rate_limit_rps :: "int \<Rightarrow> WebSocketConfig \<Rightarrow> WebSocketConfig \<times> int" where
  "wc_add_rate_limit_rps rps c = wc_add_rate_limit rps 1000 c"

record WebSocketSendInfo =
  si_message :: string
  si_rate_limit_id :: int
  is_send_close :: bool
  si_status :: int
  si_callback :: "cb option"

end
