(* ===== verification/Http_Data.thy ===== *)
theory Http_Data
  imports Complex_Main Web_Socket_Config Http_Rate_Limiter
begin

text \<open>
  \<^verbatim>\<open>http/data/HttpRequest.hpp\<close> and \<^verbatim>\<open>http/data/HttpResponse.hpp\<close>: the request with its setters and
  the response. A \<open>std::set\<close> of status codes is a set. The timing metrics, which the code only
  copies from libcurl, are real numbers.
\<close>

declare map_of_eq_Some_iff [simp del] Some_eq_map_of_iff [simp del]

section \<open>Requests\<close>

record HttpRequest =
  request_id :: u64
  group_id :: u64
  rq_headers :: Headers
  rq_url :: string
  rq_method :: string
  rq_content :: string
  rq_user_agent :: string
  rq_accept_encoding :: string
  rq_cookie_file :: string
  rq_cookie :: string
  rq_cert_file :: string
  rq_key_file :: string
  rq_ca_file :: string
  rq_ca_path :: string
  rq_proxy_server :: string
  rq_proxy_auth :: string
  rq_proxy_type :: ProxyType
  rq_proxy_tunnel :: bool
  rq_interface_name :: string
  rq_use_interface :: bool
  rq_follow_location :: bool
  rq_max_redirects :: int
  rq_auto_referer :: bool
  head_only :: bool
  streaming :: bool
  rq_timeout :: int
  rq_connect_timeout :: int
  general_rate_limit :: HttpRateLimitHandlePtr
  specific_rate_limit :: HttpRateLimitHandlePtr
  general_rate_limit_key :: string
  specific_rate_limit_key :: string
  valid_statuses :: "int set"
  retry_attempts :: int
  retry_delay_ms :: int
  rq_clear_cookie_file :: bool
  rq_verbose :: bool
  rq_debug_header :: bool

definition HttpRequest_default :: HttpRequest where
  "HttpRequest_default =
     \<lparr>request_id = 0, group_id = 0, rq_headers = [], rq_url = [], rq_method = ''GET'', rq_content = [],
      rq_user_agent = [], rq_accept_encoding = [], rq_cookie_file = [], rq_cookie = [], rq_cert_file = [],
      rq_key_file = [], rq_ca_file = [], rq_ca_path = [], rq_proxy_server = [], rq_proxy_auth = [],
      rq_proxy_type = PROXY_HTTP, rq_proxy_tunnel = True, rq_interface_name = [], rq_use_interface = False,
      rq_follow_location = True, rq_max_redirects = 10, rq_auto_referer = False, head_only = False,
      streaming = False, rq_timeout = 30, rq_connect_timeout = 10, general_rate_limit = None,
      specific_rate_limit = None, general_rate_limit_key = [], specific_rate_limit_key = [],
      valid_statuses = {200}, retry_attempts = 0, retry_delay_ms = 0, rq_clear_cookie_file = False,
      rq_verbose = False, rq_debug_header = False\<rparr>"

definition rq_set_url :: "string \<Rightarrow> string \<Rightarrow> string \<Rightarrow> HttpRequest \<Rightarrow> HttpRequest" where
  "rq_set_url host path query r =
     r\<lparr>rq_url := host @ (if path \<noteq> [] \<and> hd path \<noteq> CHR ''/'' then ''/'' else []) @ path @
        (if query \<noteq> [] then (if hd query \<noteq> CHR ''?'' then ''?'' else []) @ query else [])\<rparr>"

definition rq_set_url_path_query ::
    "(QueryParams \<Rightarrow> string \<Rightarrow> string) \<Rightarrow> string \<Rightarrow> string \<Rightarrow> QueryParams \<Rightarrow> HttpRequest \<Rightarrow> HttpRequest" where
  "rq_set_url_path_query query_string host path query r =
     (let query_str = query_string query ''?'' in rq_set_url host path query_str r)"

definition rq_set_url_query ::
    "(QueryParams \<Rightarrow> string \<Rightarrow> string) \<Rightarrow> string \<Rightarrow> QueryParams \<Rightarrow> HttpRequest \<Rightarrow> HttpRequest" where
  "rq_set_url_query query_string url query r =
     (let args_str = query_string query ''?''
      in r\<lparr>rq_url := url @ (if query \<noteq> [] then args_str else [])\<rparr>)"

definition rq_set_accept_encoding :: "bool \<Rightarrow> bool \<Rightarrow> bool \<Rightarrow> bool \<Rightarrow> HttpRequest \<Rightarrow> HttpRequest" where
  "rq_set_accept_encoding identity deflate gzip brotli r =
     r\<lparr>rq_accept_encoding := accept_encoding_string identity deflate gzip brotli\<rparr>"

definition rq_emplace_header :: "string \<Rightarrow> string \<Rightarrow> HttpRequest \<Rightarrow> HttpRequest" where
  "rq_emplace_header k v r = r\<lparr>rq_headers := multimap_emplace k v (rq_headers r)\<rparr>"

definition rq_set_accept_language :: "string \<Rightarrow> HttpRequest \<Rightarrow> HttpRequest" where
  "rq_set_accept_language v r = rq_emplace_header ''Accept-Language'' v r"

definition rq_set_content_type :: "string \<Rightarrow> HttpRequest \<Rightarrow> HttpRequest" where
  "rq_set_content_type v r = rq_emplace_header ''Content-Type'' v r"

definition rq_set_origin :: "string \<Rightarrow> HttpRequest \<Rightarrow> HttpRequest" where
  "rq_set_origin v r = rq_emplace_header ''Origin'' v r"

definition rq_set_referer :: "string \<Rightarrow> HttpRequest \<Rightarrow> HttpRequest" where
  "rq_set_referer v r = rq_emplace_header ''Referer'' v r"

definition rq_set_proxy :: "string \<Rightarrow> int \<Rightarrow> HttpRequest \<Rightarrow> HttpRequest" where
  "rq_set_proxy ip port r = r\<lparr>rq_proxy_server := ip @ '':'' @ to_string port\<rparr>"

definition rq_set_proxy_typed :: "string \<Rightarrow> int \<Rightarrow> ProxyType \<Rightarrow> HttpRequest \<Rightarrow> HttpRequest" where
  "rq_set_proxy_typed ip port type r =
     r\<lparr>rq_proxy_server := ip @ '':'' @ to_string port, rq_proxy_type := type\<rparr>"

definition rq_set_proxy_auth :: "string \<Rightarrow> HttpRequest \<Rightarrow> HttpRequest" where
  "rq_set_proxy_auth auth r = r\<lparr>rq_proxy_auth := auth\<rparr>"

definition rq_set_proxy_credentials :: "string \<Rightarrow> string \<Rightarrow> HttpRequest \<Rightarrow> HttpRequest" where
  "rq_set_proxy_credentials username password r = r\<lparr>rq_proxy_auth := username @ '':'' @ password\<rparr>"

definition rq_set_proxy_full :: "string \<Rightarrow> int \<Rightarrow> string \<Rightarrow> string \<Rightarrow> ProxyType \<Rightarrow> HttpRequest \<Rightarrow> HttpRequest" where
  "rq_set_proxy_full ip port username password type r =
     (rq_set_proxy_credentials username password (rq_set_proxy ip port r))\<lparr>rq_proxy_type := type\<rparr>"

definition rq_set_proxy_server :: "string \<Rightarrow> HttpRequest \<Rightarrow> HttpRequest" where
  "rq_set_proxy_server server r = r\<lparr>rq_proxy_server := server\<rparr>"

definition rq_set_proxy_type :: "ProxyType \<Rightarrow> HttpRequest \<Rightarrow> HttpRequest" where
  "rq_set_proxy_type type r = r\<lparr>rq_proxy_type := type\<rparr>"

definition rq_set_retry_attempts :: "int \<Rightarrow> int \<Rightarrow> HttpRequest \<Rightarrow> HttpRequest" where
  "rq_set_retry_attempts n d r = r\<lparr>retry_attempts := n, retry_delay_ms := d\<rparr>"

definition rq_add_valid_status :: "int \<Rightarrow> HttpRequest \<Rightarrow> HttpRequest" where
  "rq_add_valid_status st r = r\<lparr>valid_statuses := insert st (valid_statuses r)\<rparr>"

definition rq_set_valid_statuses :: "int set \<Rightarrow> HttpRequest \<Rightarrow> HttpRequest" where
  "rq_set_valid_statuses sts r = r\<lparr>valid_statuses := sts\<rparr>"

definition rq_clear_valid_statuses :: "HttpRequest \<Rightarrow> HttpRequest" where
  "rq_clear_valid_statuses r = r\<lparr>valid_statuses := {}\<rparr>"

definition rq_set_user_agent :: "string \<Rightarrow> HttpRequest \<Rightarrow> HttpRequest" where
  "rq_set_user_agent ua r = r\<lparr>rq_user_agent := ua\<rparr>"

definition rq_set_cookie :: "string \<Rightarrow> HttpRequest \<Rightarrow> HttpRequest" where
  "rq_set_cookie c r = r\<lparr>rq_cookie := c\<rparr>"

definition rq_set_cert_file :: "string \<Rightarrow> HttpRequest \<Rightarrow> HttpRequest" where
  "rq_set_cert_file f r = r\<lparr>rq_cert_file := f\<rparr>"

definition rq_set_ca_file :: "string \<Rightarrow> HttpRequest \<Rightarrow> HttpRequest" where
  "rq_set_ca_file f r = r\<lparr>rq_ca_file := f\<rparr>"

definition rq_set_timeout :: "int \<Rightarrow> HttpRequest \<Rightarrow> HttpRequest" where
  "rq_set_timeout t r = r\<lparr>rq_timeout := t\<rparr>"

definition rq_set_connect_timeout :: "int \<Rightarrow> HttpRequest \<Rightarrow> HttpRequest" where
  "rq_set_connect_timeout t r = r\<lparr>rq_connect_timeout := t\<rparr>"

definition rq_set_streaming :: "bool \<Rightarrow> HttpRequest \<Rightarrow> HttpRequest" where
  "rq_set_streaming b r = r\<lparr>streaming := b\<rparr>"

definition rq_set_verbose :: "bool \<Rightarrow> HttpRequest \<Rightarrow> HttpRequest" where
  "rq_set_verbose b r = r\<lparr>rq_verbose := b\<rparr>"

definition rq_set_debug_header :: "bool \<Rightarrow> HttpRequest \<Rightarrow> HttpRequest" where
  "rq_set_debug_header b r = r\<lparr>rq_debug_header := b\<rparr>"

section \<open>Responses\<close>

record response_timings =
  namelookup_time :: real
  connect_time :: real
  appconnect_time :: real
  pretransfer_time :: real
  starttransfer_time :: real
  total_time :: real

record HttpResponse =
  rs_headers :: Headers
  rs_content :: string
  rs_error_code :: error_code
  rs_error_message :: string
  status_code :: int
  rs_retry_attempt :: int
  ready :: bool
  stream_chunk :: bool
  rs_timings :: response_timings

definition timings_default :: response_timings where
  "timings_default = \<lparr>namelookup_time = - 1, connect_time = - 1, appconnect_time = - 1,
     pretransfer_time = - 1, starttransfer_time = - 1, total_time = - 1\<rparr>"

definition HttpResponse_default :: HttpResponse where
  "HttpResponse_default =
     \<lparr>rs_headers = [], rs_content = [], rs_error_code = no_error, rs_error_message = [], status_code = 0,
      rs_retry_attempt = 0, ready = False, stream_chunk = False, rs_timings = timings_default\<rparr>"

text \<open>The final responses the library makes up itself: an error code with a status.\<close>

definition error_response :: "error_code \<Rightarrow> int \<Rightarrow> HttpResponse" where
  "error_response ec status =
     HttpResponse_default\<lparr>rs_error_code := ec, status_code := status, ready := True\<rparr>"

definition aborted_response :: HttpResponse where
  "aborted_response = error_response (client_error AbortedDuringDestruction) 499"

definition make_cancelled_response :: HttpResponse where
  "make_cancelled_response = error_response (client_error CancelledByUser) 499"

end
