(* ===== verification/Http_Request_Manager.thy ===== *)
theory Http_Request_Manager
  imports Http_Data
begin

text \<open>
  The HTTP request manager and what it owns: \<^verbatim>\<open>HttpRequestContext.hpp\<close>,
  \<^verbatim>\<open>HttpRequestHandler.hpp\<close>, \<^verbatim>\<open>HttpBatchRequestHandler.hpp\<close> and \<^verbatim>\<open>HttpRequestManager.hpp\<close>.

  A request lives in one place at a time: as a context in the list of pending or of failed requests,
  or inside a handler of an active batch. The closures a context carries are data: \<open>on_complete\<close> is
  the argument list of the \<open>release_request\<close> it calls, \<open>on_group_complete\<close> the group it reports to.
  They act on the manager, so the operations of a context take and return the manager's state.

  The field \<open>hm_log\<close> records in order the responses passed to user callbacks, the completion of each
  context, and the notified waiters. \<open>KURLYK_HANDLE_ERROR\<close> for exceptions of user callbacks has no
  effect on the manager and is left out.

  libcurl is the environment: \<open>http_env\<close> and \<open>curl_input\<close> hold what it returns and the callbacks it
  makes during one \<open>curl_multi_perform\<close>. Memory exhaustion in the two places where the code handles
  it is an argument as well.
\<close>

section \<open>State\<close>

record release_args =
  ra_general :: HttpRateLimitHandlePtr
  ra_specific :: HttpRateLimitHandlePtr
  ra_token :: u64
  ra_general_key :: string
  ra_specific_key :: string

record HttpRequestContext =
  request :: "HttpRequest option"
  callback :: "cb option"
  retry_attempt :: int
  start_time :: time_point
  in_flight_token :: u64
  on_complete :: "release_args option"
  on_group_complete :: "u64 option"
  complete_called :: bool

record HttpRequestHandler =
  m_request_context :: "HttpRequestContext option"
  m_response :: "HttpResponse option"
  m_curl :: "nat option"
  m_callback_called :: bool
  m_has_stream_chunk :: bool
  m_done :: bool

record HttpBatchRequestHandler =
  m_multi_handle :: bool
  m_handlers :: "HttpRequestHandler list"
  b_failed_requests :: "HttpRequestContext list"

record GroupWaiter =
  gw_id :: u64
  gw_callback :: "cb option"

type_synonym cancel_map_t = "(u64, cb option list) umap"
type_synonym waiter_map_t = "(u64, GroupWaiter list) umap"

datatype http_log =
    LogResponse cb u64 HttpResponse
  | LogComplete u64 "cb option"
  | LogWaiter cb
  | LogCancelled cb
  | LogNullDeref

record HttpRequestManager =
  m_pending_requests :: "HttpRequestContext list"
  m_failed_requests :: "HttpRequestContext list"
  m_active_request_batches :: "HttpBatchRequestHandler list"
  m_requests_to_cancel_by_id :: cancel_map_t
  m_groups_to_cancel :: cancel_map_t
  m_group_waiters :: waiter_map_t
  m_group_request_counts :: "(u64, nat) umap"
  hm_rate_limiter :: HttpRateLimiter
  m_next_in_flight_token :: u64
  m_request_id_counter :: u64
  m_group_id_counter :: u64
  m_waiter_id_counter :: u64
  m_shutdown :: bool
  m_max_pending_requests :: nat
  hm_log :: "http_log list"

definition HttpRequestManager_init :: HttpRequestManager where
  "HttpRequestManager_init =
     \<lparr>m_pending_requests = [], m_failed_requests = [], m_active_request_batches = [],
      m_requests_to_cancel_by_id = [], m_groups_to_cancel = [], m_group_waiters = [],
      m_group_request_counts = [], hm_rate_limiter = HttpRateLimiter_init, m_next_in_flight_token = 1,
      m_request_id_counter = 1, m_group_id_counter = 1, m_waiter_id_counter = 1, m_shutdown = False,
      m_max_pending_requests = 0, hm_log = []\<rparr>"

definition hm_logs :: "http_log list \<Rightarrow> HttpRequestManager \<Rightarrow> HttpRequestManager" where
  "hm_logs ls m = m\<lparr>hm_log := hm_log m @ ls\<rparr>"

definition on_limiter :: "(HttpRateLimiter \<Rightarrow> HttpRateLimiter) \<Rightarrow> HttpRequestManager \<Rightarrow> HttpRequestManager" where
  "on_limiter f m = m\<lparr>hm_rate_limiter := f (hm_rate_limiter m)\<rparr>"

section \<open>Groups and waiters\<close>

definition group_request_count_unlocked :: "u64 \<Rightarrow> HttpRequestManager \<Rightarrow> nat" where
  "group_request_count_unlocked g m =
     (if g = 0 then 0
      else case map_of (m_group_request_counts m) g of None \<Rightarrow> 0 | Some n \<Rightarrow> n)"

definition group_request_count :: "u64 \<Rightarrow> HttpRequestManager \<Rightarrow> nat" where
  "group_request_count g m = group_request_count_unlocked g m"

definition has_requests_by_group_id :: "u64 \<Rightarrow> HttpRequestManager \<Rightarrow> bool" where
  "has_requests_by_group_id g m = (group_request_count g m \<noteq> 0)"

fun waiter_logs :: "GroupWaiter list \<Rightarrow> http_log list" where
  "waiter_logs [] = []"
| "waiter_logs (w # ws) =
     (case gw_callback w of None \<Rightarrow> [] | Some f \<Rightarrow> [LogWaiter f]) @ waiter_logs ws"

definition complete_group_request :: "u64 \<Rightarrow> HttpRequestManager \<Rightarrow> HttpRequestManager" where
  "complete_group_request g m =
     (if g = 0 then m
      else case map_of (m_group_request_counts m) g of
        None \<Rightarrow> m
      | Some n \<Rightarrow>
          if n > 1 then m\<lparr>m_group_request_counts := AList.update g (n - 1) (m_group_request_counts m)\<rparr>
          else
            let m1 = m\<lparr>m_group_request_counts := AList.delete g (m_group_request_counts m)\<rparr>
            in case map_of (m_group_waiters m1) g of
                 None \<Rightarrow> m1
               | Some ws \<Rightarrow>
                   hm_logs (waiter_logs ws) (m1\<lparr>m_group_waiters := AList.delete g (m_group_waiters m1)\<rparr>))"

definition notify_group_waiters_if_idle :: "HttpRequestManager \<Rightarrow> HttpRequestManager" where
  "notify_group_waiters_if_idle m =
     (let idle = (\<lambda>(g, _). group_request_count_unlocked g m = 0);
          ready_waiters = filter idle (m_group_waiters m)
      in hm_logs (concat (map (\<lambda>(_, ws). waiter_logs ws) ready_waiters))
           (m\<lparr>m_group_waiters := filter (\<lambda>x. \<not> idle x) (m_group_waiters m)\<rparr>))"

definition notify_all_group_waiters :: "HttpRequestManager \<Rightarrow> HttpRequestManager" where
  "notify_all_group_waiters m =
     hm_logs (concat (map (\<lambda>(_, ws). waiter_logs ws) (m_group_waiters m))) (m\<lparr>m_group_waiters := []\<rparr>)"

definition wait_requests_by_group_id :: "u64 \<Rightarrow> cb option \<Rightarrow> HttpRequestManager \<Rightarrow> HttpRequestManager \<times> u64" where
  "wait_requests_by_group_id g f m =
     (if m_shutdown m \<or> g = 0 \<or> group_request_count_unlocked g m = 0
      then (case f of None \<Rightarrow> m | Some c \<Rightarrow> hm_logs [LogWaiter c] m, 0)
      else
        let waiter_id = m_waiter_id_counter m;
            ws = (case map_of (m_group_waiters m) g of None \<Rightarrow> [] | Some ws \<Rightarrow> ws)
        in (m\<lparr>m_waiter_id_counter := waiter_id + 1,
              m_group_waiters := AList.update g (ws @ [\<lparr>gw_id = waiter_id, gw_callback = f\<rparr>]) (m_group_waiters m)\<rparr>,
            waiter_id))"

fun remove_waiter :: "u64 \<Rightarrow> GroupWaiter list \<Rightarrow> GroupWaiter list option" where
  "remove_waiter i [] = None"
| "remove_waiter i (w # ws) = (if gw_id w \<noteq> i then map_option (Cons w) (remove_waiter i ws) else Some ws)"

definition cancel_wait_requests_by_group_id :: "u64 \<Rightarrow> u64 \<Rightarrow> HttpRequestManager \<Rightarrow> HttpRequestManager \<times> bool" where
  "cancel_wait_requests_by_group_id g waiter_id m =
     (if g = 0 \<or> waiter_id = 0 then (m, False)
      else case map_of (m_group_waiters m) g of
        None \<Rightarrow> (m, False)
      | Some waiters \<Rightarrow>
          (case remove_waiter waiter_id waiters of
             None \<Rightarrow> (m, False)
           | Some ws \<Rightarrow>
               (m\<lparr>m_group_waiters := (if ws = [] then AList.delete g (m_group_waiters m)
                                      else AList.update g ws (m_group_waiters m))\<rparr>, True)))"

section \<open>Request contexts\<close>

definition invoke_callback :: "HttpRequestContext \<Rightarrow> HttpResponse \<Rightarrow> HttpRequestManager \<Rightarrow> HttpRequestManager" where
  "invoke_callback ctx response m =
     (case callback ctx of
        None \<Rightarrow> m
      | Some f \<Rightarrow> hm_logs [LogResponse f (in_flight_token ctx) response] m)"

definition run_on_complete :: "release_args option \<Rightarrow> HttpRequestManager \<Rightarrow> HttpRequestManager" where
  "run_on_complete f m =
     (case f of
        None \<Rightarrow> m
      | Some a \<Rightarrow> on_limiter (release_request (ra_general a) (ra_specific a) (ra_token a)
                    (ra_general_key a) (ra_specific_key a)) m)"

definition complete :: "HttpRequestContext \<Rightarrow> HttpRequestManager \<Rightarrow> HttpRequestContext \<times> HttpRequestManager" where
  "complete ctx m =
     (if complete_called ctx then (ctx, m)
      else
        let m1 = run_on_complete (on_complete ctx) (hm_logs [LogComplete (in_flight_token ctx) (callback ctx)] m);
            m2 = (case on_group_complete ctx of None \<Rightarrow> m1 | Some g \<Rightarrow> complete_group_request g m1)
        in (ctx\<lparr>complete_called := True\<rparr>, m2))"

definition invoke_final_callback ::
    "HttpRequestContext \<Rightarrow> HttpResponse \<Rightarrow> HttpRequestManager \<Rightarrow> HttpRequestContext \<times> HttpRequestManager" where
  "invoke_final_callback ctx response m = complete ctx (invoke_callback ctx response m)"

text \<open>Destroying a context releases the copies of the rate-limit handles held by its completion
  closure and by its request.\<close>

definition drop_request :: "HttpRequest \<Rightarrow> HttpRequestManager \<Rightarrow> HttpRequestManager" where
  "drop_request r m = on_limiter (drop_handle (specific_rate_limit r) \<circ> drop_handle (general_rate_limit r)) m"

definition drop_release_args :: "release_args option \<Rightarrow> HttpRequestManager \<Rightarrow> HttpRequestManager" where
  "drop_release_args f m =
     (case f of None \<Rightarrow> m | Some a \<Rightarrow> on_limiter (drop_handle (ra_specific a) \<circ> drop_handle (ra_general a)) m)"

definition destroy_context :: "HttpRequestContext \<Rightarrow> HttpRequestManager \<Rightarrow> HttpRequestManager" where
  "destroy_context ctx m =
     (case request ctx of None \<Rightarrow> id | Some r \<Rightarrow> drop_request r) (drop_release_args (on_complete ctx) m)"

text \<open>A final callback to a context that is destroyed next.\<close>

definition finish_context :: "HttpResponse \<Rightarrow> HttpRequestContext \<Rightarrow> HttpRequestManager \<Rightarrow> HttpRequestManager" where
  "finish_context response ctx m =
     (let (ctx', m') = invoke_final_callback ctx response m in destroy_context ctx' m')"

text \<open>Final callbacks to a list of contexts that all live on until the list is destroyed.\<close>

definition deliver_final :: "HttpResponse \<Rightarrow> HttpRequestContext \<Rightarrow> HttpRequestManager \<Rightarrow> HttpRequestManager" where
  "deliver_final response ctx m = snd (invoke_final_callback ctx response m)"

definition finish_contexts :: "HttpResponse \<Rightarrow> HttpRequestContext list \<Rightarrow> HttpRequestManager \<Rightarrow> HttpRequestManager" where
  "finish_contexts response ctxs m = fold destroy_context ctxs (fold (deliver_final response) ctxs m)"

section \<open>Request handlers\<close>

record CURLMsg =
  msg_done :: bool
  easy_handle :: nat
  msg_result :: int
  msg_response_code :: int
  msg_error_buffer :: string
  msg_timings :: response_timings
  msg_now :: time_point

definition CURLE_OPERATION_TIMEDOUT :: int where "CURLE_OPERATION_TIMEDOUT = 28"

definition HttpRequestHandler_new :: "nat option \<Rightarrow> HttpRequestContext \<Rightarrow> HttpRequestHandler" where
  "HttpRequestHandler_new curl ctx =
     \<lparr>m_request_context = Some ctx, m_response = Some HttpResponse_default, m_curl = curl,
      m_callback_called = False, m_has_stream_chunk = False, m_done = False\<rparr>"

definition get_request_id :: "HttpRequestHandler \<Rightarrow> u64" where
  "get_request_id h =
     (case m_request_context h of
        None \<Rightarrow> 0
      | Some ctx \<Rightarrow> (case request ctx of None \<Rightarrow> 0 | Some r \<Rightarrow> request_id r))"

definition get_group_id :: "HttpRequestHandler \<Rightarrow> u64" where
  "get_group_id h =
     (case m_request_context h of
        None \<Rightarrow> 0
      | Some ctx \<Rightarrow> (case request ctx of None \<Rightarrow> 0 | Some r \<Rightarrow> group_id r))"

text \<open>libcurl calls this only while the transfer runs, when the response is present.\<close>

definition parse_http_response_header :: "string \<Rightarrow> HttpRequestHandler \<Rightarrow> HttpRequestHandler" where
  "parse_http_response_header buffer h =
     (let (key, value) = parse_http_header_pair buffer ([], [])
      in if key = [] then h
         else case m_response h of
           None \<Rightarrow> h
         | Some r \<Rightarrow> h\<lparr>m_response := Some (r\<lparr>rs_headers := multimap_emplace key value (rs_headers r)\<rparr>)\<rparr>)"

definition emit_stream_chunk ::
    "string \<Rightarrow> int \<Rightarrow> HttpRequestHandler \<Rightarrow> HttpRequestManager \<Rightarrow> HttpRequestHandler \<times> HttpRequestManager" where
  "emit_stream_chunk data code h m =
     (case m_request_context h of
        None \<Rightarrow> (h, m)
      | Some ctx \<Rightarrow>
          (case request ctx of
             None \<Rightarrow> (h, m)
           | Some rq \<Rightarrow>
               if data = [] \<or> \<not> streaming rq \<or> callback ctx = None then (h, m)
               else
                 let chunk = HttpResponse_default
                       \<lparr>rs_headers := (case m_response h of None \<Rightarrow> [] | Some r \<Rightarrow> rs_headers r),
                        rs_content := data, rs_retry_attempt := retry_attempt ctx + 1, ready := False,
                        stream_chunk := True, status_code := (case m_curl h of None \<Rightarrow> 0 | Some _ \<Rightarrow> code)\<rparr>
                 in (h\<lparr>m_has_stream_chunk := True\<rparr>, invoke_callback ctx chunk m)))"

definition write_response_body ::
    "string \<Rightarrow> int \<Rightarrow> HttpRequestHandler \<Rightarrow> HttpRequestManager \<Rightarrow> HttpRequestHandler \<times> HttpRequestManager" where
  "write_response_body data code h m =
     (let h1 = (case m_response h of
                  None \<Rightarrow> h
                | Some r \<Rightarrow> h\<lparr>m_response := Some (r\<lparr>rs_content := rs_content r @ data\<rparr>)\<rparr>)
      in emit_stream_chunk data code h1 m)"

text \<open>The status, error and attempt number a finished transfer gives the response, and whether it is
  tried again.\<close>

definition message_response :: "CURLMsg \<Rightarrow> HttpResponse \<Rightarrow> HttpResponse" where
  "message_response msg r =
     (let code1 = (if msg_result msg = CURLE_OPERATION_TIMEDOUT then 499 else msg_response_code msg);
          code2 = (if code1 = 0 \<and> msg_result msg \<noteq> CURLE_OK then 451 else code1)
      in r\<lparr>rs_error_message := msg_error_buffer msg, status_code := code2,
           rs_error_code := (if msg_result msg \<noteq> CURLE_OK then curl_error (msg_result msg)
                             else if code2 \<ge> 400 then make_http_error code2 else no_error)\<rparr>)"

definition should_retry :: "CURLMsg \<Rightarrow> HttpRequest \<Rightarrow> int \<Rightarrow> int \<Rightarrow> bool \<Rightarrow> bool" where
  "should_retry msg rq status attempt has_stream_chunk =
     (retry_attempts rq \<noteq> 0 \<and>
      (msg_result msg \<noteq> CURLE_OK \<or> status \<notin> valid_statuses rq) \<and>
      attempt < retry_attempts rq \<and> \<not> has_stream_chunk)"

definition handle_curl_message ::
    "CURLMsg \<Rightarrow> HttpRequestHandler \<Rightarrow> HttpRequestManager \<Rightarrow> HttpRequestHandler \<times> HttpRequestManager \<times> bool" where
  "handle_curl_message msg h m =
     (case m_response h of
        None \<Rightarrow> (h, m, True)
      | Some r0 \<Rightarrow>
          (case m_request_context h of
             None \<Rightarrow> (h, hm_logs [LogNullDeref] m, True)
           | Some ctx0 \<Rightarrow>
               (case request ctx0 of
                  None \<Rightarrow> (h, hm_logs [LogNullDeref] m, True)
                | Some rq \<Rightarrow>
                    let r1 = message_response msg r0;
                        attempt = retry_attempt ctx0 + 1;
                        ctx1 = ctx0\<lparr>retry_attempt := attempt\<rparr>;
                        r2 = r1\<lparr>rs_retry_attempt := attempt\<rparr>
                    in if \<not> should_retry msg rq (status_code r2) attempt (m_has_stream_chunk h)
                       then
                         let r3 = r2\<lparr>rs_timings := msg_timings msg, ready := True\<rparr>;
                             (ctx2, m1) = invoke_final_callback ctx1 r3 m
                         in (h\<lparr>m_callback_called := True, m_done := True, m_response := None,
                               m_request_context := Some ctx2\<rparr>, m1, True)
                       else
                         let ctx2 = ctx1\<lparr>start_time := msg_now msg\<rparr>
                         in (h\<lparr>m_callback_called := True, m_response := None,
                               m_request_context := Some ctx2\<rparr>, invoke_callback ctx2 r2 m, False))))"

definition handler_cancel ::
    "HttpRequestHandler \<Rightarrow> HttpRequestManager \<Rightarrow> HttpRequestHandler \<times> HttpRequestManager" where
  "handler_cancel h m =
     (if m_callback_called h then (h, m)
      else case m_response h of
        None \<Rightarrow> (h, hm_logs [LogNullDeref] m)
      | Some r \<Rightarrow>
          let r1 = r\<lparr>rs_error_code := client_error CancelledByUser, status_code := 499, ready := True\<rparr>;
              h1 = h\<lparr>m_callback_called := True, m_done := True, m_response := Some r1\<rparr>
          in case m_request_context h1 of
               None \<Rightarrow> (h1, m)
             | Some ctx \<Rightarrow>
                 let (ctx', m') = invoke_final_callback ctx r1 m
                 in (h1\<lparr>m_response := None, m_request_context := Some ctx'\<rparr>, m'))"

text \<open>The destructor, which delivers an error when the request got no callback yet, and then the
  destruction of the context.\<close>

definition destroy_handler :: "HttpRequestHandler \<Rightarrow> HttpRequestManager \<Rightarrow> HttpRequestManager" where
  "destroy_handler h m =
     (case m_request_context h of
        None \<Rightarrow> m
      | Some ctx \<Rightarrow>
          (case m_response h of
             Some r \<Rightarrow>
               if \<not> m_callback_called h
               then finish_context
                      (r\<lparr>rs_error_code := client_error AbortedDuringDestruction, status_code := 499, ready := True\<rparr>) ctx m
               else destroy_context ctx m
           | None \<Rightarrow> destroy_context ctx m))"

section \<open>Batches\<close>

datatype transfer = BodyData nat string int | HeaderLine nat string

record curl_input =
  transfers :: "transfer list"
  perform_ok :: bool
  messages :: "CURLMsg list"
  still_running :: int

record http_env =
  now_allow :: "nat \<Rightarrow> time_point"
  batch_alloc_ok :: bool
  multi_init_ok :: bool
  easy_init :: "HttpRequestContext \<Rightarrow> nat option"
  curl :: "nat \<Rightarrow> curl_input"
  now_retry :: "nat \<Rightarrow> time_point"

fun make_handlers ::
    "(HttpRequestContext \<Rightarrow> nat option) \<Rightarrow> HttpRequestContext list \<Rightarrow> HttpRequestManager \<Rightarrow>
     HttpRequestHandler list \<times> HttpRequestManager" where
  "make_handlers ini [] m = ([], m)"
| "make_handlers ini (ctx # rest) m =
     (case ini ctx of
        None \<Rightarrow> make_handlers ini rest (finish_context aborted_response ctx m)
      | Some c \<Rightarrow>
          let (hs, m') = make_handlers ini rest m in (HttpRequestHandler_new (Some c) ctx # hs, m'))"

definition HttpBatchRequestHandler_new ::
    "http_env \<Rightarrow> HttpRequestContext list \<Rightarrow> HttpRequestManager \<Rightarrow> HttpBatchRequestHandler \<times> HttpRequestManager" where
  "HttpBatchRequestHandler_new env context_list m =
     (if \<not> multi_init_ok env
      then (\<lparr>m_multi_handle = False, m_handlers = [], b_failed_requests = []\<rparr>,
            fold (finish_context aborted_response) context_list m)
      else
        let (hs, m') = make_handlers (easy_init env) context_list m
        in (\<lparr>m_multi_handle = True, m_handlers = hs, b_failed_requests = []\<rparr>, m'))"

text \<open>A callback of libcurl, or a finished transfer, concerns the handler that owns the easy
  handle.\<close>

fun update_handler ::
    "nat \<Rightarrow> (HttpRequestHandler \<Rightarrow> HttpRequestManager \<Rightarrow> HttpRequestHandler \<times> HttpRequestManager) \<Rightarrow>
     HttpRequestHandler list \<Rightarrow> HttpRequestManager \<Rightarrow> HttpRequestHandler list \<times> HttpRequestManager" where
  "update_handler c f [] m = ([], m)"
| "update_handler c f (h # hs) m =
     (if m_curl h = Some c then (let (h', m') = f h m in (h' # hs, m'))
      else (let (hs', m') = update_handler c f hs m in (h # hs', m')))"

fun run_transfer :: "transfer \<Rightarrow> HttpRequestHandler list \<Rightarrow> HttpRequestManager \<Rightarrow> HttpRequestHandler list \<times> HttpRequestManager" where
  "run_transfer (BodyData c data code) hs m = update_handler c (write_response_body data code) hs m"
| "run_transfer (HeaderLine c buffer) hs m = update_handler c (\<lambda>h m. (parse_http_response_header buffer h, m)) hs m"

fun run_transfers :: "transfer list \<Rightarrow> HttpRequestHandler list \<Rightarrow> HttpRequestManager \<Rightarrow> HttpRequestHandler list \<times> HttpRequestManager" where
  "run_transfers [] hs m = (hs, m)"
| "run_transfers (t # ts) hs m = (let (hs', m') = run_transfer t hs m in run_transfers ts hs' m')"

text \<open>\<open>handle_completed_request\<close> on the list of handlers: the result is the new list, the contexts to
  be tried again, and the manager.\<close>

fun handle_completed_request ::
    "CURLMsg \<Rightarrow> HttpRequestHandler list \<Rightarrow> HttpRequestManager \<Rightarrow>
     HttpRequestHandler list \<times> HttpRequestContext list \<times> HttpRequestManager" where
  "handle_completed_request msg [] m = ([], [], m)"
| "handle_completed_request msg (h # hs) m =
     (if m_curl h = Some (easy_handle msg)
      then
        let (h1, m1, completed) = handle_curl_message msg h m
        in if completed then (h1 # hs, [], m1)
           else (h1\<lparr>m_done := True, m_request_context := None\<rparr> # hs,
                 (case m_request_context h1 of None \<Rightarrow> [] | Some ctx \<Rightarrow> [ctx]), m1)
      else
        let (hs', failed, m') = handle_completed_request msg hs m in (h # hs', failed, m'))"

fun handle_messages ::
    "CURLMsg list \<Rightarrow> HttpRequestHandler list \<Rightarrow> HttpRequestManager \<Rightarrow>
     HttpRequestHandler list \<times> HttpRequestContext list \<times> HttpRequestManager" where
  "handle_messages [] hs m = (hs, [], m)"
| "handle_messages (msg # msgs) hs m =
     (if \<not> msg_done msg then handle_messages msgs hs m
      else
        let (hs1, f1, m1) = handle_completed_request msg hs m;
            (hs2, f2, m2) = handle_messages msgs hs1 m1
        in (hs2, f1 @ f2, m2))"

text \<open>Without a multi handle every handler gives up its context with an error.\<close>

definition abort_handler :: "HttpRequestHandler \<Rightarrow> HttpRequestManager \<Rightarrow> HttpRequestManager" where
  "abort_handler h m =
     (case m_request_context h of None \<Rightarrow> m | Some ctx \<Rightarrow> finish_context aborted_response ctx m)"

definition batch_process ::
    "curl_input \<Rightarrow> HttpBatchRequestHandler \<Rightarrow> HttpRequestManager \<Rightarrow> HttpBatchRequestHandler \<times> HttpRequestManager \<times> bool" where
  "batch_process inp b m =
     (if \<not> m_multi_handle b
      then (b\<lparr>m_handlers := []\<rparr>, fold abort_handler (m_handlers b) m, True)
      else
        let (hs1, m1) = run_transfers (transfers inp) (m_handlers b) m
        in if \<not> perform_ok inp then (b\<lparr>m_handlers := hs1\<rparr>, m1, False)
           else
             let (hs2, failed, m2) = handle_messages (messages inp) hs1 m1;
                 b1 = b\<lparr>m_handlers := hs2, b_failed_requests := b_failed_requests b @ failed\<rparr>
             in if still_running inp = 0
                then (b1\<lparr>m_handlers := []\<rparr>, fold destroy_handler hs2 m2, True)
                else (b1, m2, False))"

definition handler_matches :: "cancel_map_t \<Rightarrow> cancel_map_t \<Rightarrow> HttpRequestHandler \<Rightarrow> bool" where
  "handler_matches requests_to_cancel groups_to_cancel h =
     (get_request_id h \<noteq> 0 \<and> map_of requests_to_cancel (get_request_id h) \<noteq> None \<or>
      get_group_id h \<noteq> 0 \<and> map_of groups_to_cancel (get_group_id h) \<noteq> None)"

fun batch_cancel_loop ::
    "cancel_map_t \<Rightarrow> cancel_map_t \<Rightarrow> HttpRequestHandler list \<Rightarrow> HttpRequestManager \<Rightarrow>
     HttpRequestHandler list \<times> HttpRequestManager" where
  "batch_cancel_loop rs gs [] m = ([], m)"
| "batch_cancel_loop rs gs (h # hs) m =
     (if \<not> handler_matches rs gs h
      then (let (hs', m') = batch_cancel_loop rs gs hs m in (h # hs', m'))
      else
        let (h1, m1) = handler_cancel h m
        in batch_cancel_loop rs gs hs (destroy_handler h1 m1))"

definition batch_cancel_requests ::
    "cancel_map_t \<Rightarrow> cancel_map_t \<Rightarrow> HttpBatchRequestHandler \<Rightarrow> HttpRequestManager \<Rightarrow>
     HttpBatchRequestHandler \<times> HttpRequestManager" where
  "batch_cancel_requests rs gs b m =
     (let (hs, m') = batch_cancel_loop rs gs (m_handlers b) m in (b\<lparr>m_handlers := hs\<rparr>, m'))"

definition batch_group_request_count :: "u64 \<Rightarrow> HttpBatchRequestHandler \<Rightarrow> nat" where
  "batch_group_request_count g b =
     (if g = 0 then 0 else length (filter (\<lambda>h. \<not> m_done h \<and> get_group_id h = g) (m_handlers b)))"

definition batch_has_group_id :: "u64 \<Rightarrow> HttpBatchRequestHandler \<Rightarrow> bool" where
  "batch_has_group_id g b = (batch_group_request_count g b \<noteq> 0)"

text \<open>Destroying a batch destroys the contexts waiting in it for a retry, without a callback, and
  then its handlers.\<close>

definition destroy_batch :: "HttpBatchRequestHandler \<Rightarrow> HttpRequestManager \<Rightarrow> HttpRequestManager" where
  "destroy_batch b m = fold destroy_handler (m_handlers b) (fold destroy_context (b_failed_requests b) m)"

section \<open>The manager\<close>

text \<open>\<open>push_ok\<close> says whether the list could allocate its node; the result \<open>None\<close> is the exception
  that is thrown again.\<close>

definition submit_request ::
    "bool \<Rightarrow> HttpRequest option \<Rightarrow> cb option \<Rightarrow> HttpRequestManager \<Rightarrow> HttpRequestManager \<times> SubmitResult option" where
  "submit_request push_ok request_ptr f m =
     (let reject = (\<lambda>e. (case request_ptr of None \<Rightarrow> m | Some r \<Rightarrow> drop_request r m,
                         Some (submit_result False (client_error e))))
      in if m_shutdown m then reject ShuttingDown
         else if m_max_pending_requests m \<noteq> 0 \<and> length (m_pending_requests m) \<ge> m_max_pending_requests m
         then reject QueueLimitExceeded
         else
           let token = m_next_in_flight_token m;
               g = (case request_ptr of None \<Rightarrow> 0 | Some r \<Rightarrow> group_id r);
               ctx = \<lparr>request = request_ptr, callback = f, retry_attempt = 0, start_time = 0,
                      in_flight_token = token, on_complete = None,
                      on_group_complete = (if g \<noteq> 0 then Some g else None), complete_called = False\<rparr>;
               m1 = m\<lparr>m_next_in_flight_token := token + 1\<rparr>;
               m2 = (if g \<noteq> 0
                     then m1\<lparr>m_group_request_counts :=
                               AList.update g (group_request_count_unlocked g m1 + 1) (m_group_request_counts m1)\<rparr>
                     else m1)
           in if push_ok
              then (m2\<lparr>m_pending_requests := m_pending_requests m2 @ [ctx]\<rparr>, Some (submit_result True no_error))
              else
                let m3 = (if g = 0 then m2
                          else case map_of (m_group_request_counts m2) g of
                            None \<Rightarrow> m2
                          | Some n \<Rightarrow>
                              if n > 1
                              then m2\<lparr>m_group_request_counts := AList.update g (n - 1) (m_group_request_counts m2)\<rparr>
                              else m2\<lparr>m_group_request_counts := AList.delete g (m_group_request_counts m2)\<rparr>)
                in (destroy_context ctx m3, None))"

definition add_request ::
    "bool \<Rightarrow> HttpRequest option \<Rightarrow> cb option \<Rightarrow> HttpRequestManager \<Rightarrow> HttpRequestManager \<times> bool option" where
  "add_request push_ok request_ptr f m =
     (let (m', r) = submit_request push_ok request_ptr f m in (m', map_option accepted r))"

definition generate_request_id :: "HttpRequestManager \<Rightarrow> HttpRequestManager \<times> u64" where
  "generate_request_id m = (m\<lparr>m_request_id_counter := m_request_id_counter m + 1\<rparr>, m_request_id_counter m)"

definition generate_group_id :: "HttpRequestManager \<Rightarrow> HttpRequestManager \<times> u64" where
  "generate_group_id m = (m\<lparr>m_group_id_counter := m_group_id_counter m + 1\<rparr>, m_group_id_counter m)"

definition set_max_pending_requests :: "nat \<Rightarrow> HttpRequestManager \<Rightarrow> HttpRequestManager" where
  "set_max_pending_requests n m = m\<lparr>m_max_pending_requests := n\<rparr>"

definition create_rate_limit :: "int \<Rightarrow> int \<Rightarrow> bool \<Rightarrow> HttpRequestManager \<Rightarrow> HttpRequestManager \<times> HttpRateLimitHandlePtr" where
  "create_rate_limit rpp per seq m =
     (let (rl, h) = create_limit_handle rpp per seq (hm_rate_limiter m) in (m\<lparr>hm_rate_limiter := rl\<rparr>, h))"

definition get_rate_limit :: "int \<Rightarrow> HttpRequestManager \<Rightarrow> HttpRequestManager \<times> HttpRateLimitHandlePtr" where
  "get_rate_limit i m =
     (let (rl, h) = get_limit i (hm_rate_limiter m) in (m\<lparr>hm_rate_limiter := rl\<rparr>, h))"

definition hm_remove_limit :: "int \<Rightarrow> HttpRequestManager \<Rightarrow> HttpRequestManager \<times> bool" where
  "hm_remove_limit i m =
     (let (rl, ok) = remove_limit i (hm_rate_limiter m) in (m\<lparr>hm_rate_limiter := rl\<rparr>, ok))"

definition hm_remove_limit_handle :: "HttpRateLimitHandlePtr \<Rightarrow> HttpRequestManager \<Rightarrow> HttpRequestManager \<times> bool" where
  "hm_remove_limit_handle h m =
     (let (rl, ok) = remove_limit_handle h (hm_rate_limiter m) in (m\<lparr>hm_rate_limiter := rl\<rparr>, ok))"

definition hm_allow_request ::
    "HttpRateLimitHandlePtr \<Rightarrow> HttpRateLimitHandlePtr \<Rightarrow> u64 \<Rightarrow> string \<Rightarrow> string \<Rightarrow> time_point \<Rightarrow>
     HttpRequestManager \<Rightarrow> HttpRequestManager \<times> bool" where
  "hm_allow_request general_limit specific_limit token general_key specific_key now m =
     (let (rl, ok) = allow_request general_limit specific_limit token general_key specific_key now (hm_rate_limiter m)
      in (m\<lparr>hm_rate_limiter := rl\<rparr>, ok))"

definition hm_release_request ::
    "HttpRateLimitHandlePtr \<Rightarrow> HttpRateLimitHandlePtr \<Rightarrow> u64 \<Rightarrow> string \<Rightarrow> string \<Rightarrow>
     HttpRequestManager \<Rightarrow> HttpRequestManager" where
  "hm_release_request general_limit specific_limit token general_key specific_key m =
     on_limiter (release_request general_limit specific_limit token general_key specific_key) m"

definition hm_time_until_next_allowed ::
    "HttpRateLimitHandlePtr \<Rightarrow> HttpRateLimitHandlePtr \<Rightarrow> string \<Rightarrow> string \<Rightarrow> time_point \<Rightarrow>
     HttpRequestManager \<Rightarrow> RateLimitDelay" where
  "hm_time_until_next_allowed general_limit specific_limit general_key specific_key now m =
     time_until_next_allowed general_limit specific_limit general_key specific_key now (hm_rate_limiter m)"

definition max_pending_requests :: "HttpRequestManager \<Rightarrow> nat" where
  "max_pending_requests m = m_max_pending_requests m"

definition push_cancel :: "u64 \<Rightarrow> cb option \<Rightarrow> cancel_map_t \<Rightarrow> cancel_map_t" where
  "push_cancel i f c =
     AList.update i ((case map_of c i of None \<Rightarrow> [] | Some fs \<Rightarrow> fs) @ [f]) c"

definition cancelled_log :: "cb option \<Rightarrow> http_log list" where
  "cancelled_log f = (case f of None \<Rightarrow> [] | Some c \<Rightarrow> [LogCancelled c])"

definition cancel_request_by_id :: "u64 \<Rightarrow> cb option \<Rightarrow> HttpRequestManager \<Rightarrow> HttpRequestManager" where
  "cancel_request_by_id i f m =
     (if m_shutdown m \<or> i = 0 then hm_logs (cancelled_log f) m
      else m\<lparr>m_requests_to_cancel_by_id := push_cancel i f (m_requests_to_cancel_by_id m)\<rparr>)"

definition cancel_requests_by_group_id :: "u64 \<Rightarrow> cb option \<Rightarrow> HttpRequestManager \<Rightarrow> HttpRequestManager" where
  "cancel_requests_by_group_id g f m =
     (if m_shutdown m \<or> g = 0 then hm_logs (cancelled_log f) m
      else if group_request_count_unlocked g m = 0 then hm_logs (cancelled_log f) m
      else m\<lparr>m_groups_to_cancel := push_cancel g f (m_groups_to_cancel m)\<rparr>)"

text \<open>
  The scan of the pending requests: the contexts that stay, those that fail for want of a request,
  those that start, and the limiter. The code builds the new completion closure, with its copies of
  the handles, before it asks the limiter, and puts the old one back when the request is refused;
  the copies made and dropped in between cancel out, since the request keeps its own, so the model
  makes them when the request is allowed.
\<close>

definition context_release_args :: "HttpRequestContext \<Rightarrow> HttpRequest \<Rightarrow> release_args" where
  "context_release_args ctx r =
     \<lparr>ra_general = general_rate_limit r, ra_specific = specific_rate_limit r, ra_token = in_flight_token ctx,
      ra_general_key = general_rate_limit_key r, ra_specific_key = specific_rate_limit_key r\<rparr>"

definition arm_context :: "HttpRequestContext \<Rightarrow> HttpRequest \<Rightarrow> HttpRateLimiter \<Rightarrow> HttpRequestContext \<times> HttpRateLimiter" where
  "arm_context ctx r rl =
     (let rl1 = copy_handle (specific_rate_limit r) (copy_handle (general_rate_limit r) rl);
          rl2 = (case on_complete ctx of
                   None \<Rightarrow> rl1
                 | Some a \<Rightarrow> drop_handle (ra_specific a) (drop_handle (ra_general a) rl1))
      in (ctx\<lparr>on_complete := Some (context_release_args ctx r)\<rparr>, rl2))"

fun scan_pending ::
    "(nat \<Rightarrow> time_point) \<Rightarrow> nat \<Rightarrow> HttpRequestContext list \<Rightarrow> HttpRateLimiter \<Rightarrow>
     HttpRequestContext list \<times> HttpRequestContext list \<times> HttpRequestContext list \<times> HttpRateLimiter" where
  "scan_pending now k [] rl = ([], [], [], rl)"
| "scan_pending now k (ctx # rest) rl =
     (case request ctx of
        None \<Rightarrow>
          let (kept, failed, ready, rl') = scan_pending now k rest rl in (kept, ctx # failed, ready, rl')
      | Some r \<Rightarrow>
          let (rl1, allowed) = allow_request (general_rate_limit r) (specific_rate_limit r) (in_flight_token ctx)
                 (general_rate_limit_key r) (specific_rate_limit_key r) (now k) rl
          in if \<not> allowed
             then
               let (kept, failed, ready, rl') = scan_pending now (k + 1) rest rl1
               in (ctx # kept, failed, ready, rl')
             else
               let (ctx1, rl2) = arm_context ctx r rl1;
                   (kept, failed, ready, rl') = scan_pending now (k + 1) rest rl2
               in (kept, failed, ctx1 # ready, rl'))"

definition bad_request_response :: HttpResponse where
  "bad_request_response = error_response (curl_error CURLE_OK) 400"

definition process_pending_requests :: "http_env \<Rightarrow> HttpRequestManager \<Rightarrow> HttpRequestManager" where
  "process_pending_requests env m =
     (if m_pending_requests m = [] then m
      else
        let (kept, failed, ready, rl) = scan_pending (now_allow env) 0 (m_pending_requests m) (hm_rate_limiter m);
            m1 = m\<lparr>m_pending_requests := kept, hm_rate_limiter := rl\<rparr>;
            m2 = finish_contexts bad_request_response failed m1
        in if ready = [] then m2
           else if \<not> batch_alloc_ok env then finish_contexts aborted_response ready m2
           else
             let (b, m3) = HttpBatchRequestHandler_new env ready m2
             in m3\<lparr>m_active_request_batches := m_active_request_batches m3 @ [b]\<rparr>)"

text \<open>The batches are worked on one after the other; \<open>kept\<close> are those before the iterator.\<close>

fun process_batches ::
    "(nat \<Rightarrow> curl_input) \<Rightarrow> nat \<Rightarrow> HttpBatchRequestHandler list \<Rightarrow> HttpRequestManager \<Rightarrow>
     HttpBatchRequestHandler list \<times> HttpRequestContext list \<times> HttpRequestManager" where
  "process_batches inp k [] m = ([], [], m)"
| "process_batches inp k (b # bs) m =
     (let (b1, m1, finished) = batch_process (inp k) b m
      in if \<not> finished
         then (let (bs', f, m') = process_batches inp (k + 1) bs m1 in (b1 # bs', f, m'))
         else
           let m2 = destroy_batch (b1\<lparr>b_failed_requests := []\<rparr>) m1;
               (bs', f, m') = process_batches inp (k + 1) bs m2
           in (bs', b_failed_requests b1 @ f, m'))"

definition process_active_requests :: "http_env \<Rightarrow> HttpRequestManager \<Rightarrow> HttpRequestManager" where
  "process_active_requests env m =
     (let (bs, failed, m1) = process_batches (curl env) 0 (m_active_request_batches m) m
      in m1\<lparr>m_active_request_batches := bs, m_failed_requests := m_failed_requests m1 @ failed\<rparr>)"

fun retry_scan ::
    "(nat \<Rightarrow> time_point) \<Rightarrow> nat \<Rightarrow> HttpRequestContext list \<Rightarrow>
     HttpRequestContext list \<times> HttpRequestContext list \<times> HttpRequestContext list" where
  "retry_scan now k [] = ([], [], [])"
| "retry_scan now k (ctx # rest) =
     (case request ctx of
        None \<Rightarrow>
          let (kept, again, dropped) = retry_scan now k rest in (kept, again, ctx # dropped)
      | Some r \<Rightarrow>
          let (kept, again, dropped) = retry_scan now (k + 1) rest
          in if duration_ms (now k - start_time ctx) \<ge> retry_delay_ms r
             then (kept, ctx # again, dropped)
             else (ctx # kept, again, dropped))"

definition process_retry_failed_requests :: "http_env \<Rightarrow> HttpRequestManager \<Rightarrow> HttpRequestManager" where
  "process_retry_failed_requests env m =
     (let (kept, again, dropped) = retry_scan (now_retry env) 0 (m_failed_requests m)
      in fold destroy_context dropped
           (m\<lparr>m_failed_requests := kept, m_pending_requests := m_pending_requests m @ again\<rparr>))"

definition matches_cancel :: "HttpRequestContext \<Rightarrow> cancel_map_t \<Rightarrow> cancel_map_t \<Rightarrow> bool" where
  "matches_cancel ctx rs gs =
     (case request ctx of
        None \<Rightarrow> False
      | Some r \<Rightarrow>
          request_id r \<noteq> 0 \<and> map_of rs (request_id r) \<noteq> None \<or>
          group_id r \<noteq> 0 \<and> map_of gs (group_id r) \<noteq> None)"

definition cancel_callbacks :: "cancel_map_t \<Rightarrow> http_log list" where
  "cancel_callbacks c = concat (map (\<lambda>(_, fs). concat (map cancelled_log fs)) c)"

fun cancel_batches ::
    "cancel_map_t \<Rightarrow> cancel_map_t \<Rightarrow> HttpBatchRequestHandler list \<Rightarrow> HttpRequestManager \<Rightarrow>
     HttpBatchRequestHandler list \<times> HttpRequestManager" where
  "cancel_batches rs gs [] m = ([], m)"
| "cancel_batches rs gs (b # bs) m =
     (let (b1, m1) = batch_cancel_requests rs gs b m;
          (bs', m') = cancel_batches rs gs bs m1
      in (b1 # bs', m'))"

definition process_cancel_requests :: "HttpRequestManager \<Rightarrow> HttpRequestManager" where
  "process_cancel_requests m =
     (if m_requests_to_cancel_by_id m = [] \<and> m_groups_to_cancel m = [] then m
      else
        let rs = m_requests_to_cancel_by_id m;
            gs = m_groups_to_cancel m;
            hit = (\<lambda>ctx. matches_cancel ctx rs gs);
            m1 = m\<lparr>m_requests_to_cancel_by_id := [], m_groups_to_cancel := [],
                   m_pending_requests := filter (\<lambda>ctx. \<not> hit ctx) (m_pending_requests m)\<rparr>;
            m2 = fold (deliver_final make_cancelled_response) (filter hit (m_pending_requests m)) m1;
            m3 = m2\<lparr>m_failed_requests := filter (\<lambda>ctx. \<not> hit ctx) (m_failed_requests m2)\<rparr>;
            m4 = fold (finish_context make_cancelled_response) (filter hit (m_failed_requests m2)) m3;
            (bs, m5) = cancel_batches rs gs (m_active_request_batches m4) m4;
            m6 = m5\<lparr>m_active_request_batches := bs\<rparr>;
            m7 = hm_logs (cancel_callbacks gs) (hm_logs (cancel_callbacks rs) m6)
        in fold destroy_context (filter hit (m_pending_requests m)) m7)"

definition cleanup_response :: HttpResponse where
  "cleanup_response = error_response (curl_error CURLE_OK) 499"

definition cleanup_pending_requests :: "HttpRequestManager \<Rightarrow> HttpRequestManager" where
  "cleanup_pending_requests m =
     (let m1 = m\<lparr>m_pending_requests := [], m_failed_requests := []\<rparr>;
          m2 = fold (deliver_final cleanup_response) (m_pending_requests m) m1;
          m3 = fold (deliver_final cleanup_response) (m_failed_requests m) m2
      in fold destroy_context (m_pending_requests m) (fold destroy_context (m_failed_requests m) m3))"

definition http_process :: "http_env \<Rightarrow> HttpRequestManager \<Rightarrow> HttpRequestManager" where
  "http_process env m =
     (if m_shutdown m then notify_all_group_waiters m
      else notify_group_waiters_if_idle
             (process_cancel_requests
               (process_retry_failed_requests env
                 (process_active_requests env
                   (process_pending_requests env m)))))"

definition http_shutdown :: "HttpRequestManager \<Rightarrow> HttpRequestManager" where
  "http_shutdown m =
     (if m_shutdown m then notify_all_group_waiters m
      else
        let m1 = process_cancel_requests (cleanup_pending_requests (m\<lparr>m_shutdown := True\<rparr>));
            m2 = fold destroy_batch (m_active_request_batches m1) (m1\<lparr>m_active_request_batches := []\<rparr>)
        in notify_all_group_waiters m2)"

definition http_is_loaded :: "HttpRequestManager \<Rightarrow> bool" where
  "http_is_loaded m =
     (m_pending_requests m \<noteq> [] \<or> m_failed_requests m \<noteq> [] \<or> m_active_request_batches m \<noteq> [] \<or>
      m_group_request_counts m \<noteq> [] \<or> m_requests_to_cancel_by_id m \<noteq> [] \<or> m_groups_to_cancel m \<noteq> [])"

end
