(* ===== verification/Token_Ledger.thy ===== *)
theory Token_Ledger
  imports Http_Rate_Limiter_Props Http_Request_Manager
begin

text \<open>
  What the request manager relies on about the rate limiter: the tokens it holds for requests in
  flight. The locale \<open>token_ledger\<close> states the contract, an admission may add the token of the
  admitted request, a release takes it back, nothing else adds one, and derives that a client that
  remembers the arguments of every admission until it has released them knows of every token held.
  The interpretation proves the contract for \<open>HttpRateLimiter\<close>.
\<close>

locale token_ledger =
  fixes wf :: "'s \<Rightarrow> bool"
    and held :: "'s \<Rightarrow> 'c \<Rightarrow> 't \<Rightarrow> bool"
    and admit :: "'a \<Rightarrow> 'n \<Rightarrow> 's \<Rightarrow> 's \<times> bool"
    and release :: "'a \<Rightarrow> 's \<Rightarrow> 's"
    and tok :: "'a \<Rightarrow> 't"
    and covers :: "'a \<Rightarrow> 'c \<Rightarrow> bool"
  assumes admit_wf: "wf s \<Longrightarrow> wf (fst (admit a n s))"
    and release_wf: "wf s \<Longrightarrow> wf (release a s)"
    and admit_held: "wf s \<Longrightarrow> held (fst (admit a n s)) c t \<Longrightarrow>
      held s c t \<or> (snd (admit a n s) \<and> t = tok a \<and> covers a c)"
    and release_held: "wf s \<Longrightarrow> held (release a s) c t \<Longrightarrow> held s c t \<and> \<not> (t = tok a \<and> covers a c)"
begin

definition justified :: "'s \<Rightarrow> 'a set \<Rightarrow> bool" where
  "justified s A = (wf s \<and> (\<forall>c t. held s c t \<longrightarrow> (\<exists>a \<in> A. tok a = t \<and> covers a c)))"

lemma justified_mono: "justified s A \<Longrightarrow> A \<subseteq> B \<Longrightarrow> justified s B"
  unfolding justified_def by blast

lemma justified_shrink:
  "justified s A \<Longrightarrow> wf s' \<Longrightarrow> (\<And>c t. held s' c t \<Longrightarrow> held s c t) \<Longrightarrow> justified s' A"
  unfolding justified_def by blast

lemma justified_admit: "justified s A \<Longrightarrow> justified (fst (admit a n s)) (insert a A)"
  unfolding justified_def using admit_wf admit_held by blast

lemma justified_refused:
  "justified s A \<Longrightarrow> \<not> snd (admit a n s) \<Longrightarrow> justified (fst (admit a n s)) A"
  unfolding justified_def using admit_wf admit_held by blast

lemma justified_release: "justified s A \<Longrightarrow> justified (release a s) (A - {a})"
  unfolding justified_def using release_wf release_held by blast

lemma justified_empty: "justified s {} \<Longrightarrow> \<not> held s c t"
  unfolding justified_def by blast

end

section \<open>The rate limiter as a ledger\<close>

definition limits_wf :: "HttpRateLimiter \<Rightarrow> bool" where
  "limits_wf rl =
     (umap_distinct (m_limits rl) \<and>
      (\<forall>i l. map_of (m_limits rl) i = Some l \<longrightarrow> umap_distinct (keys l) \<and>
        (\<forall>k st. map_of (keys l) k = Some st \<longrightarrow> 0 \<notin> in_flight_tokens st)))"

fun held_token :: "HttpRateLimiter \<Rightarrow> int \<times> string \<Rightarrow> u64 \<Rightarrow> bool" where
  "held_token rl (i, k) t =
     (case find_limit rl i of
        None \<Rightarrow> False
      | Some l \<Rightarrow> sequential l \<and> t \<in> in_flight_tokens (get_key_state l k))"

definition admit_args :: "release_args \<Rightarrow> time_point \<Rightarrow> HttpRateLimiter \<Rightarrow> HttpRateLimiter \<times> bool" where
  "admit_args a now rl =
     allow_request (ra_general a) (ra_specific a) (ra_token a) (ra_general_key a) (ra_specific_key a) now rl"

definition release_by :: "release_args \<Rightarrow> HttpRateLimiter \<Rightarrow> HttpRateLimiter" where
  "release_by a rl =
     release_request (ra_general a) (ra_specific a) (ra_token a) (ra_general_key a) (ra_specific_key a) rl"

fun args_cover :: "release_args \<Rightarrow> int \<times> string \<Rightarrow> bool" where
  "args_cover a (i, k) =
     (handle_id (ra_general a) = i \<and> ra_general_key a = k \<or>
      handle_id (ra_specific a) = i \<and> ra_specific_key a = k)"

definition limit_wf :: "LimitData \<Rightarrow> bool" where
  "limit_wf l = (umap_distinct (keys l) \<and> (\<forall>k st. map_of (keys l) k = Some st \<longrightarrow> 0 \<notin> in_flight_tokens st))"

lemma limits_wf_alt:
  "limits_wf rl = (umap_distinct (m_limits rl) \<and> (\<forall>i l. map_of (m_limits rl) i = Some l \<longrightarrow> limit_wf l))"
  by (simp add: limits_wf_def limit_wf_def)

lemma limit_wf_find: "limits_wf rl \<Longrightarrow> find_limit rl i = Some l \<Longrightarrow> limit_wf l"
  by (auto simp: limits_wf_alt find_limit_def split: if_splits)

lemma limits_wf_update:
  "limits_wf rl \<Longrightarrow> limit_wf l' \<Longrightarrow> limits_wf (rl\<lparr>m_limits := AList.update i l' (m_limits rl)\<rparr>)"
  by (auto simp: limits_wf_alt)

lemma get_key_state_zero: "limit_wf l \<Longrightarrow> 0 \<notin> in_flight_tokens (get_key_state l k)"
  by (auto simp: limit_wf_def get_key_state_def KeyState_default_def split: option.splits)

lemma limit_wf_commit: "limit_wf l \<Longrightarrow> limit_wf (commit_limit l k tok now)"
  using get_key_state_zero [of l k]
  by (auto simp: limit_wf_def keys_commit_limit committed_key_tokens)

lemma held_state_commit:
  "in_flight_tokens (get_key_state (commit_limit l k tok now) k') =
     (if k' = k then in_flight_tokens (committed_key l k tok now) else in_flight_tokens (get_key_state l k'))"
  by (simp add: get_key_state_def keys_commit_limit)

lemma held_state_release:
  "in_flight_tokens (get_key_state (release_key l k tok) k') =
     (if k' = k then in_flight_tokens (get_key_state l k) - {tok} else in_flight_tokens (get_key_state l k'))"
  by (auto simp: get_key_state_def keys_release_key KeyState_default_def split: option.splits)

lemma limit_wf_release: "limit_wf l \<Longrightarrow> limit_wf (release_key l k tok)"
  by (auto simp: limit_wf_def release_key_def Let_def split: option.splits if_splits)

lemma limits_wf_commit_at: "limits_wf rl \<Longrightarrow> limits_wf (commit_at i k tok now rl)"
  by (auto simp: commit_at_def limits_wf_update limit_wf_commit limit_wf_find split: option.splits)

lemma held_commit_at:
  "held_token (commit_at i k tok now rl) (j, k') t \<Longrightarrow>
   held_token rl (j, k') t \<or> (t = tok \<and> j = i \<and> k' = k)"
  by (auto simp: find_limit_commit_at held_state_commit committed_key_tokens
      split: option.splits if_splits)

lemma limits_wf_gc:
  assumes "limits_wf rl"
  shows "limits_wf (gc_stale_keys now rl)"
proof -
  have d: "umap_distinct (m_limits rl)" using assms by (simp add: limits_wf_alt)
  have "umap_distinct (m_limits (gc_stale_keys now rl))"
    using d by (simp add: gc_stale_keys_def umap_distinct_filter)
  moreover have "limit_wf (gc_limit now l)" if "limit_wf l" for l
    using that by (auto simp: limit_wf_def keys_gc_limit gc_limit_def umap_distinct_filter
        map_of_filter_distinct split: option.splits if_splits)
  ultimately show ?thesis
    using assms by (auto simp: limits_wf_alt map_of_gc_stale_keys [OF d] split: option.splits if_splits)
qed

lemma held_gc:
  assumes "limits_wf rl" "held_token (gc_stale_keys now rl) (i, k) t"
  shows "held_token rl (i, k) t"
proof -
  have d: "umap_distinct (m_limits rl)" using assms(1) by (simp add: limits_wf_alt)
  obtain l where l: "find_limit rl i = Some l" "sequential l" "t \<in> in_flight_tokens (get_key_state (gc_limit now l) k)"
    using assms(2)
    by (auto simp: find_limit_def map_of_gc_stale_keys [OF d] split: option.splits if_splits)
  have "umap_distinct (keys l)" using limit_wf_find [OF assms(1) l(1)] by (simp add: limit_wf_def)
  with l(3) have "t \<in> in_flight_tokens (get_key_state l k)"
    by (auto simp: get_key_state_def keys_gc_limit KeyState_default_def split: option.splits if_splits)
  with l show ?thesis by simp
qed

lemma limits_wf_maybe_gc: "limits_wf rl \<Longrightarrow> limits_wf (maybe_gc now rl)"
  using limits_wf_gc [of "rl\<lparr>m_gc_counter := m_gc_counter rl + 1\<rparr>" now]
  by (simp add: maybe_gc_def Let_def limits_wf_alt)

lemma held_maybe_gc:
  assumes "limits_wf rl" "held_token (maybe_gc now rl) c t"
  shows "held_token rl c t"
proof -
  obtain i k where c: "c = (i, k)" by (cases c)
  let ?r = "rl\<lparr>m_gc_counter := m_gc_counter rl + 1\<rparr>"
  have "limits_wf ?r" using assms(1) by (simp add: limits_wf_alt)
  from held_gc [OF this, of now i k t] assms(2) show ?thesis
    by (auto simp: c maybe_gc_def Let_def split: if_splits)
qed

lemma limits_wf_release_at: "limits_wf rl \<Longrightarrow> limits_wf (release_at i k tok rl)"
  by (auto simp: release_at_def limits_wf_update limit_wf_release limit_wf_find split: option.splits)

lemma held_release_at:
  "held_token (release_at i k tok rl) (j, k') t \<Longrightarrow>
   held_token rl (j, k') t \<and> \<not> (t = tok \<and> j = i \<and> k' = k)"
  using held_state_release
  by (cases "find_limit rl j") (auto simp: find_limit_release_at split: if_splits)

lemma held_zero: "limits_wf rl \<Longrightarrow> \<not> held_token rl c 0"
  by (cases c) (auto dest!: limit_wf_find get_key_state_zero split: option.splits)

interpretation limiter: token_ledger limits_wf held_token admit_args release_by ra_token args_cover
proof
  fix s :: HttpRateLimiter and a :: release_args and now :: time_point and c :: "int \<times> string" and t :: u64
  assume wf: "limits_wf s"
  let ?cb = "commit_both (handle_id (ra_general a)) (handle_id (ra_specific a)) (ra_token a)
    (ra_general_key a) (ra_specific_key a) now s"
  have w: "limits_wf ?cb" using wf by (simp add: commit_both_def Let_def limits_wf_commit_at)
  have cb: "held_token ?cb c t \<Longrightarrow> held_token s c t \<or> t = ra_token a \<and> args_cover a c"
    by (cases c) (auto simp: commit_both_def Let_def simp del: held_token.simps dest!: held_commit_at split: if_splits)
  show "limits_wf (fst (admit_args a now s))"
    unfolding admit_args_def
    by (cases rule: allow_request_cases [of s "ra_general a" "ra_specific a" "ra_token a" "ra_general_key a"
          "ra_specific_key a" now]) (simp_all add: wf w limits_wf_maybe_gc)
  show "held_token (fst (admit_args a now s)) c t \<Longrightarrow>
      held_token s c t \<or> snd (admit_args a now s) \<and> t = ra_token a \<and> args_cover a c"
    unfolding admit_args_def
    by (cases rule: allow_request_cases [of s "ra_general a" "ra_specific a" "ra_token a" "ra_general_key a"
          "ra_specific_key a" now]) (use cb held_maybe_gc [OF w, of now c t] in \<open>auto simp del: held_token.simps\<close>)
  show "limits_wf (release_by a s)"
    using wf by (simp add: release_by_def release_request_def Let_def limits_wf_release_at)
  show "held_token (release_by a s) c t \<Longrightarrow> held_token s c t \<and> \<not> (t = ra_token a \<and> args_cover a c)"
  proof -
    assume h: "held_token (release_by a s) c t"
    obtain i k where c: "c = (i, k)" by (cases c)
    show ?thesis
    proof (cases "ra_token a = 0")
      case True
      then have "held_token s c t" using h by (simp add: release_by_def release_request_def)
      with True held_zero [OF wf] show ?thesis by metis
    next
      case False
      with h show ?thesis
        unfolding c release_by_def release_request_def Let_def
        by (auto simp: same_limit_def simp del: held_token.simps dest!: held_release_at split: if_splits)
    qed
  qed
qed

section \<open>Handles do not touch the ledger\<close>

lemma limits_wf_copy [simp]: "limits_wf (copy_handle h rl) = limits_wf rl"
  by (simp add: copy_handle_def limits_wf_alt split: option.split)

lemma held_copy [simp]: "held_token (copy_handle h rl) c t = held_token rl c t"
  by (cases c) (simp add: copy_handle_def find_limit_def split: option.split)

lemma drop_handle_limits:
  assumes "limits_wf rl"
  shows "limits_wf (drop_handle h rl) \<and> (held_token (drop_handle h rl) c t \<longrightarrow> held_token rl c t)"
proof -
  have i: "limits_wf (fst (remove_limit_internal i r)) \<and>
      (held_token (fst (remove_limit_internal i r)) c t \<longrightarrow> held_token r c t)" if "limits_wf r" for i r
    using that
    by (cases c) (auto simp: remove_limit_internal_def Let_def limits_wf_alt limit_wf_def find_limit_def
        get_key_state_def split: option.splits if_splits)
  have r: "limits_wf (rl\<lparr>handle_refs := x\<rparr>)" "held_token (rl\<lparr>handle_refs := x\<rparr>) c t = held_token rl c t" for x
    using assms by (cases c, simp_all add: limits_wf_alt find_limit_def)+
  show ?thesis
    using assms r i [OF r(1)]
    by (auto simp: drop_handle_def handle_reset_def split: option.splits)
qed

lemma justified_copy [simp]: "limiter.justified (copy_handle h rl) A = limiter.justified rl A"
  by (simp add: limiter.justified_def)

lemma justified_drop: "limiter.justified rl A \<Longrightarrow> limiter.justified (drop_handle h rl) A"
  using drop_handle_limits by (auto simp: limiter.justified_def)

end
