(* ===== verification/Http_Request_Inv.thy ===== *)
theory Http_Request_Inv
  imports Token_Ledger "HOL-Library.Multiset" "HOL-Library.Sublist"
begin

text \<open>
  The bookkeeping of the request manager. A live request is represented by its \<open>ckey\<close>: its token, the
  group it reports to and the arguments its completion will release. \<open>acct m K T\<close> says that the
  manager's books agree with the multiset \<open>K\<close> of live requests: the dues \<open>T\<close> of the requests accepted
  are those of \<open>K\<close> and those the log has settled, the group counters count the members of \<open>K\<close>, and every
  token the limiter holds belongs to a member of \<open>K\<close> that will release it. Each operation on contexts,
  handlers and batches settles requests of \<open>K\<close> and keeps the books.
\<close>

declare map_of_eq_Some_iff [simp del] Some_eq_map_of_iff [simp del]

type_synonym ckey = "(u64 \<times> cb option) \<times> u64 option \<times> release_args option"

definition ckey :: "HttpRequestContext \<Rightarrow> ckey" where
  "ckey c = ((in_flight_token c, callback c), on_group_complete c, on_complete c)"

text \<open>What the log must show of a request before it is settled: its completion, and, if it has a
  callback, one final response. A \<open>Fault\<close>, the access to a missing response or context, is due to none.\<close>

datatype due = Completion u64 "cb option" | Final cb u64 | Fault

fun settles :: "http_log \<Rightarrow> due list" where
  "settles (LogComplete t f) = [Completion t f]"
| "settles (LogResponse f t r) = (if ready r then [Final f t] else [])"
| "settles LogNullDeref = [Fault]"
| "settles _ = []"

definition settled :: "HttpRequestManager \<Rightarrow> due multiset" where
  "settled m = mset (concat (map settles (hm_log m)))"

fun dues_of :: "u64 \<times> cb option \<Rightarrow> due multiset" where
  "dues_of (t, None) = {#Completion t None#}"
| "dues_of (t, Some f) = {#Completion t (Some f), Final f t#}"

definition dues :: "ckey multiset \<Rightarrow> due multiset" where
  "dues K = (\<Sum>x \<in># K. dues_of (fst x))"

definition armed :: "ckey multiset \<Rightarrow> release_args set" where
  "armed K = {a. \<exists>x \<in># K. snd (snd x) = Some a}"

definition members :: "u64 \<Rightarrow> ckey multiset \<Rightarrow> nat" where
  "members g K = size (filter_mset (\<lambda>x. fst (snd x) = Some g) K)"

definition groups_ok :: "HttpRequestManager \<Rightarrow> ckey multiset \<Rightarrow> bool" where
  "groups_ok m K =
     (umap_distinct (m_group_request_counts m) \<and>
      (\<forall>g n. map_of (m_group_request_counts m) g = Some n \<longrightarrow> g \<noteq> 0 \<and> n \<noteq> 0) \<and>
      (\<forall>g. group_request_count_unlocked g m = members g K))"

definition acct :: "HttpRequestManager \<Rightarrow> ckey multiset \<Rightarrow> due multiset \<Rightarrow> bool" where
  "acct m K T =
     (dues K + settled m = T \<and> groups_ok m K \<and> limiter.justified (hm_rate_limiter m) (armed K))"

lemma dues_simps [simp]:
  "dues {#} = {#}" "dues (add_mset x K) = dues_of (fst x) + dues K" "dues (K + L) = dues K + dues L"
  by (simp_all add: dues_def)

lemma members_simps [simp]:
  "members g {#} = 0"
  "members g (add_mset x K) = (if fst (snd x) = Some g then members g K + 1 else members g K)"
  "members g (K + L) = members g K + members g L"
  by (simp_all add: members_def)

lemma armed_simps [simp]:
  "armed {#} = {}"
  "armed (add_mset x K) = (case snd (snd x) of None \<Rightarrow> armed K | Some a \<Rightarrow> insert a (armed K))"
  by (auto simp: armed_def split: option.splits)

lemma groups_ok_cong:
  "m_group_request_counts m' = m_group_request_counts m \<Longrightarrow> groups_ok m' K = groups_ok m K"
  by (simp add: groups_ok_def group_request_count_unlocked_def)

lemma acct_cong:
  "hm_log m' = hm_log m \<Longrightarrow> m_group_request_counts m' = m_group_request_counts m \<Longrightarrow>
   hm_rate_limiter m' = hm_rate_limiter m \<Longrightarrow> acct m' K T = acct m K T"
  using groups_ok_cong [of m' m] by (simp add: acct_def settled_def)

lemma acct_fields [simp]:
  "acct (m\<lparr>m_pending_requests := x\<rparr>) K T = acct m K T"
  "acct (m\<lparr>m_failed_requests := x\<rparr>) K T = acct m K T"
  "acct (m\<lparr>m_active_request_batches := y\<rparr>) K T = acct m K T"
  "acct (m\<lparr>m_requests_to_cancel_by_id := z\<rparr>) K T = acct m K T"
  "acct (m\<lparr>m_groups_to_cancel := z\<rparr>) K T = acct m K T"
  "acct (m\<lparr>m_group_waiters := w\<rparr>) K T = acct m K T"
  "acct (m\<lparr>m_shutdown := b\<rparr>) K T = acct m K T"
  by (rule acct_cong; simp)+

definition silent :: "http_log list \<Rightarrow> bool" where
  "silent ls = (\<forall>l \<in> set ls. settles l = [])"

lemma silent_tokens: "silent ls \<Longrightarrow> concat (map settles ls) = []"
  by (simp add: silent_def)

lemma acct_silent: "silent ls \<Longrightarrow> acct (hm_logs ls m) K T = acct m K T"
  using silent_tokens [of ls]
  by (simp add: acct_def settled_def groups_ok_def group_request_count_unlocked_def hm_logs_def del: concat_eq_Nil_conv)

lemma silent_waiters: "silent (waiter_logs ws)"
  by (induction ws) (auto simp: silent_def split: option.splits)

lemma silent_concat: "\<forall>l \<in> set ls. silent l \<Longrightarrow> silent (concat ls)"
  by (induction ls) (auto simp: silent_def)

lemma silent_cancelled: "silent (cancelled_log f)"
  by (cases f) (simp_all add: silent_def cancelled_log_def)

lemma silent_cancel_callbacks: "silent (cancel_callbacks c)"
  unfolding cancel_callbacks_def
  by (auto intro!: silent_concat simp: silent_cancelled)

section \<open>Waiters\<close>

definition waiter_cbs :: "GroupWaiter list \<Rightarrow> cb list" where
  "waiter_cbs ws = concat (map (\<lambda>w. case gw_callback w of None \<Rightarrow> [] | Some f \<Rightarrow> [f]) ws)"

definition waiting :: "waiter_map_t \<Rightarrow> cb multiset" where
  "waiting gs = mset (concat (map (\<lambda>x. waiter_cbs (snd x)) gs))"

fun notified_cb :: "http_log \<Rightarrow> cb list" where
  "notified_cb (LogWaiter f) = [f]"
| "notified_cb _ = []"

definition notified :: "http_log list \<Rightarrow> cb multiset" where
  "notified ls = mset (concat (map notified_cb ls))"

text \<open>From one set of waiters and log to another no waiter is lost and none is called twice.\<close>

definition waiters_kept :: "waiter_map_t \<Rightarrow> http_log list \<Rightarrow> waiter_map_t \<Rightarrow> http_log list \<Rightarrow> bool" where
  "waiters_kept gs ls gs' ls' =
     (umap_distinct gs \<longrightarrow> umap_distinct gs' \<and> waiting gs' + notified ls' = waiting gs + notified ls)"

lemma waiters_kept_refl [simp]: "waiters_kept gs ls gs ls"
  by (simp add: waiters_kept_def)

lemma waiters_kept_trans: "waiters_kept a b c d \<Longrightarrow> waiters_kept c d e f \<Longrightarrow> waiters_kept a b e f"
  by (simp add: waiters_kept_def)

lemma notified_simps [simp]: "notified [] = {#}" "notified (ls @ ls') = notified ls + notified ls'"
  by (simp_all add: notified_def)

lemma notified_waiters: "notified (waiter_logs ws) = mset (waiter_cbs ws)"
  by (induction ws) (simp_all add: notified_def waiter_cbs_def split: option.split)

lemma waiting_delete:
  "umap_distinct gs \<Longrightarrow> map_of gs g = Some ws \<Longrightarrow> waiting gs = mset (waiter_cbs ws) + waiting (AList.delete g gs)"
proof (induction gs)
  case (Cons x gs)
  then show ?case
    by (cases "fst x = g") (auto simp: waiting_def delete_id image_iff ac_simps)
qed simp

lemma waiters_kept_silent: "notified ls = {#} \<Longrightarrow> waiters_kept gs l gs (l @ ls)"
  by (simp add: waiters_kept_def)

definition quiet :: "http_log list \<Rightarrow> bool" where
  "quiet ls = list_all (\<lambda>l. notified_cb l = []) ls"

lemma quiet_notified: "quiet ls \<Longrightarrow> notified ls = {#}"
  by (auto simp: quiet_def notified_def list_all_iff)

lemma waiters_kept_filter:
  "waiters_kept gs ls (filter (\<lambda>x. \<not> P x) gs) (ls @ concat (map (\<lambda>(_, ws). waiter_logs ws) (filter P gs)))"
proof -
  have "notified (concat (map (\<lambda>(_, ws). waiter_logs ws) xs)) = waiting xs" for xs
    by (induction xs) (auto simp: waiting_def notified_waiters)
  moreover have "waiting gs = waiting (filter P gs) + waiting (filter (\<lambda>x. \<not> P x) gs)"
    by (induction gs) (simp_all add: waiting_def)
  ultimately show ?thesis by (simp add: waiters_kept_def umap_distinct_filter)
qed

lemma quiet_cancel_callbacks: "quiet (cancel_callbacks c)"
proof -
  have "quiet (cancelled_log f)" for f by (simp add: quiet_def cancelled_log_def split: option.split)
  then have "quiet (concat (map cancelled_log fs))" for fs by (induction fs) (auto simp: quiet_def)
  then show ?thesis by (induction c) (auto simp: cancel_callbacks_def quiet_def)
qed

text \<open>From one manager to another: the counters of the groups only fall, the waiters of a group are touched
  only when it has become idle, and no waiter is lost or called twice.\<close>

definition wakes :: "HttpRequestManager \<Rightarrow> HttpRequestManager \<Rightarrow> bool" where
  "wakes m m' \<longleftrightarrow>
     (\<forall>g. group_request_count_unlocked g m' \<le> group_request_count_unlocked g m \<and>
       (map_of (m_group_waiters m') g \<noteq> map_of (m_group_waiters m) g \<longrightarrow> group_request_count_unlocked g m' = 0)) \<and>
     waiters_kept (m_group_waiters m) (hm_log m) (m_group_waiters m') (hm_log m')"

lemma wakes_refl [simp]: "wakes m m"
  by (simp add: wakes_def)

lemma wakes_trans: "wakes a b \<Longrightarrow> wakes b c \<Longrightarrow> wakes a c"
  unfolding wakes_def by (metis (no_types) le_zero_eq order_trans waiters_kept_trans)

lemma wakes_cong:
  assumes "m_group_request_counts m' = m_group_request_counts m" "m_group_waiters m' = m_group_waiters m"
    "hm_log m' = hm_log m @ ls" "quiet ls"
  shows "wakes m m'"
  using assms by (simp add: wakes_def group_request_count_unlocked_def waiters_kept_silent quiet_notified)

lemma wakes_fields [simp]:
  "wakes (m\<lparr>m_pending_requests := ps\<rparr>) m' = wakes m m'" "wakes m (m'\<lparr>m_pending_requests := ps\<rparr>) = wakes m m'"
  "wakes (m\<lparr>m_failed_requests := fs\<rparr>) m' = wakes m m'" "wakes m (m'\<lparr>m_failed_requests := fs\<rparr>) = wakes m m'"
  "wakes (m\<lparr>m_active_request_batches := bs\<rparr>) m' = wakes m m'" "wakes m (m'\<lparr>m_active_request_batches := bs\<rparr>) = wakes m m'"
  "wakes (m\<lparr>m_requests_to_cancel_by_id := rs\<rparr>) m' = wakes m m'" "wakes (m\<lparr>m_groups_to_cancel := gs\<rparr>) m' = wakes m m'"
  "wakes (m\<lparr>hm_rate_limiter := rl\<rparr>) m' = wakes m m'" "wakes m (m'\<lparr>hm_rate_limiter := rl\<rparr>) = wakes m m'"
  by (simp_all add: wakes_def group_request_count_unlocked_def)

lemma wakes_logs: "quiet ls \<Longrightarrow> wakes m (hm_logs ls m)"
  by (rule wakes_cong [of _ _ ls]) (simp_all add: hm_logs_def)

lemma wakes_group: "wakes m (complete_group_request g m)"
proof -
  have "waiters_kept gs ls (AList.delete g gs) (ls @ waiter_logs ws)" if "map_of gs g = Some ws" for gs ls ws
    using that waiting_delete [of gs g ws] by (auto simp: waiters_kept_def notified_waiters)
  then show ?thesis
    by (simp add: wakes_def hm_logs_def complete_group_request_def group_request_count_unlocked_def Let_def split: option.split)
qed

section \<open>What an operation leaves alone\<close>

text \<open>Everything a context or a handler does to the manager concerns its limiter, its group counters and
  its waiters, and adds to its log.\<close>

definition keeps :: "HttpRequestManager \<Rightarrow> HttpRequestManager \<Rightarrow> bool" where
  "keeps m m' =
     (m_pending_requests m' = m_pending_requests m \<and> m_failed_requests m' = m_failed_requests m \<and>
      m_active_request_batches m' = m_active_request_batches m \<and>
      m_requests_to_cancel_by_id m' = m_requests_to_cancel_by_id m \<and>
      m_groups_to_cancel m' = m_groups_to_cancel m \<and>
      m_next_in_flight_token m' = m_next_in_flight_token m \<and> m_shutdown m' = m_shutdown m \<and>
      m_max_pending_requests m' = m_max_pending_requests m \<and> m_waiter_id_counter m' = m_waiter_id_counter m \<and>
      prefix (hm_log m) (hm_log m') \<and> wakes m m')"

lemma keeps_refl [simp]: "keeps m m"
  by (simp add: keeps_def)

lemma keeps_trans: "keeps a b \<Longrightarrow> keeps b c \<Longrightarrow> keeps a c"
  by (auto simp: keeps_def intro: prefix_order.trans wakes_trans)

lemma keeps_logs [simp]: "quiet ls \<Longrightarrow> keeps m (hm_logs ls m)"
  using wakes_logs [of ls m] by (simp add: keeps_def hm_logs_def)

lemma keeps_limiter [simp]: "keeps m (on_limiter f m)"
  by (simp add: keeps_def on_limiter_def)

lemma quiet_simps [simp]:
  "quiet []" "quiet (LogResponse f t r # ls) = quiet ls" "quiet (LogComplete t g # ls) = quiet ls"
  "quiet (LogCancelled f # ls) = quiet ls" "quiet (LogNullDeref # ls) = quiet ls" "quiet (ls @ ls') = (quiet ls \<and> quiet ls')"
  by (simp_all add: quiet_def)

lemma keeps_group [simp]: "keeps m (complete_group_request g m)"
  using wakes_group [of m g]
  by (simp add: keeps_def hm_logs_def complete_group_request_def Let_def split: option.split)

lemma keeps_invoke [simp]: "keeps m (invoke_callback c r m)"
  by (simp add: invoke_callback_def split: option.split)

lemma keeps_run_on_complete [simp]: "keeps m (run_on_complete f m)"
  by (simp add: run_on_complete_def split: option.split)

lemma keeps_complete [simp]: "keeps m (snd (complete c m))"
proof -
  let ?m1 = "run_on_complete (on_complete c) (hm_logs [LogComplete (in_flight_token c) (callback c)] m)"
  have a: "keeps m ?m1" by (rule keeps_trans [OF keeps_logs keeps_run_on_complete]) simp
  have "keeps ?m1 (complete_group_request g ?m1)" for g by simp
  then have "keeps m (complete_group_request g ?m1)" for g using a keeps_trans by blast
  with a show ?thesis by (simp add: complete_def Let_def split: option.split)
qed

lemma keeps_final [simp]: "keeps m (snd (invoke_final_callback c r m))"
  unfolding invoke_final_callback_def by (rule keeps_trans [OF keeps_invoke keeps_complete])

lemma keeps_deliver_final [simp]: "keeps m (deliver_final r c m)"
  by (simp add: deliver_final_def)

lemma keeps_destroy_context [simp]: "keeps m (destroy_context c m)"
proof -
  have "keeps m (drop_release_args (on_complete c) m)"
    by (simp add: drop_release_args_def split: option.split)
  moreover have "keeps x (drop_request r x)" for x r by (simp add: drop_request_def)
  ultimately show ?thesis
    by (simp add: destroy_context_def split: option.split) (meson keeps_trans)
qed

lemma keeps_fold: "(\<And>x m. keeps m (f x m)) \<Longrightarrow> keeps m (fold f xs m)"
  by (induction xs arbitrary: m) (simp, simp, meson keeps_trans)

lemma complete_fst: "fst (complete c m) = c\<lparr>complete_called := True\<rparr>"
  by (simp add: complete_def Let_def)

lemma finish_context_alt: "finish_context r c m = destroy_context (c\<lparr>complete_called := True\<rparr>) (deliver_final r c m)"
proof -
  have "invoke_final_callback c r m = (c\<lparr>complete_called := True\<rparr>, deliver_final r c m)"
    using complete_fst by (simp add: deliver_final_def invoke_final_callback_def prod_eq_iff)
  then show ?thesis by (simp add: finish_context_def)
qed

lemma keeps_finish [simp]: "keeps m (finish_context r c m)"
  unfolding finish_context_alt by (rule keeps_trans [OF keeps_deliver_final keeps_destroy_context])

lemma keeps_finish_contexts [simp]: "keeps m (finish_contexts r cs m)"
proof -
  have "keeps m (fold (deliver_final r) cs m)" for m by (rule keeps_fold) simp
  moreover have "keeps x (fold destroy_context cs x)" for x by (rule keeps_fold) simp
  ultimately show ?thesis unfolding finish_contexts_def using keeps_trans by blast
qed

section \<open>Completing a request\<close>

lemma acct_invoke_callback: "\<not> ready r \<Longrightarrow> acct (invoke_callback c r m) K T = acct m K T"
  by (simp add: invoke_callback_def acct_silent silent_def split: option.split)

lemma groups_ok_complete:
  assumes "groups_ok m (add_mset x K)" "fst (snd x) = Some g"
  shows "groups_ok (complete_group_request g m) K"
proof -
  have n: "group_request_count_unlocked h m = members h (add_mset x K)" for h
    using assms(1) by (simp add: groups_ok_def)
  from n [of g] assms(2) have gn: "g \<noteq> 0" "map_of (m_group_request_counts m) g = Some (members g K + 1)"
    by (auto simp: group_request_count_unlocked_def split: if_splits option.splits)
  let ?m' = "complete_group_request g m"
  have c: "m_group_request_counts ?m' =
      (if members g K > 0 then AList.update g (members g K) (m_group_request_counts m)
       else AList.delete g (m_group_request_counts m))"
    using gn by (simp add: complete_group_request_def hm_logs_def Let_def split: option.split)
  have "group_request_count_unlocked h ?m' = members h K" for h
    using n [of h] gn assms(2) by (auto simp: group_request_count_unlocked_def c split: if_splits option.splits)
  with assms(1) gn(1) show ?thesis by (auto simp: groups_ok_def c split: if_splits)
qed

lemma complete_group_request_sel [simp]:
  "settled (complete_group_request g m) = settled m"
  "hm_rate_limiter (complete_group_request g m) = hm_rate_limiter m"
  using silent_waiters
  by (simp_all add: complete_group_request_def settled_def hm_logs_def silent_def Let_def split: option.split)

lemma acct_deliver_final:
  assumes "acct m (add_mset (ckey c) K) T" "\<not> complete_called c" "ready r"
  shows "acct (deliver_final r c m) K T"
proof -
  let ?m0 = "hm_logs [LogComplete (in_flight_token c) (callback c)] (invoke_callback c r m)"
  let ?m1 = "run_on_complete (on_complete c) ?m0"
  have e: "deliver_final r c m = (case on_group_complete c of None \<Rightarrow> ?m1 | Some g \<Rightarrow> complete_group_request g ?m1)"
    using assms(2) by (simp add: deliver_final_def invoke_final_callback_def complete_def Let_def)
  have f: "m_group_request_counts ?m0 = m_group_request_counts m" "hm_rate_limiter ?m0 = hm_rate_limiter m"
    by (simp_all add: hm_logs_def invoke_callback_def split: option.split)
  have "settled ?m0 = dues_of (fst (ckey c)) + settled m"
    using assms(3) by (simp add: settled_def hm_logs_def invoke_callback_def ckey_def split: option.split)
  moreover have "settled ?m1 = settled ?m0"
    by (simp add: settled_def run_on_complete_def on_limiter_def split: option.split)
  ultimately have t: "dues K + settled ?m1 = T" using assms(1) by (simp add: acct_def ac_simps)
  have g1: "groups_ok ?m1 (add_mset (ckey c) K)"
    using assms(1) groups_ok_cong [of ?m1 m] f(1)
    by (simp add: acct_def run_on_complete_def on_limiter_def split: option.splits)
  have l: "limiter.justified (hm_rate_limiter ?m1) (armed K)"
  proof (cases "on_complete c")
    case (Some a)
    have "limiter.justified (hm_rate_limiter m) (insert a (armed K))"
      using assms(1) Some by (simp add: acct_def ckey_def)
    then have "limiter.justified (release_by a (hm_rate_limiter m)) (insert a (armed K) - {a})"
      by (rule limiter.justified_release)
    then show ?thesis
      using Some f(2) by (auto simp: run_on_complete_def on_limiter_def release_by_def
          elim: limiter.justified_mono)
  qed (use assms(1) f(2) in \<open>simp add: acct_def ckey_def run_on_complete_def\<close>)
  show ?thesis
  proof (cases "on_group_complete c")
    case None
    with g1 have "groups_ok ?m1 K" by (simp add: groups_ok_def ckey_def)
    with t l None show ?thesis by (simp add: e acct_def)
  next
    case (Some g)
    from groups_ok_complete [OF g1, of g] Some have "groups_ok (complete_group_request g ?m1) K"
      by (simp add: ckey_def)
    with t l Some show ?thesis by (simp add: e acct_def)
  qed
qed

lemma acct_limiter_shrink:
  assumes "acct m K T" "\<And>rl A. limiter.justified rl A \<Longrightarrow> limiter.justified (f rl) A"
  shows "acct (on_limiter f m) K T"
  using assms groups_ok_cong [of "on_limiter f m" m] by (simp add: acct_def on_limiter_def settled_def)

lemma acct_destroy_context: "acct m K T \<Longrightarrow> acct (destroy_context c m) K T"
  by (auto simp: destroy_context_def drop_request_def drop_release_args_def justified_drop
      intro!: acct_limiter_shrink split: option.split)

lemma acct_fold_destroy: "acct m K T \<Longrightarrow> acct (fold destroy_context cs m) K T"
  by (induction cs arbitrary: m) (auto simp: acct_destroy_context)

lemma acct_finish:
  "acct m (add_mset (ckey c) K) T \<Longrightarrow> \<not> complete_called c \<Longrightarrow> ready r \<Longrightarrow> acct (finish_context r c m) K T"
  by (simp add: finish_context_alt acct_destroy_context acct_deliver_final)

lemma acct_fold_deliver:
  "acct m (mset (map ckey cs) + K) T \<Longrightarrow> \<forall>c \<in> set cs. \<not> complete_called c \<Longrightarrow> ready r \<Longrightarrow>
   acct (fold (deliver_final r) cs m) K T"
  by (induction cs arbitrary: m) (simp_all add: acct_deliver_final)

lemma acct_fold_finish:
  "acct m (mset (map ckey cs) + K) T \<Longrightarrow> \<forall>c \<in> set cs. \<not> complete_called c \<Longrightarrow> ready r \<Longrightarrow>
   acct (fold (finish_context r) cs m) K T"
  by (induction cs arbitrary: m) (simp_all add: acct_finish)

lemma acct_finish_contexts:
  "acct m (mset (map ckey cs) + K) T \<Longrightarrow> \<forall>c \<in> set cs. \<not> complete_called c \<Longrightarrow> ready r \<Longrightarrow>
   acct (finish_contexts r cs m) K T"
  by (simp add: finish_contexts_def acct_fold_destroy acct_fold_deliver)

end
