(* ===== verification/Http_Request_Steps.thy ===== *)
theory Http_Request_Steps
  imports Http_Request_Inv
begin

text \<open>
  The books through handlers, batches and the manager's own steps: well-formed contexts and handlers,
  and the lemma that each stage of \<open>process\<close> keeps the accounts and the well-formedness.
\<close>

section \<open>Contexts and handlers\<close>

text \<open>A live context has not completed, reports to the group of its request, if it carries a completion
  closure then that of its own request, and has been tried less often than its request allows.\<close>

definition request_group :: "HttpRequest option \<Rightarrow> u64 option" where
  "request_group rq = (case rq of None \<Rightarrow> None | Some r \<Rightarrow> if group_id r \<noteq> 0 then Some (group_id r) else None)"

definition attempts_ok :: "HttpRequestContext \<Rightarrow> bool" where
  "attempts_ok c =
     (retry_attempt c = 0 \<or>
      retry_attempt c > 0 \<and> (case request c of None \<Rightarrow> False | Some r \<Rightarrow> retry_attempt c < retry_attempts r))"

definition ctx_ok :: "HttpRequestContext \<Rightarrow> bool" where
  "ctx_ok c =
     (\<not> complete_called c \<and> on_group_complete c = request_group (request c) \<and> attempts_ok c \<and>
      (case on_complete c of
         None \<Rightarrow> True
       | Some a \<Rightarrow> (case request c of None \<Rightarrow> False | Some r \<Rightarrow> a = context_release_args c r)))"

definition retry_ok :: "HttpRequestContext \<Rightarrow> bool" where
  "retry_ok c = (ctx_ok c \<and> request c \<noteq> None)"

text \<open>A handler is fresh, or has delivered its final response, or has given its context away for a
  retry.\<close>

definition handler_ok :: "HttpRequestHandler \<Rightarrow> bool" where
  "handler_ok h =
     ((case m_response h of None \<Rightarrow> m_callback_called h | Some r \<Rightarrow> \<not> m_callback_called h \<and> \<not> ready r) \<and> (m_done h \<longleftrightarrow> m_callback_called h) \<and>
      (case m_request_context h of
         None \<Rightarrow> m_callback_called h
       | Some c \<Rightarrow> if m_callback_called h then complete_called c else retry_ok c))"

definition handler_keys :: "HttpRequestHandler \<Rightarrow> ckey multiset" where
  "handler_keys h =
     (case m_request_context h of
        None \<Rightarrow> {#}
      | Some c \<Rightarrow> if complete_called c then {#} else {#ckey c#})"

definition handlers_keys :: "HttpRequestHandler list \<Rightarrow> ckey multiset" where
  "handlers_keys hs = sum_list (map handler_keys hs)"

definition ckeys :: "HttpRequestContext list \<Rightarrow> ckey multiset" where
  "ckeys cs = mset (map ckey cs)"

lemma keys_simps [simp]:
  "handlers_keys [] = {#}" "handlers_keys (h # hs) = handler_keys h + handlers_keys hs"
  "handlers_keys (hs @ hs') = handlers_keys hs + handlers_keys hs'"
  "ckeys [] = {#}" "ckeys (c # cs) = add_mset (ckey c) (ckeys cs)" "ckeys (cs @ cs') = ckeys cs + ckeys cs'"
  by (simp_all add: handlers_keys_def ckeys_def)

lemma ckey_fields [simp]:
  "ckey (c\<lparr>retry_attempt := n\<rparr>) = ckey c" "ckey (c\<lparr>start_time := t\<rparr>) = ckey c"
  "ckey (c\<lparr>complete_called := b\<rparr>) = ckey c"
  by (simp_all add: ckey_def)

lemma ctx_ok_start_time [simp]: "ctx_ok (c\<lparr>start_time := t\<rparr>) = ctx_ok c"
  by (simp add: ctx_ok_def attempts_ok_def context_release_args_def split: option.split)

lemma ctx_ok_next_attempt:
  "ctx_ok c \<Longrightarrow> request c = Some r \<Longrightarrow> retry_attempt c + 1 < retry_attempts r \<Longrightarrow>
   ctx_ok (c\<lparr>retry_attempt := retry_attempt c + 1\<rparr>)"
  by (auto simp: ctx_ok_def attempts_ok_def context_release_args_def split: option.split)

lemma ctx_ok_live: "ctx_ok c \<Longrightarrow> \<not> complete_called c"
  by (simp add: ctx_ok_def)

lemma retry_ok_live: "retry_ok c \<Longrightarrow> \<not> complete_called c"
  by (simp add: retry_ok_def ctx_ok_def)

lemma ready_simps [simp]:
  "ready (error_response ec st)" "ready aborted_response" "ready make_cancelled_response"
  "ready bad_request_response" "ready cleanup_response" "\<not> ready HttpResponse_default"
  "ready (message_response msg r) = ready r"
  by (simp_all add: error_response_def aborted_response_def make_cancelled_response_def
      bad_request_response_def cleanup_response_def HttpResponse_default_def message_response_def Let_def)

lemma handler_ok_response:
  "handler_ok h \<Longrightarrow> m_callback_called h \<longleftrightarrow> m_response h = None"
  "handler_ok h \<Longrightarrow> m_response h = Some r \<Longrightarrow> \<not> ready r"
  by (auto simp: handler_ok_def split: option.splits)

lemma handler_new [simp]:
  "retry_ok c \<Longrightarrow> handler_ok (HttpRequestHandler_new x c)"
  "retry_ok c \<Longrightarrow> handler_keys (HttpRequestHandler_new x c) = {#ckey c#}"
  by (simp_all add: HttpRequestHandler_new_def handler_ok_def handler_keys_def retry_ok_def ctx_ok_def)

lemma destroy_handler_acct:
  assumes "handler_ok h" "acct m (handler_keys h + K) T"
  shows "acct (destroy_handler h m) K T"
proof (cases "m_request_context h")
  case (Some c)
  show ?thesis
  proof (cases "m_callback_called h")
    case True
    then have "m_response h = None" "complete_called c"
      using assms(1) Some handler_ok_response(1) [OF assms(1)] by (simp_all add: handler_ok_def)
    with Some assms(2) show ?thesis by (simp add: destroy_handler_def handler_keys_def acct_destroy_context)
  next
    case False
    then obtain r where r: "m_response h = Some r" "retry_ok c"
      using assms(1) Some handler_ok_response(1) [OF assms(1)] by (auto simp: handler_ok_def)
    with Some assms(2) have "acct m (add_mset (ckey c) K) T" by (simp add: handler_keys_def retry_ok_live)
    with Some False r show ?thesis by (simp add: destroy_handler_def acct_finish retry_ok_live)
  qed
qed (use assms in \<open>simp add: destroy_handler_def handler_keys_def\<close>)

lemma keeps_destroy_handler [simp]: "keeps m (destroy_handler h m)"
  by (simp add: destroy_handler_def split: option.split)

lemma handler_cancel_acct:
  assumes "handler_ok h" "acct m (handler_keys h + K) T" "handler_cancel h m = (h', m')"
  shows "handler_ok h' \<and> acct m' (handler_keys h' + K) T \<and> keeps m m'"
proof (cases "m_callback_called h")
  case True
  with assms show ?thesis by (simp add: handler_cancel_def)
next
  case False
  then obtain r c where rc: "m_response h = Some r" "m_request_context h = Some c" "retry_ok c"
    using assms(1) by (auto simp: handler_ok_def split: option.splits)
  let ?r = "r\<lparr>rs_error_code := client_error CancelledByUser, status_code := 499, ready := True\<rparr>"
  have e: "invoke_final_callback c ?r m = (c\<lparr>complete_called := True\<rparr>, deliver_final ?r c m)"
    by (simp add: deliver_final_def invoke_final_callback_def complete_fst prod_eq_iff)
  have m': "m' = deliver_final ?r c m"
    and h': "m_callback_called h'" "m_done h'" "m_response h' = None"
      "m_request_context h' = Some (c\<lparr>complete_called := True\<rparr>)"
    using assms(3) False rc e by (auto simp: handler_cancel_def Let_def)
  have "acct m (add_mset (ckey c) K) T"
    using assms(2) rc by (simp add: handler_keys_def retry_ok_live)
  then have "acct m' K T" unfolding m' by (rule acct_deliver_final) (simp_all add: retry_ok_live rc)
  with h' m' show ?thesis by (simp add: handler_ok_def handler_keys_def)
qed

lemma write_response_body_acct:
  assumes "handler_ok h" "acct m (handler_keys h + K) T" "write_response_body data code h m = (h', m')"
  shows "handler_ok h' \<and> acct m' (handler_keys h' + K) T \<and> keeps m m'"
proof -
  have "m_request_context h' = m_request_context h \<and> m_callback_called h' = m_callback_called h \<and>
      m_done h' = m_done h \<and> map_option ready (m_response h') = map_option ready (m_response h)"
    using assms(3) by (auto simp: write_response_body_def emit_stream_chunk_def Let_def
        split: option.splits if_splits)
  then have h: "handler_ok h' = handler_ok h" "handler_keys h' = handler_keys h"
    by (auto simp: handler_ok_def handler_keys_def split: option.splits)
  have "acct m' X T = acct m X T \<and> keeps m m'" for X
    using assms(3) by (auto simp: write_response_body_def emit_stream_chunk_def Let_def acct_invoke_callback
        split: option.splits if_splits)
  with h assms(1,2) show ?thesis by simp
qed

lemma parse_header_ok:
  assumes "handler_ok h"
  shows "handler_ok (parse_http_response_header b h) \<and> handler_keys (parse_http_response_header b h) = handler_keys h"
  using assms
  by (auto simp: parse_http_response_header_def handler_ok_def handler_keys_def Let_def
      split: option.splits prod.splits)

lemma update_handler_acct:
  assumes "list_all handler_ok hs" "acct m (handlers_keys hs + K) T" "update_handler c f hs m = (hs', m')"
    and "\<And>h m K h' m'. handler_ok h \<Longrightarrow> acct m (handler_keys h + K) T \<Longrightarrow> f h m = (h', m') \<Longrightarrow>
      handler_ok h' \<and> acct m' (handler_keys h' + K) T \<and> keeps m m'"
  shows "list_all handler_ok hs' \<and> acct m' (handlers_keys hs' + K) T \<and> keeps m m'"
  using assms(1-3)
proof (induction hs arbitrary: K hs' m')
  case (Cons h hs)
  show ?case
  proof (cases "m_curl h = Some c")
    case True
    obtain h1 m1 where f: "f h m = (h1, m1)" by fastforce
    have "acct m (handler_keys h + (handlers_keys hs + K)) T" using Cons.prems(2) by (simp add: add.assoc)
    from assms(4) [OF _ this f] Cons.prems(1) have
      "handler_ok h1 \<and> acct m1 (handler_keys h1 + (handlers_keys hs + K)) T \<and> keeps m m1" by simp
    with True f Cons.prems show ?thesis by (auto simp: add.assoc)
  next
    case False
    obtain hs1 m1 where u: "update_handler c f hs m = (hs1, m1)" by fastforce
    have "acct m (handlers_keys hs + (handler_keys h + K)) T" using Cons.prems(2) by (simp add: ac_simps)
    from Cons.IH [OF _ this u] Cons.prems(1) have
      "list_all handler_ok hs1 \<and> acct m1 (handlers_keys hs1 + (handler_keys h + K)) T \<and> keeps m m1" by simp
    with False u Cons.prems show ?thesis by (auto simp: ac_simps)
  qed
qed simp

lemma run_transfer_acct:
  assumes "list_all handler_ok hs" "acct m (handlers_keys hs + K) T" "run_transfer t hs m = (hs', m')"
  shows "list_all handler_ok hs' \<and> acct m' (handlers_keys hs' + K) T \<and> keeps m m'"
proof (cases t)
  case (BodyData c data code)
  then have u: "update_handler c (write_response_body data code) hs m = (hs', m')" using assms(3) by simp
  show ?thesis
    by (rule update_handler_acct [OF assms(1,2) u]) (rule write_response_body_acct)
next
  case (HeaderLine c b)
  then have u: "update_handler c (\<lambda>h m. (parse_http_response_header b h, m)) hs m = (hs', m')"
    using assms(3) by simp
  show ?thesis
    by (rule update_handler_acct [OF assms(1,2) u]) (use parse_header_ok in auto)
qed

lemma run_transfers_acct:
  "list_all handler_ok hs \<Longrightarrow> acct m (handlers_keys hs + K) T \<Longrightarrow> run_transfers ts hs m = (hs', m') \<Longrightarrow>
   list_all handler_ok hs' \<and> acct m' (handlers_keys hs' + K) T \<and> keeps m m'"
proof (induction ts arbitrary: hs m)
  case (Cons t ts)
  obtain hs1 m1 where r: "run_transfer t hs m = (hs1, m1)" by fastforce
  from run_transfer_acct [OF Cons.prems(1,2) r] Cons.IH [of hs1 m1] Cons.prems(3) r show ?case
    by (auto intro: keeps_trans)
qed simp

lemma handle_curl_message_acct:
  assumes "handler_ok h" "acct m (handler_keys h + K) T" "handle_curl_message msg h m = (h', m', done)"
  shows "keeps m m' \<and>
    (if done then handler_ok h' \<and> acct m' (handler_keys h' + K) T
     else \<exists>c. m_request_context h' = Some c \<and> retry_ok c \<and> m_callback_called h' \<and> m_response h' = None \<and>
       acct m' (add_mset (ckey c) K) T)"
proof (cases "m_response h")
  case None
  with assms show ?thesis by (simp add: handle_curl_message_def)
next
  case (Some r0)
  then have nc: "\<not> m_callback_called h" using assms(1) by (simp add: handler_ok_def)
  then obtain c0 rq where c0: "m_request_context h = Some c0" "retry_ok c0" "request c0 = Some rq"
    using assms(1) by (auto simp: handler_ok_def retry_ok_def split: option.splits)
  have k: "acct m (add_mset (ckey c0) K) T"
    using assms(2) c0 by (simp add: handler_keys_def retry_ok_live)
  let ?c1 = "c0\<lparr>retry_attempt := retry_attempt c0 + 1\<rparr>"
  let ?r2 = "(message_response msg r0)\<lparr>rs_retry_attempt := retry_attempt c0 + 1\<rparr>"
  show ?thesis
  proof (cases "should_retry msg rq (status_code ?r2) (retry_attempt c0 + 1) (m_has_stream_chunk h)")
    case True
    then have "ctx_ok ?c1" using c0(2,3) ctx_ok_next_attempt by (auto simp: retry_ok_def should_retry_def)
    then have "retry_ok (?c1\<lparr>start_time := msg_now msg\<rparr>)" using c0(3) by (simp add: retry_ok_def)
    moreover have "\<not> ready ?r2" using handler_ok_response(2) [OF assms(1) Some] by simp
    ultimately show ?thesis
      using True Some c0 assms(3) k by (auto simp: handle_curl_message_def Let_def acct_invoke_callback)
  next
    case False
    let ?r3 = "?r2\<lparr>rs_timings := msg_timings msg, ready := True\<rparr>"
    have e: "invoke_final_callback ?c1 ?r3 m = (?c1\<lparr>complete_called := True\<rparr>, deliver_final ?r3 ?c1 m)"
      by (simp add: deliver_final_def invoke_final_callback_def complete_fst prod_eq_iff)
    have a: "acct (deliver_final ?r3 ?c1 m) K T"
      by (rule acct_deliver_final) (use k c0(2) in \<open>simp_all add: retry_ok_live\<close>)
    have h: "done" "m' = deliver_final ?r3 ?c1 m" "m_callback_called h'" "m_done h'" "m_response h' = None"
      "m_request_context h' = Some (?c1\<lparr>complete_called := True\<rparr>)"
      using False Some c0 assms(3) e by (auto simp: handle_curl_message_def Let_def)
    with a show ?thesis by (simp add: handler_ok_def handler_keys_def)
  qed
qed

lemma handle_completed_request_acct:
  assumes "list_all handler_ok hs" "acct m (handlers_keys hs + K) T"
    and "handle_completed_request msg hs m = (hs', f, m')"
  shows "list_all handler_ok hs' \<and> list_all retry_ok f \<and> acct m' (handlers_keys hs' + ckeys f + K) T \<and> keeps m m'"
  using assms
proof (induction hs arbitrary: K hs' f m')
  case (Cons h hs)
  show ?case
  proof (cases "m_curl h = Some (easy_handle msg)")
    case True
    obtain h1 m1 d where d: "handle_curl_message msg h m = (h1, m1, d)" by (cases rule: prod_cases3)
    have "acct m (handler_keys h + (handlers_keys hs + K)) T" using Cons.prems(2) by (simp add: add.assoc)
    from handle_curl_message_acct [OF _ this d] Cons.prems(1)
    have c: "keeps m m1" "d \<Longrightarrow> handler_ok h1 \<and> acct m1 (handler_keys h1 + (handlers_keys hs + K)) T"
      "\<not> d \<Longrightarrow> \<exists>c. m_request_context h1 = Some c \<and> retry_ok c \<and> m_callback_called h1 \<and> m_response h1 = None \<and>
         acct m1 (add_mset (ckey c) (handlers_keys hs + K)) T" by auto
    show ?thesis
    proof (cases d)
      case True
      with c Cons.prems d \<open>m_curl h = Some (easy_handle msg)\<close> show ?thesis by (auto simp: add.assoc)
    next
      case False
      with c(3) obtain x where x: "m_request_context h1 = Some x" "retry_ok x" "m_callback_called h1"
        "m_response h1 = None" "acct m1 (add_mset (ckey x) (handlers_keys hs + K)) T" by blast
      let ?h = "h1\<lparr>m_done := True, m_request_context := None\<rparr>"
      have "handler_ok ?h" "handler_keys ?h = {#}" using x by (simp_all add: handler_ok_def handler_keys_def)
      with x False c(1) Cons.prems d \<open>m_curl h = Some (easy_handle msg)\<close> show ?thesis by auto
    qed
  next
    case False
    obtain hs1 f1 m1 where u: "handle_completed_request msg hs m = (hs1, f1, m1)" by (cases rule: prod_cases3)
    have "acct m (handlers_keys hs + (handler_keys h + K)) T" using Cons.prems(2) by (simp add: ac_simps)
    from Cons.IH [OF _ this u] Cons.prems(1)
    have "list_all handler_ok hs1 \<and> list_all retry_ok f1 \<and>
      acct m1 (handlers_keys hs1 + ckeys f1 + (handler_keys h + K)) T \<and> keeps m m1" by simp
    with False u Cons.prems show ?thesis by (auto simp: ac_simps)
  qed
qed simp

lemma handle_messages_acct:
  "list_all handler_ok hs \<Longrightarrow> acct m (handlers_keys hs + K) T \<Longrightarrow> handle_messages msgs hs m = (hs', f, m') \<Longrightarrow>
   list_all handler_ok hs' \<and> list_all retry_ok f \<and> acct m' (handlers_keys hs' + ckeys f + K) T \<and> keeps m m'"
proof (induction msgs arbitrary: hs m K hs' f m')
  case (Cons msg msgs)
  show ?case
  proof (cases "msg_done msg")
    case True
    obtain hs1 f1 m1 where u: "handle_completed_request msg hs m = (hs1, f1, m1)" by (cases rule: prod_cases3)
    obtain hs2 f2 m2 where v: "handle_messages msgs hs1 m1 = (hs2, f2, m2)" by (cases rule: prod_cases3)
    have a: "list_all handler_ok hs1" "list_all retry_ok f1" "acct m1 (handlers_keys hs1 + (ckeys f1 + K)) T" "keeps m m1"
      using handle_completed_request_acct [OF Cons.prems(1,2) u] by (auto simp: add.assoc)
    from Cons.IH [OF a(1,3) v] a(2,4) Cons.prems(3) u v True show ?thesis
      by (auto simp: ac_simps intro: keeps_trans)
  qed (use Cons in auto)
qed simp

lemma fold_destroy_handler_acct:
  "list_all handler_ok hs \<Longrightarrow> acct m (handlers_keys hs + K) T \<Longrightarrow> acct (fold destroy_handler hs m) K T"
  by (induction hs arbitrary: m) (auto simp: destroy_handler_acct add.assoc)

end
