(* ===== verification/Http_Request_Batches.thy ===== *)
theory Http_Request_Batches
  imports Http_Request_Steps
begin

text \<open>
  The books through the batches and through the stages of \<open>process\<close>: each takes live requests from
  one list of the manager to another or completes them.
\<close>

declare map_of_eq_Some_iff [simp del] Some_eq_map_of_iff [simp del]

section \<open>Batches\<close>

definition batch_ok :: "HttpBatchRequestHandler \<Rightarrow> bool" where
  "batch_ok b =
     (list_all handler_ok (m_handlers b) \<and> list_all retry_ok (b_failed_requests b) \<and>
      (\<not> m_multi_handle b \<longrightarrow> m_handlers b = []))"

definition batch_keys :: "HttpBatchRequestHandler \<Rightarrow> ckey multiset" where
  "batch_keys b = handlers_keys (m_handlers b) + ckeys (b_failed_requests b)"

definition batches_keys :: "HttpBatchRequestHandler list \<Rightarrow> ckey multiset" where
  "batches_keys bs = sum_list (map batch_keys bs)"

lemma batches_keys_simps [simp]:
  "batches_keys [] = {#}" "batches_keys (b # bs) = batch_keys b + batches_keys bs"
  "batches_keys (bs @ bs') = batches_keys bs + batches_keys bs'"
  by (simp_all add: batches_keys_def)

lemma retry_ok_list_live: "list_all retry_ok cs \<Longrightarrow> \<forall>c \<in> set cs. \<not> complete_called c"
  by (auto simp: list_all_iff retry_ok_live)

lemma make_handlers_acct:
  "list_all retry_ok cs \<Longrightarrow> acct m (ckeys cs + K) T \<Longrightarrow> make_handlers ini cs m = (hs, m') \<Longrightarrow>
   list_all handler_ok hs \<and> acct m' (handlers_keys hs + K) T \<and> keeps m m'"
proof (induction cs arbitrary: m K hs m')
  case (Cons c cs)
  show ?case
  proof (cases "ini c")
    case None
    have "acct (finish_context aborted_response c m) (ckeys cs + K) T"
      by (rule acct_finish) (use Cons.prems in \<open>simp_all add: retry_ok_live\<close>)
    from Cons.IH [OF _ this] Cons.prems None show ?thesis by (auto intro: keeps_trans [OF keeps_finish])
  next
    case (Some x)
    obtain hs1 m1 where r: "make_handlers ini cs m = (hs1, m1)" by fastforce
    have "acct m (ckeys cs + add_mset (ckey c) K) T" using Cons.prems(2) by simp
    from Cons.IH [OF _ this r] Cons.prems Some r show ?thesis by auto
  qed
qed simp

lemma batch_new_acct:
  assumes "list_all retry_ok cs" "acct m (ckeys cs + K) T" "HttpBatchRequestHandler_new env cs m = (b, m')"
  shows "batch_ok b \<and> acct m' (batch_keys b + K) T \<and> keeps m m'"
proof (cases "multi_init_ok env")
  case True
  obtain hs m1 where "make_handlers (easy_init env) cs m = (hs, m1)" by fastforce
  with make_handlers_acct [OF assms(1,2) this] assms(3) True show ?thesis
    by (auto simp: HttpBatchRequestHandler_new_def batch_ok_def batch_keys_def)
next
  case False
  have "acct (fold (finish_context aborted_response) cs m) K T"
    by (rule acct_fold_finish) (use assms retry_ok_list_live in \<open>auto simp: ckeys_def\<close>)
  moreover have "keeps m (fold (finish_context aborted_response) cs m)" by (rule keeps_fold) simp
  ultimately show ?thesis
    using assms(3) False by (auto simp: HttpBatchRequestHandler_new_def batch_ok_def batch_keys_def)
qed

lemma keeps_destroy_batch [simp]: "keeps m (destroy_batch b m)"
proof -
  have "keeps m (fold destroy_context cs m)" for cs by (rule keeps_fold) simp
  moreover have "keeps x (fold destroy_handler hs x)" for x hs by (rule keeps_fold) simp
  ultimately show ?thesis unfolding destroy_batch_def using keeps_trans by blast
qed

lemma destroy_batch_acct:
  "batch_ok b \<Longrightarrow> acct m (handlers_keys (m_handlers b) + K) T \<Longrightarrow> acct (destroy_batch b m) K T"
  by (simp add: batch_ok_def destroy_batch_def fold_destroy_handler_acct acct_fold_destroy)

lemma batch_process_acct:
  assumes "batch_ok b" "acct m (batch_keys b + K) T" "batch_process inp b m = (b', m', finished)"
  shows "batch_ok b' \<and> acct m' (batch_keys b' + K) T \<and> keeps m m' \<and> (finished \<longrightarrow> m_handlers b' = [])"
proof (cases "m_multi_handle b")
  case False
  with assms show ?thesis by (auto simp: batch_ok_def batch_process_def batch_keys_def)
next
  case True
  obtain hs1 m1 where t: "run_transfers (transfers inp) (m_handlers b) m = (hs1, m1)" by fastforce
  obtain hs2 f m2 where u: "handle_messages (messages inp) hs1 m1 = (hs2, f, m2)" by (cases rule: prod_cases3)
  let ?K = "ckeys (b_failed_requests b) + K"
  have h: "list_all handler_ok (m_handlers b)" "list_all retry_ok (b_failed_requests b)"
    using assms(1) by (simp_all add: batch_ok_def)
  have "acct m (handlers_keys (m_handlers b) + ?K) T" using assms(2) by (simp add: batch_keys_def add.assoc)
  from run_transfers_acct [OF h(1) this t]
  have a: "list_all handler_ok hs1" "acct m1 (handlers_keys hs1 + ?K) T" "keeps m m1" by auto
  from handle_messages_acct [OF a(1,2) u]
  have b: "list_all handler_ok hs2" "list_all retry_ok f" "acct m2 (handlers_keys hs2 + (ckeys f + ?K)) T" "keeps m m2"
    using a(3) by (auto simp: add.assoc intro: keeps_trans)
  have "acct (fold destroy_handler hs2 m2) (ckeys f + ?K) T" using b by (simp add: fold_destroy_handler_acct)
  moreover have "keeps m (fold destroy_handler hs2 m2)"
    by (rule keeps_trans [OF b(4)], rule keeps_fold) simp
  ultimately show ?thesis
    using True t u a b h assms(3)
    by (auto simp: batch_process_def batch_ok_def batch_keys_def Let_def ac_simps split: if_splits)
qed

lemma batch_cancel_loop_acct:
  "list_all handler_ok hs \<Longrightarrow> acct m (handlers_keys hs + K) T \<Longrightarrow> batch_cancel_loop rs gs hs m = (hs', m') \<Longrightarrow>
   list_all handler_ok hs' \<and> acct m' (handlers_keys hs' + K) T \<and> keeps m m'"
proof (induction hs arbitrary: m K hs' m')
  case (Cons h hs)
  show ?case
  proof (cases "handler_matches rs gs h")
    case True
    obtain h1 m1 where c: "handler_cancel h m = (h1, m1)" by fastforce
    have "acct m (handler_keys h + (handlers_keys hs + K)) T" using Cons.prems(2) by (simp add: add.assoc)
    from handler_cancel_acct [OF _ this c] Cons.prems(1)
    have a: "handler_ok h1" "acct m1 (handler_keys h1 + (handlers_keys hs + K)) T" "keeps m m1" by auto
    have k: "keeps m (destroy_handler h1 m1)" by (rule keeps_trans [OF a(3)]) simp
    from Cons.IH [OF _ destroy_handler_acct [OF a(1,2)]] Cons.prems True c k show ?thesis
      by (auto intro: keeps_trans)
  next
    case False
    obtain hs1 m1 where r: "batch_cancel_loop rs gs hs m = (hs1, m1)" by fastforce
    have "acct m (handlers_keys hs + (handler_keys h + K)) T" using Cons.prems(2) by (simp add: ac_simps)
    from Cons.IH [OF _ this r] Cons.prems False r show ?thesis by (auto simp: ac_simps)
  qed
qed simp

lemma cancel_batches_acct:
  "list_all batch_ok bs \<Longrightarrow> acct m (batches_keys bs + K) T \<Longrightarrow> cancel_batches rs gs bs m = (bs', m') \<Longrightarrow>
   list_all batch_ok bs' \<and> acct m' (batches_keys bs' + K) T \<and> keeps m m'"
proof (induction bs arbitrary: m K bs' m')
  case (Cons b bs)
  obtain hs m1 where c: "batch_cancel_loop rs gs (m_handlers b) m = (hs, m1)" by fastforce
  obtain bs2 m2 where r: "cancel_batches rs gs bs m1 = (bs2, m2)" by fastforce
  let ?F = "ckeys (b_failed_requests b)"
  have b: "list_all handler_ok (m_handlers b)" "list_all retry_ok (b_failed_requests b)"
    "\<not> m_multi_handle b \<longrightarrow> m_handlers b = []" using Cons.prems(1) by (simp_all add: batch_ok_def)
  have "acct m (handlers_keys (m_handlers b) + (?F + (batches_keys bs + K))) T"
    using Cons.prems(2) by (simp add: batch_keys_def ac_simps)
  from batch_cancel_loop_acct [OF b(1) this c]
  have a: "list_all handler_ok hs" "acct m1 (batches_keys bs + (handlers_keys hs + ?F + K)) T" "keeps m m1"
    by (auto simp: ac_simps)
  have e: "\<not> m_multi_handle b \<Longrightarrow> hs = []" using b(3) c by auto
  from Cons.IH [OF _ a(2) r] Cons.prems(1)
  have "list_all batch_ok bs2" "acct m2 (batches_keys bs2 + (handlers_keys hs + ?F + K)) T" "keeps m m2"
    using a(3) by (auto intro: keeps_trans)
  moreover have "batch_ok (b\<lparr>m_handlers := hs\<rparr>)" using a(1) b(2) e by (simp add: batch_ok_def)
  ultimately show ?case
    using c r Cons.prems(3) by (auto simp: batch_cancel_requests_def batch_keys_def ac_simps)
qed simp

lemma process_batches_acct:
  "list_all batch_ok bs \<Longrightarrow> acct m (batches_keys bs + K) T \<Longrightarrow> process_batches inp k bs m = (bs', f, m') \<Longrightarrow>
   list_all batch_ok bs' \<and> list_all retry_ok f \<and> acct m' (batches_keys bs' + ckeys f + K) T \<and> keeps m m'"
proof (induction bs arbitrary: m k K bs' f m')
  case (Cons b bs)
  obtain b1 m1 d where p: "batch_process (inp k) b m = (b1, m1, d)" by (cases rule: prod_cases3)
  have "acct m (batch_keys b + (batches_keys bs + K)) T" using Cons.prems(2) by (simp add: add.assoc)
  from batch_process_acct [OF _ this p] Cons.prems(1)
  have a: "batch_ok b1" "acct m1 (batch_keys b1 + (batches_keys bs + K)) T" "keeps m m1" "d \<Longrightarrow> m_handlers b1 = []"
    by auto
  show ?case
  proof (cases d)
    case False
    obtain bs2 f2 m2 where r: "process_batches inp (k + 1) bs m1 = (bs2, f2, m2)" by (cases rule: prod_cases3)
    have "acct m1 (batches_keys bs + (batch_keys b1 + K)) T" using a(2) by (simp add: ac_simps)
    from Cons.IH [OF _ this r] Cons.prems False p r a show ?thesis
      by (auto simp: ac_simps intro: keeps_trans)
  next
    case True
    let ?m = "destroy_batch (b1\<lparr>b_failed_requests := []\<rparr>) m1"
    obtain bs2 f2 m2 where r: "process_batches inp (k + 1) bs ?m = (bs2, f2, m2)" by (cases rule: prod_cases3)
    have e: "batch_keys b1 = ckeys (b_failed_requests b1)" "list_all retry_ok (b_failed_requests b1)"
      using a(1,4) True by (simp_all add: batch_keys_def batch_ok_def)
    have "?m = m1" using a(4) True by (simp add: destroy_batch_def)
    then have "acct ?m (batches_keys bs + (ckeys (b_failed_requests b1) + K)) T" "keeps m ?m"
      using a(2,3) e by (simp_all add: ac_simps)
    from Cons.IH [OF _ this(1) r] this(2) Cons.prems True p r e show ?thesis
      by (auto simp: ac_simps intro: keeps_trans)
  qed
qed simp


section \<open>The scan of the pending requests\<close>

lemma acct_limiter:
  assumes "acct m K T" "limiter.justified rl (armed L)" "dues L = dues K" "\<And>g. members g L = members g K"
  shows "acct (m\<lparr>hm_rate_limiter := rl\<rparr>) L T"
  using assms groups_ok_cong [of "m\<lparr>hm_rate_limiter := rl\<rparr>" m]
  by (auto simp: acct_def settled_def groups_ok_def)

lemma arm_context_keeps:
  assumes "arm_context c r rl = (c', rl')"
  shows "limiter.justified rl A \<Longrightarrow> limiter.justified rl' A"
    and "c' = c\<lparr>on_complete := Some (context_release_args c r)\<rparr>"
  using assms by (auto simp: arm_context_def Let_def justified_drop split: option.splits)

text \<open>An admitted request carries, from then on, the closure that will release what the admission
  took; one that carried it already, since an earlier attempt, carries the same.\<close>

lemma admitted_acct:
  assumes "ctx_ok c" "request c = Some r" "acct (m\<lparr>hm_rate_limiter := rl\<rparr>) (add_mset (ckey c) K) T"
    "admit_args (context_release_args c r) now rl = (rl0, True)" "arm_context c r rl0 = (c1, rl1)"
  shows "retry_ok c1" "acct (m\<lparr>hm_rate_limiter := rl1\<rparr>) (add_mset (ckey c1) K) T"
proof -
  let ?a = "context_release_args c r"
  have c1: "c1 = c\<lparr>on_complete := Some ?a\<rparr>" by (rule arm_context_keeps(2) [OF assms(5)])
  then show "retry_ok c1" using assms(1,2) by (simp add: retry_ok_def ctx_ok_def attempts_ok_def context_release_args_def)
  have "limiter.justified rl (armed (add_mset (ckey c) K))" using assms(3) by (simp add: acct_def)
  then have "limiter.justified rl0 (insert ?a (armed (add_mset (ckey c) K)))"
    using limiter.justified_admit [of rl _ ?a now] assms(4) by simp
  moreover have "insert ?a (armed (add_mset (ckey c) K)) = armed (add_mset (ckey c1) K)"
    using assms(1,2) by (auto simp: c1 ckey_def ctx_ok_def split: option.splits)
  ultimately have "limiter.justified rl1 (armed (add_mset (ckey c1) K))"
    using arm_context_keeps(1) [OF assms(5)] by simp
  from acct_limiter [OF assms(3) this] show "acct (m\<lparr>hm_rate_limiter := rl1\<rparr>) (add_mset (ckey c1) K) T"
    by (simp add: c1 ckey_def)
qed

lemma scan_pending_acct:
  "list_all ctx_ok cs \<Longrightarrow> acct (m\<lparr>hm_rate_limiter := rl\<rparr>) (ckeys cs + K) T \<Longrightarrow>
   scan_pending now k cs rl = (kept, failed, rdy, rl') \<Longrightarrow>
   list_all ctx_ok kept \<and> list_all ctx_ok failed \<and> list_all retry_ok rdy \<and>
   acct (m\<lparr>hm_rate_limiter := rl'\<rparr>) (ckeys kept + ckeys failed + ckeys rdy + K) T"
proof (induction cs arbitrary: k rl K kept failed rdy rl')
  case (Cons c cs)
  show ?case
  proof (cases "request c")
    case None
    obtain k1 f1 r1 rl1 where s: "scan_pending now k cs rl = (k1, f1, r1, rl1)" by (cases rule: prod_cases4)
    have "acct (m\<lparr>hm_rate_limiter := rl\<rparr>) (ckeys cs + add_mset (ckey c) K) T" using Cons.prems(2) by simp
    from Cons.IH [OF _ this s] Cons.prems None s show ?thesis by auto
  next
    case (Some r)
    let ?a = "context_release_args c r"
    let ?K = "ckeys cs + K"
    obtain rl0 al where ad: "admit_args ?a (now k) rl = (rl0, al)" by fastforce
    have aw: "allow_request (general_rate_limit r) (specific_rate_limit r) (in_flight_token c)
        (general_rate_limit_key r) (specific_rate_limit_key r) (now k) rl = (rl0, al)"
      using ad by (simp add: admit_args_def context_release_args_def)
    have A: "acct (m\<lparr>hm_rate_limiter := rl\<rparr>) (add_mset (ckey c) ?K) T" using Cons.prems(2) by simp
    then have j: "limiter.justified rl (armed (add_mset (ckey c) ?K))" by (simp add: acct_def)
    show ?thesis
    proof (cases al)
      case False
      obtain k1 f1 r1 rl1 where s: "scan_pending now (k + 1) cs rl0 = (k1, f1, r1, rl1)" by (cases rule: prod_cases4)
      have "limiter.justified rl0 (armed (add_mset (ckey c) ?K))"
        using limiter.justified_refused [OF j, of ?a "now k"] ad False by simp
      from acct_limiter [OF A this] have "acct (m\<lparr>hm_rate_limiter := rl0\<rparr>) (ckeys cs + add_mset (ckey c) K) T" by simp
      from Cons.IH [OF _ this s] Cons.prems Some aw False s show ?thesis by auto
    next
      case True
      obtain c1 rl2 where ar: "arm_context c r rl0 = (c1, rl2)" by fastforce
      obtain k1 f1 r1 rl1 where s: "scan_pending now (k + 1) cs rl2 = (k1, f1, r1, rl1)" by (cases rule: prod_cases4)
      from admitted_acct [OF _ Some A, of "now k" rl0 c1 rl2] ad True ar Cons.prems(1)
      have "retry_ok c1" "acct (m\<lparr>hm_rate_limiter := rl2\<rparr>) (ckeys cs + add_mset (ckey c1) K) T" by simp_all
      then show ?thesis using Cons.IH [OF _ _ s, of "add_mset (ckey c1) K"] Cons.prems Some aw True ar s by auto
    qed
  qed
qed simp

end
