(* ===== verification/Http_Request_Process.thy ===== *)
theory Http_Request_Process
  imports Http_Request_Batches
begin

text \<open>
  The invariant of the request manager, its books over all the lists that hold requests, and that
  every operation keeps it: the stages of \<open>process\<close>, submission, cancellation, waiting and the
  rate-limit operations. \<open>http_reachable\<close> collects the runs of the manager up to its shutdown, with
  the list of the requests it accepted.
\<close>

declare map_of_eq_Some_iff [simp del] Some_eq_map_of_iff [simp del]

section \<open>The invariant\<close>

definition live :: "HttpRequestManager \<Rightarrow> ckey multiset" where
  "live m = ckeys (m_pending_requests m) + ckeys (m_failed_requests m) + batches_keys (m_active_request_batches m)"

definition lists_ok :: "HttpRequestManager \<Rightarrow> bool" where
  "lists_ok m =
     (list_all ctx_ok (m_pending_requests m) \<and> list_all retry_ok (m_failed_requests m) \<and>
      list_all batch_ok (m_active_request_batches m))"

definition hm_inv :: "HttpRequestManager \<Rightarrow> due multiset \<Rightarrow> bool" where
  "hm_inv m T = (lists_ok m \<and> acct m (live m) T)"

text \<open>The part of the state that only the public operations change; of the waiters none is lost, and those of a
  group are called only when it is idle or the manager is shut down.\<close>

definition frame :: "HttpRequestManager \<Rightarrow> HttpRequestManager \<Rightarrow> bool" where
  "frame m m' =
     (m_next_in_flight_token m' = m_next_in_flight_token m \<and> m_shutdown m' = m_shutdown m \<and>
      m_max_pending_requests m' = m_max_pending_requests m \<and> m_waiter_id_counter m' = m_waiter_id_counter m \<and>
      prefix (hm_log m) (hm_log m') \<and> waiters_kept (m_group_waiters m) (hm_log m) (m_group_waiters m') (hm_log m') \<and> (m_shutdown m \<or> wakes m m'))"

lemma frame_refl [simp]: "frame m m"
  by (simp add: frame_def)

lemma frame_trans: "frame a b \<Longrightarrow> frame b c \<Longrightarrow> frame a c"
  unfolding frame_def by (metis (no_types) wakes_trans waiters_kept_trans prefix_order.trans)

lemma frame_fields [simp]:
  "frame (m\<lparr>m_pending_requests := ps\<rparr>) m' = frame m m'" "frame m (m'\<lparr>m_pending_requests := ps\<rparr>) = frame m m'"
  "frame (m\<lparr>m_failed_requests := fs\<rparr>) m' = frame m m'" "frame m (m'\<lparr>m_failed_requests := fs\<rparr>) = frame m m'"
  "frame (m\<lparr>m_active_request_batches := bs\<rparr>) m' = frame m m'" "frame m (m'\<lparr>m_active_request_batches := bs\<rparr>) = frame m m'"
  "frame (m\<lparr>m_requests_to_cancel_by_id := rs\<rparr>) m' = frame m m'" "frame (m\<lparr>m_groups_to_cancel := gs\<rparr>) m' = frame m m'"
  "frame (m\<lparr>hm_rate_limiter := rl\<rparr>) m' = frame m m'"
  by (simp_all add: frame_def)

lemma frame_keeps: "keeps m m' \<Longrightarrow> frame m m'"
  by (simp add: frame_def keeps_def wakes_def)

text \<open>The stages before the cancellations leave the requested cancellations alone as well.\<close>

definition calm :: "HttpRequestManager \<Rightarrow> HttpRequestManager \<Rightarrow> bool" where
  "calm m m' = (frame m m' \<and> m_requests_to_cancel_by_id m' = m_requests_to_cancel_by_id m \<and>
     m_groups_to_cancel m' = m_groups_to_cancel m)"

lemma calm_trans: "calm a b \<Longrightarrow> calm b c \<Longrightarrow> calm a c"
  by (auto simp: calm_def intro: frame_trans)

lemma calm_keeps: "keeps m m' \<Longrightarrow> calm m m'"
  by (simp add: calm_def frame_keeps) (simp add: keeps_def)

lemma calm_fields [simp]:
  "calm m m"
  "calm (m\<lparr>m_pending_requests := ps\<rparr>) m' = calm m m'" "calm m (m'\<lparr>m_pending_requests := ps\<rparr>) = calm m m'"
  "calm (m\<lparr>m_failed_requests := fs\<rparr>) m' = calm m m'" "calm m (m'\<lparr>m_failed_requests := fs\<rparr>) = calm m m'"
  "calm m (m'\<lparr>m_active_request_batches := bs\<rparr>) = calm m m'" "calm (m\<lparr>hm_rate_limiter := rl\<rparr>) m' = calm m m'"
  by (simp_all add: calm_def)

lemma live_keeps: "keeps m m' \<Longrightarrow> live m' = live m"
  by (simp add: keeps_def live_def)

lemma lists_ok_keeps: "keeps m m' \<Longrightarrow> lists_ok m' = lists_ok m"
  by (simp add: keeps_def lists_ok_def)

lemma hm_inv_cong:
  assumes "m_pending_requests m' = m_pending_requests m" "m_failed_requests m' = m_failed_requests m"
    "m_active_request_batches m' = m_active_request_batches m" "hm_log m' = hm_log m"
    "m_group_request_counts m' = m_group_request_counts m" "hm_rate_limiter m' = hm_rate_limiter m"
  shows "hm_inv m' T = hm_inv m T"
  using assms acct_cong [of m' m] by (simp add: hm_inv_def lists_ok_def live_def)

lemma hm_inv_silent: "silent ls \<Longrightarrow> hm_inv (hm_logs ls m) T = hm_inv m T"
  by (simp add: hm_inv_def acct_silent lists_ok_def live_def) (simp add: hm_logs_def)

lemma hm_inv_limiter:
  assumes "hm_inv m T" "\<And>A. limiter.justified (hm_rate_limiter m) A \<Longrightarrow> limiter.justified rl A"
  shows "hm_inv (m\<lparr>hm_rate_limiter := rl\<rparr>) T"
  using assms acct_limiter [of m "live m" T rl "live m"]
  by (simp add: hm_inv_def acct_def lists_ok_def live_def)

lemma ctx_ok_list_live: "list_all ctx_ok cs \<Longrightarrow> \<forall>c \<in> set cs. \<not> complete_called c"
  by (auto simp: list_all_iff ctx_ok_live)

section \<open>The stages of process\<close>

text \<open>The requests that fail for want of a request are answered; those that start are still to be placed.\<close>

lemma pending_failed_acct:
  assumes "hm_inv m T" "scan_pending (now_allow env) 0 (m_pending_requests m) (hm_rate_limiter m) = (kept, failed, rdy, rl)"
  shows "list_all ctx_ok kept" "list_all retry_ok rdy"
    "acct (finish_contexts bad_request_response failed (m\<lparr>m_pending_requests := kept, hm_rate_limiter := rl\<rparr>))
      (ckeys rdy + (ckeys kept + (ckeys (m_failed_requests m) + batches_keys (m_active_request_batches m)))) T"
proof -
  let ?K = "ckeys (m_failed_requests m) + batches_keys (m_active_request_batches m)"
  let ?m1 = "m\<lparr>m_pending_requests := kept, hm_rate_limiter := rl\<rparr>"
  have l: "list_all ctx_ok (m_pending_requests m)" using assms(1) by (simp add: hm_inv_def lists_ok_def)
  have "acct (m\<lparr>hm_rate_limiter := hm_rate_limiter m\<rparr>) (ckeys (m_pending_requests m) + ?K) T"
    using assms(1) by (simp add: hm_inv_def live_def add.assoc)
  from scan_pending_acct [OF l this assms(2)]
  have a: "list_all ctx_ok kept" "list_all ctx_ok failed" "list_all retry_ok rdy"
    "acct (m\<lparr>hm_rate_limiter := rl\<rparr>) (ckeys failed + (ckeys rdy + (ckeys kept + ?K))) T" by (auto simp: ac_simps)
  then show "list_all ctx_ok kept" "list_all retry_ok rdy" by simp_all
  have "acct ?m1 (ckeys failed + (ckeys rdy + (ckeys kept + ?K))) T"
    using a(4) acct_cong [of ?m1 "m\<lparr>hm_rate_limiter := rl\<rparr>"] by simp
  then show "acct (finish_contexts bad_request_response failed ?m1) (ckeys rdy + (ckeys kept + ?K)) T"
    by (intro acct_finish_contexts) (use a ctx_ok_list_live in \<open>auto simp: ckeys_def\<close>)
qed

lemma process_pending_inv:
  assumes "hm_inv m T"
  shows "hm_inv (process_pending_requests env m) T \<and> calm m (process_pending_requests env m)"
proof (cases "m_pending_requests m = []")
  case False
  obtain kept failed rdy rl where s: "scan_pending (now_allow env) 0 (m_pending_requests m) (hm_rate_limiter m) =
      (kept, failed, rdy, rl)" by (cases rule: prod_cases4)
  let ?K = "ckeys (m_failed_requests m) + batches_keys (m_active_request_batches m)"
  let ?m2 = "finish_contexts bad_request_response failed (m\<lparr>m_pending_requests := kept, hm_rate_limiter := rl\<rparr>)"
  note a = pending_failed_acct [OF assms s]
  have l: "list_all retry_ok (m_failed_requests m)" "list_all batch_ok (m_active_request_batches m)"
    using assms by (simp_all add: hm_inv_def lists_ok_def)
  have k2: "keeps (m\<lparr>m_pending_requests := kept, hm_rate_limiter := rl\<rparr>) ?m2" by simp
  have f2: "calm m ?m2" using calm_keeps [OF k2] by simp
  have fin: "hm_inv m' T \<and> calm m m'" if "keeps ?m2 m'" "acct m' (ckeys kept + ?K) T" for m'
    using that k2 a l calm_trans [OF f2 calm_keeps [OF that(1)]]
    by (auto simp: hm_inv_def lists_ok_def live_def keeps_def add.assoc)
  consider "rdy = []" | "rdy \<noteq> []" "\<not> batch_alloc_ok env" | "rdy \<noteq> []" "batch_alloc_ok env" by blast
  then show ?thesis
  proof cases
    case 1
    with fin [of ?m2] a(3) False s show ?thesis by (simp add: process_pending_requests_def)
  next
    case 2
    have "acct (finish_contexts aborted_response rdy ?m2) (ckeys kept + ?K) T"
      by (rule acct_finish_contexts) (use a retry_ok_list_live in \<open>auto simp: ckeys_def\<close>)
    with fin [of "finish_contexts aborted_response rdy ?m2"] 2 False s show ?thesis
      by (simp add: process_pending_requests_def)
  next
    case 3
    obtain b m3 where b: "HttpBatchRequestHandler_new env rdy ?m2 = (b, m3)" by fastforce
    from batch_new_acct [OF a(2,3) b]
    have c: "batch_ok b" "acct m3 (batch_keys b + (ckeys kept + ?K)) T" "keeps ?m2 m3" by auto
    have "hm_inv (m3\<lparr>m_active_request_batches := m_active_request_batches m3 @ [b]\<rparr>) T"
      using c k2 a l by (auto simp: hm_inv_def lists_ok_def live_def keeps_def ac_simps)
    with 3 False s b calm_trans [OF f2 calm_keeps [OF c(3)]] show ?thesis by (simp add: process_pending_requests_def)
  qed
qed (use assms in \<open>simp add: process_pending_requests_def\<close>)

lemma process_active_inv:
  assumes "hm_inv m T"
  shows "hm_inv (process_active_requests env m) T \<and> calm m (process_active_requests env m)"
proof -
  obtain bs f m1 where p: "process_batches (curl env) 0 (m_active_request_batches m) m = (bs, f, m1)"
    by (cases rule: prod_cases3)
  let ?K = "ckeys (m_pending_requests m) + ckeys (m_failed_requests m)"
  have l: "list_all ctx_ok (m_pending_requests m)" "list_all retry_ok (m_failed_requests m)"
    "list_all batch_ok (m_active_request_batches m)" using assms by (simp_all add: hm_inv_def lists_ok_def)
  have "acct m (batches_keys (m_active_request_batches m) + ?K) T"
    using assms by (simp add: hm_inv_def live_def ac_simps)
  from process_batches_acct [OF l(3) this p] l calm_keeps [of m m1] show ?thesis
    by (auto simp: process_active_requests_def p hm_inv_def lists_ok_def live_def keeps_def ac_simps)
qed

lemma retry_scan_keys:
  "list_all retry_ok cs \<Longrightarrow> retry_scan now k cs = (kept, again, dropped) \<Longrightarrow>
   list_all retry_ok kept \<and> list_all retry_ok again \<and> dropped = [] \<and> ckeys cs = ckeys kept + ckeys again"
proof (induction cs arbitrary: k kept again dropped)
  case (Cons c cs)
  obtain k1 a1 d1 where r: "retry_scan now (k + 1) cs = (k1, a1, d1)" by (cases rule: prod_cases3)
  from Cons.prems(1) obtain rq where "request c = Some rq" by (auto simp: retry_ok_def)
  with Cons.IH [OF _ r] Cons.prems r show ?case by (auto split: if_splits)
qed simp

lemma process_retry_inv:
  assumes "hm_inv m T"
  shows "hm_inv (process_retry_failed_requests env m) T \<and> calm m (process_retry_failed_requests env m)"
proof -
  obtain kept again dropped where r: "retry_scan (now_retry env) 0 (m_failed_requests m) = (kept, again, dropped)"
    by (cases rule: prod_cases3)
  have l: "list_all retry_ok (m_failed_requests m)" using assms by (simp add: hm_inv_def lists_ok_def)
  have "list_all ctx_ok again" using retry_scan_keys [OF l r] by (auto simp: list_all_iff retry_ok_def)
  with retry_scan_keys [OF l r] assms show ?thesis
    by (auto simp: process_retry_failed_requests_def r hm_inv_def lists_ok_def live_def ac_simps)
qed

lemma ckeys_split: "ckeys cs = ckeys (filter P cs) + ckeys (filter (\<lambda>c. \<not> P c) cs)"
  by (induction cs) auto

lemma list_all_filter: "list_all Q xs \<Longrightarrow> list_all Q (filter P xs)"
  by (simp add: list_all_iff)

text \<open>The cancelled requests that are pending or wait for a retry are answered.\<close>

lemma cancel_lists_acct:
  fixes h :: "HttpRequestContext \<Rightarrow> bool"
  assumes "hm_inv m T"
  defines "Pk \<equiv> filter (\<lambda>c. \<not> h c) (m_pending_requests m)" and "Fk \<equiv> filter (\<lambda>c. \<not> h c) (m_failed_requests m)"
  defines "m1 \<equiv> m\<lparr>m_requests_to_cancel_by_id := [], m_groups_to_cancel := [], m_pending_requests := Pk\<rparr>"
  defines "m2 \<equiv> fold (deliver_final make_cancelled_response) (filter h (m_pending_requests m)) m1"
  defines "m3 \<equiv> m2\<lparr>m_failed_requests := Fk\<rparr>"
  defines "m4 \<equiv> fold (finish_context make_cancelled_response) (filter h (m_failed_requests m)) m3"
  shows "acct m4 (batches_keys (m_active_request_batches m) + (ckeys Pk + ckeys Fk)) T"
    "keeps m1 m2" "keeps m3 m4" "frame m m4"
proof -
  let ?P = "m_pending_requests m" and ?F = "m_failed_requests m" and ?B = "m_active_request_batches m"
  let ?K = "ckeys Pk + ckeys Fk"
  have l: "list_all ctx_ok ?P" "list_all retry_ok ?F" using assms by (simp_all add: hm_inv_def lists_ok_def)
  show k2: "keeps m1 m2" unfolding m2_def by (rule keeps_fold) simp
  show k4: "keeps m3 m4" unfolding m4_def by (rule keeps_fold) simp
  have "frame m m2" using frame_keeps [OF k2] by (simp add: m1_def)
  with frame_keeps [OF k4] show "frame m m4" unfolding m3_def frame_fields by (rule frame_trans [rotated])
  have "acct m1 (ckeys (filter h ?P) + (ckeys (filter h ?F) + (?K + batches_keys ?B))) T"
    using assms ckeys_split [of ?P h] ckeys_split [of ?F h] by (simp add: hm_inv_def live_def m1_def Pk_def Fk_def ac_simps)
  then have "acct m2 (ckeys (filter h ?F) + (?K + batches_keys ?B)) T" unfolding m2_def
    by (intro acct_fold_deliver)
      (use ctx_ok_list_live [OF list_all_filter [OF l(1)]] in \<open>simp_all add: ckeys_def\<close>)
  then have "acct m4 (?K + batches_keys ?B) T" unfolding m4_def
    by (intro acct_fold_finish)
      (use retry_ok_list_live [OF list_all_filter [OF l(2)]] in \<open>simp_all add: ckeys_def m3_def\<close>)
  then show "acct m4 (batches_keys ?B + ?K) T" by (simp add: ac_simps)
qed

lemma process_cancel_inv:
  assumes "hm_inv m T"
  shows "hm_inv (process_cancel_requests m) T \<and> frame m (process_cancel_requests m)"
proof (cases "m_requests_to_cancel_by_id m = [] \<and> m_groups_to_cancel m = []")
  case False
  let ?rs = "m_requests_to_cancel_by_id m" and ?gs = "m_groups_to_cancel m"
  let ?h = "\<lambda>c. matches_cancel c ?rs ?gs"
  let ?P = "m_pending_requests m" and ?F = "m_failed_requests m" and ?B = "m_active_request_batches m"
  let ?Pk = "filter (\<lambda>c. \<not> ?h c) ?P" and ?Fk = "filter (\<lambda>c. \<not> ?h c) ?F"
  let ?m1 = "m\<lparr>m_requests_to_cancel_by_id := [], m_groups_to_cancel := [], m_pending_requests := ?Pk\<rparr>"
  let ?m2 = "fold (deliver_final make_cancelled_response) (filter ?h ?P) ?m1"
  let ?m4 = "fold (finish_context make_cancelled_response) (filter ?h ?F) (?m2\<lparr>m_failed_requests := ?Fk\<rparr>)"
  obtain bs m5 where cb: "cancel_batches ?rs ?gs ?B ?m4 = (bs, m5)" by fastforce
  have l: "list_all ctx_ok ?P" "list_all retry_ok ?F" "list_all batch_ok ?B"
    using assms by (simp_all add: hm_inv_def lists_ok_def)
  note a4 = cancel_lists_acct [OF assms, of ?h]
  from cancel_batches_acct [OF l(3) a4(1) cb]
  have a5: "list_all batch_ok bs" "acct m5 (batches_keys bs + (ckeys ?Pk + ckeys ?Fk)) T" "keeps ?m4 m5" by auto
  let ?m6 = "m5\<lparr>m_active_request_batches := bs\<rparr>"
  let ?m7 = "hm_logs (cancel_callbacks ?gs) (hm_logs (cancel_callbacks ?rs) ?m6)"
  let ?m8 = "fold destroy_context (filter ?h ?P) ?m7"
  have k6: "keeps ?m6 ?m7" by (rule keeps_trans [OF keeps_logs keeps_logs]) (simp_all add: quiet_cancel_callbacks)
  have k8: "keeps ?m6 ?m8" by (rule keeps_trans [OF k6 keeps_fold]) simp
  have "hm_inv ?m6 T"
    using a4(2,3) a5 list_all_filter [OF l(1)] list_all_filter [OF l(2)]
    by (auto simp: hm_inv_def lists_ok_def live_def keeps_def ac_simps)
  then have "hm_inv ?m8 T"
    using live_keeps [OF k8] lists_ok_keeps [OF k8]
    by (simp add: hm_inv_def acct_fold_destroy acct_silent silent_cancel_callbacks)
  moreover have "frame m ?m8"
    using frame_trans [OF frame_trans [OF a4(4) frame_keeps [OF a5(3)]]] frame_keeps [OF k8] by simp
  moreover have "m_active_request_batches ?m4 = ?B" "m_failed_requests ?m2 = ?F"
    using a4(2,3) by (simp_all add: keeps_def)
  ultimately show ?thesis using assms cb by (simp add: process_cancel_requests_def Let_def)
qed (use assms in \<open>simp add: process_cancel_requests_def\<close>)

lemma silent_waiter_lists: "silent (concat (map (\<lambda>(_, ws). waiter_logs ws) gs))"
  by (rule silent_concat) (auto simp: silent_waiters)

lemma notify_idle_inv: "hm_inv (notify_group_waiters_if_idle m) T = hm_inv m T"
  unfolding notify_group_waiters_if_idle_def Let_def
  by (simp add: hm_inv_silent silent_waiter_lists) (rule hm_inv_cong; simp)

lemma notify_all_inv: "hm_inv (notify_all_group_waiters m) T = hm_inv m T"
  unfolding notify_all_group_waiters_def
  by (simp add: hm_inv_silent silent_waiter_lists) (rule hm_inv_cong; simp)

lemma map_of_filter_key: "map_of (filter (\<lambda>x. \<not> (case x of (g, _) \<Rightarrow> P g)) gs) g = (if P g then None else map_of gs g)"
  by (induction gs) auto

lemma frame_notify: "frame m (notify_group_waiters_if_idle m)" "m_shutdown m \<Longrightarrow> frame m (notify_all_group_waiters m)"
  using waiters_kept_filter [of "m_group_waiters m" "hm_log m" "\<lambda>(g, _). group_request_count_unlocked g m = 0"]
    waiters_kept_filter [of "m_group_waiters m" "hm_log m" "\<lambda>_. True"]
  by (simp_all add: frame_def wakes_def notify_group_waiters_if_idle_def notify_all_group_waiters_def hm_logs_def Let_def
      map_of_filter_key group_request_count_unlocked_def)

lemma http_stages_inv:
  assumes "hm_inv m T"
  shows "hm_inv (process_retry_failed_requests env (process_active_requests env (process_pending_requests env m))) T \<and>
    calm m (process_retry_failed_requests env (process_active_requests env (process_pending_requests env m)))"
proof -
  let ?m1 = "process_pending_requests env m"
  let ?m2 = "process_active_requests env ?m1"
  have "hm_inv ?m1 T" "calm m ?m1" using process_pending_inv [OF assms] by auto
  moreover from this(1) have "hm_inv ?m2 T" "calm ?m1 ?m2" using process_active_inv by auto
  moreover from this(1) have "hm_inv (process_retry_failed_requests env ?m2) T" "calm ?m2 (process_retry_failed_requests env ?m2)"
    using process_retry_inv by auto
  ultimately show ?thesis using calm_trans by blast
qed

lemma http_process_inv:
  assumes "hm_inv m T"
  shows "hm_inv (http_process env m) T \<and> frame m (http_process env m)"
proof (cases "m_shutdown m")
  case False
  let ?m3 = "process_retry_failed_requests env (process_active_requests env (process_pending_requests env m))"
  let ?m4 = "process_cancel_requests ?m3"
  have "hm_inv ?m3 T" "frame m ?m3" using http_stages_inv [OF assms] by (auto simp: calm_def)
  moreover from this(1) have "hm_inv ?m4 T" "frame ?m3 ?m4" using process_cancel_inv by auto
  ultimately have "hm_inv ?m4 T" "frame m ?m4" using frame_trans by blast+
  with False frame_trans [OF _ frame_notify(1)] show ?thesis by (simp add: http_process_def notify_idle_inv)
qed (use assms in \<open>simp add: http_process_def notify_all_inv frame_notify\<close>)

section \<open>Submission\<close>

definition new_context :: "HttpRequest option \<Rightarrow> cb option \<Rightarrow> u64 \<Rightarrow> HttpRequestContext" where
  "new_context rq f token =
     (let g = (case rq of None \<Rightarrow> 0 | Some r \<Rightarrow> group_id r)
      in \<lparr>request = rq, callback = f, retry_attempt = 0, start_time = 0, in_flight_token = token,
          on_complete = None, on_group_complete = (if g \<noteq> 0 then Some g else None), complete_called = False\<rparr>)"

lemma ctx_ok_new [simp]: "ctx_ok (new_context rq f t)"
  by (simp add: new_context_def ctx_ok_def attempts_ok_def request_group_def Let_def split: option.split)

lemma groups_ok_increment:
  assumes "groups_ok m K" "g \<noteq> 0" "fst (snd x) = Some g"
  shows "groups_ok (m\<lparr>m_group_request_counts :=
    AList.update g (group_request_count_unlocked g m + 1) (m_group_request_counts m)\<rparr>) (add_mset x K)"
  using assms by (auto simp: groups_ok_def group_request_count_unlocked_def split: if_splits)

text \<open>What a request adds to the manager, before it is known whether the list can hold it.\<close>

definition counted :: "HttpRequestContext \<Rightarrow> HttpRequestManager \<Rightarrow> HttpRequestManager" where
  "counted c m =
     (let m1 = m\<lparr>m_next_in_flight_token := m_next_in_flight_token m + 1\<rparr>
      in case on_group_complete c of
           None \<Rightarrow> m1
         | Some g \<Rightarrow> m1\<lparr>m_group_request_counts :=
             AList.update g (group_request_count_unlocked g m1 + 1) (m_group_request_counts m1)\<rparr>)"

lemma submit_request_accept:
  assumes "\<not> m_shutdown m" "m_max_pending_requests m = 0 \<or> length (m_pending_requests m) < m_max_pending_requests m"
  shows "submit_request True rq f m =
    (let c = new_context rq f (m_next_in_flight_token m); m' = counted c m
     in (m'\<lparr>m_pending_requests := m_pending_requests m' @ [c]\<rparr>, Some (submit_result True no_error)))"
  using assms
  by (cases "m_max_pending_requests m = 0")
    (simp_all add: submit_request_def new_context_def counted_def Let_def split: option.split)

lemma submit_request_reject:
  assumes "m_shutdown m \<or> m_max_pending_requests m \<noteq> 0 \<and> length (m_pending_requests m) \<ge> m_max_pending_requests m"
  shows "submit_request p rq f m =
    (case rq of None \<Rightarrow> m | Some r \<Rightarrow> drop_request r m,
     Some (submit_result False (client_error (if m_shutdown m then ShuttingDown else QueueLimitExceeded))))"
  using assms by (auto simp: submit_request_def Let_def)

text \<open>When the list cannot hold the request the group counter is put back: as a map it is the one from
  before, and only the token is used up.\<close>

lemma submit_request_throw:
  assumes "\<not> m_shutdown m" "m_max_pending_requests m = 0 \<or> length (m_pending_requests m) < m_max_pending_requests m"
    and "\<forall>g n. map_of (m_group_request_counts m) g = Some n \<longrightarrow> n \<noteq> 0"
    and "submit_request False rq f m = (m', res)"
  shows "res = None"
    and "\<exists>cs. map_of cs = map_of (m_group_request_counts m) \<and>
      (umap_distinct (m_group_request_counts m) \<longrightarrow> umap_distinct cs) \<and>
      m' = destroy_context (new_context rq f (m_next_in_flight_token m))
        (m\<lparr>m_next_in_flight_token := m_next_in_flight_token m + 1, m_group_request_counts := cs\<rparr>)"
proof -
  let ?g = "case rq of None \<Rightarrow> 0 | Some r \<Rightarrow> group_id r"
  let ?t = "m_next_in_flight_token m"
  let ?gc = "m_group_request_counts m"
  let ?n = "case map_of ?gc ?g of None \<Rightarrow> 0 | Some n \<Rightarrow> n"
  let ?up = "AList.update ?g (?n + 1) ?gc"
  define cs where "cs = (if ?g = 0 then ?gc else if ?n + 1 > 1 then AList.update ?g ?n ?up else AList.delete ?g ?up)"
  have e: "submit_request False rq f m = (destroy_context (new_context rq f ?t)
      (m\<lparr>m_next_in_flight_token := ?t + 1, m_group_request_counts := cs\<rparr>), None)"
    using assms(1,2)
    by (cases "m_max_pending_requests m = 0"; cases "?g = 0"; cases "map_of ?gc ?g")
      (simp_all add: submit_request_def new_context_def group_request_count_unlocked_def cs_def Let_def)
  with assms(4) show "res = None" by simp
  have "map_of cs = map_of ?gc"
    using assms(3) by (auto simp: cs_def fun_eq_iff split: option.split)
  moreover have "umap_distinct ?gc \<longrightarrow> umap_distinct cs" by (simp add: cs_def)
  ultimately show "\<exists>cs. map_of cs = map_of ?gc \<and> (umap_distinct ?gc \<longrightarrow> umap_distinct cs) \<and>
      m' = destroy_context (new_context rq f ?t) (m\<lparr>m_next_in_flight_token := ?t + 1, m_group_request_counts := cs\<rparr>)"
    using e assms(4) by auto
qed

lemma hm_inv_next_token [simp]: "hm_inv (m\<lparr>m_next_in_flight_token := t\<rparr>) T = hm_inv m T"
  by (rule hm_inv_cong) simp_all

lemma keeps_drop_request [simp]: "keeps m (drop_request r m)"
  by (simp add: drop_request_def)

lemma hm_inv_drop_request: "hm_inv m T \<Longrightarrow> hm_inv (drop_request r m) T"
  unfolding hm_inv_def
  using live_keeps [OF keeps_drop_request] lists_ok_keeps [OF keeps_drop_request]
  by (auto simp: drop_request_def justified_drop intro: acct_limiter_shrink)

lemma submit_accept_inv:
  assumes "hm_inv m T"
  shows "hm_inv (let c = new_context rq f (m_next_in_flight_token m); m' = counted c m
     in m'\<lparr>m_pending_requests := m_pending_requests m' @ [c]\<rparr>) (T + dues_of (m_next_in_flight_token m, f))"
proof -
  let ?c = "new_context rq f (m_next_in_flight_token m)"
  have k: "ckey ?c = ((m_next_in_flight_token m, f), on_group_complete ?c, None)"
    by (simp add: new_context_def ckey_def Let_def)
  have s: "lists_ok (counted ?c m) = lists_ok m" "live (counted ?c m) = live m" "settled (counted ?c m) = settled m"
    "hm_rate_limiter (counted ?c m) = hm_rate_limiter m"
    by (simp_all add: counted_def lists_ok_def live_def settled_def Let_def split: option.split)
  have g: "groups_ok m (live m)" using assms by (simp add: hm_inv_def acct_def)
  have "groups_ok (counted ?c m) (add_mset (ckey ?c) (live m))"
  proof (cases "on_group_complete ?c")
    case None
    then have "groups_ok (counted ?c m) (live m)" using g groups_ok_cong [of "counted ?c m" m] by (simp add: counted_def)
    with None k show ?thesis by (simp add: groups_ok_def)
  next
    case (Some g')
    then have "g' \<noteq> 0" by (auto simp: new_context_def Let_def split: if_splits)
    let ?m' = "m\<lparr>m_group_request_counts :=
      AList.update g' (group_request_count_unlocked g' m + 1) (m_group_request_counts m)\<rparr>"
    have "m_group_request_counts (counted ?c m) = m_group_request_counts ?m'"
      using Some by (simp add: counted_def group_request_count_unlocked_def Let_def)
    from groups_ok_cong [OF this] groups_ok_increment [OF g \<open>g' \<noteq> 0\<close>, of "ckey ?c"] Some k show ?thesis by simp
  qed
  then have "acct (counted ?c m) (add_mset (ckey ?c) (live m)) (T + dues_of (m_next_in_flight_token m, f))"
    using assms s k by (auto simp: hm_inv_def acct_def ac_simps)
  moreover have "lists_ok (counted ?c m)" using assms s by (simp add: hm_inv_def)
  ultimately show ?thesis using s by (simp add: hm_inv_def lists_ok_def live_def Let_def)
qed

lemma submit_throw_inv:
  assumes "hm_inv m T" "map_of cs = map_of (m_group_request_counts m)"
    and "umap_distinct (m_group_request_counts m) \<longrightarrow> umap_distinct cs"
  shows "hm_inv (destroy_context c (m\<lparr>m_next_in_flight_token := t, m_group_request_counts := cs\<rparr>)) T"
proof -
  let ?m = "m\<lparr>m_next_in_flight_token := t, m_group_request_counts := cs\<rparr>"
  have "groups_ok m (live m)" using assms(1) by (simp add: hm_inv_def acct_def)
  moreover have "group_request_count_unlocked g ?m = group_request_count_unlocked g m" for g
    using assms(2) by (simp add: group_request_count_unlocked_def)
  ultimately have "groups_ok ?m (live m)" using assms(2,3) by (simp add: groups_ok_def)
  moreover have "live ?m = live m" "settled ?m = settled m" by (simp_all add: live_def settled_def)
  ultimately have "hm_inv ?m T" using assms(1) by (simp add: hm_inv_def acct_def lists_ok_def)
  then show ?thesis
    unfolding hm_inv_def
    using live_keeps [OF keeps_destroy_context] lists_ok_keeps [OF keeps_destroy_context] by (simp add: acct_destroy_context)
qed


section \<open>Runs\<close>

datatype http_op =
    Submit bool "HttpRequest option" "cb option"
  | SetMaxPending nat
  | CreateLimit int int bool
  | GetLimit int
  | RemoveLimit int
  | RemoveLimitHandle HttpRateLimitHandlePtr
  | CopyHandle HttpRateLimitHandlePtr
  | DropHandle HttpRateLimitHandlePtr
  | CancelRequest u64 "cb option"
  | CancelGroup u64 "cb option"
  | WaitGroup u64 "cb option"
  | CancelWait u64 u64
  | NewRequestId
  | NewGroupId
  | Process http_env

text \<open>An operation with the request it accepted, if any: its token and callback.\<close>

fun http_exec :: "http_op \<Rightarrow> HttpRequestManager \<Rightarrow> HttpRequestManager \<times> (u64 \<times> cb option) list" where
  "http_exec (Submit p rq f) m =
     (let (m', r) = submit_request p rq f m
      in (m', case r of None \<Rightarrow> [] | Some s \<Rightarrow> if accepted s then [(m_next_in_flight_token m, f)] else []))"
| "http_exec (SetMaxPending n) m = (set_max_pending_requests n m, [])"
| "http_exec (CreateLimit rpp per seq) m = (fst (create_rate_limit rpp per seq m), [])"
| "http_exec (GetLimit i) m = (fst (get_rate_limit i m), [])"
| "http_exec (RemoveLimit i) m = (fst (hm_remove_limit i m), [])"
| "http_exec (RemoveLimitHandle h) m = (fst (hm_remove_limit_handle h m), [])"
| "http_exec (CopyHandle h) m = (on_limiter (copy_handle h) m, [])"
| "http_exec (DropHandle h) m = (on_limiter (drop_handle h) m, [])"
| "http_exec (CancelRequest i f) m = (cancel_request_by_id i f m, [])"
| "http_exec (CancelGroup g f) m = (cancel_requests_by_group_id g f m, [])"
| "http_exec (WaitGroup g f) m = (fst (wait_requests_by_group_id g f m), [])"
| "http_exec (CancelWait g w) m = (fst (cancel_wait_requests_by_group_id g w m), [])"
| "http_exec NewRequestId m = (fst (generate_request_id m), [])"
| "http_exec NewGroupId m = (fst (generate_group_id m), [])"
| "http_exec (Process env) m = (http_process env m, [])"

fun http_run :: "http_op list \<Rightarrow> HttpRequestManager \<Rightarrow> HttpRequestManager \<times> (u64 \<times> cb option) list" where
  "http_run [] m = (m, [])"
| "http_run (x # xs) m =
     (let (m1, a) = http_exec x m; (m2, b) = http_run xs m1 in (m2, a @ b))"

lemma http_run_append:
  "http_run (xs @ ys) m = (let (m1, a) = http_run xs m; (m2, b) = http_run ys m1 in (m2, a @ b))"
  by (induction xs arbitrary: m) (auto simp: Let_def split: prod.splits)

definition total_dues :: "(u64 \<times> cb option) list \<Rightarrow> due multiset" where
  "total_dues A = sum_list (map dues_of A)"

lemma total_dues_simps [simp]:
  "total_dues [] = {#}" "total_dues (a # A) = dues_of a + total_dues A"
  "total_dues (A @ B) = total_dues A + total_dues B"
  by (simp_all add: total_dues_def)

lemma submit_exec_inv:
  assumes "hm_inv m T" "http_exec (Submit p rq f) m = (m', a)"
  shows "hm_inv m' (T + total_dues a)"
proof (cases "m_shutdown m \<or> m_max_pending_requests m \<noteq> 0 \<and> length (m_pending_requests m) \<ge> m_max_pending_requests m")
  case True
  from assms(2) submit_request_reject [OF True] have "a = []" "m' = (case rq of None \<Rightarrow> m | Some r \<Rightarrow> drop_request r m)"
    by (auto simp: submit_result_def)
  with assms(1) show ?thesis by (simp add: hm_inv_drop_request split: option.split)
next
  case False
  then have g: "\<not> m_shutdown m" "m_max_pending_requests m = 0 \<or> length (m_pending_requests m) < m_max_pending_requests m"
    by auto
  show ?thesis
  proof (cases p)
    case True
    from assms(2) submit_request_accept [OF g] submit_accept_inv [OF assms(1), of rq f] True show ?thesis
      by (auto simp: submit_result_def Let_def)
  next
    case f: False
    obtain m1 r where s: "submit_request False rq f m = (m1, r)" by fastforce
    have "\<forall>g n. map_of (m_group_request_counts m) g = Some n \<longrightarrow> n \<noteq> 0"
      using assms(1) by (simp add: hm_inv_def acct_def groups_ok_def)
    from submit_request_throw [OF g this s] submit_throw_inv [OF assms(1)] s f assms(2) show ?thesis by auto
  qed
qed

lemma justified_create:
  assumes "limiter.justified rl A"
  shows "limiter.justified (fst (create_limit_handle rpp per seq rl)) A"
proof (rule limiter.justified_shrink [OF assms])
  let ?rl = "fst (create_limit_handle rpp per seq rl)"
  have w: "limits_wf rl" using assms by (simp add: limiter.justified_def)
  then show "limits_wf ?rl" by (auto simp: create_limit_handle_def limits_wf_alt limit_wf_def Let_def split: if_splits)
  show "held_token rl c t" if "held_token ?rl c t" for c t
    using that
    by (cases c) (auto simp: create_limit_handle_def find_limit_def get_key_state_def KeyState_default_def Let_def
        split: if_splits option.splits)
qed

lemma justified_owned: "limiter.justified (rl\<lparr>m_owned_handles := x\<rparr>) A = limiter.justified rl A"
proof -
  have "held_token (rl\<lparr>m_owned_handles := x\<rparr>) c t = held_token rl c t" for c t
    by (cases c) (simp add: find_limit_def)
  then show ?thesis by (simp add: limiter.justified_def limits_wf_alt)
qed

lemma justified_remove: "limiter.justified rl A \<Longrightarrow> limiter.justified (fst (remove_limit i rl)) A"
  by (simp add: remove_limit_def justified_drop justified_owned split: option.split)

lemma justified_remove_handle: "limiter.justified rl A \<Longrightarrow> limiter.justified (fst (remove_limit_handle h rl)) A"
  by (simp add: remove_limit_handle_def justified_remove split: option.split)

lemma justified_get: "limiter.justified rl A \<Longrightarrow> limiter.justified (fst (get_limit i rl)) A"
  by (simp add: get_limit_def split: option.split)

lemma hm_inv_fields [simp]:
  "hm_inv (m\<lparr>m_requests_to_cancel_by_id := rs\<rparr>) T = hm_inv m T" "hm_inv (m\<lparr>m_groups_to_cancel := gs\<rparr>) T = hm_inv m T"
  "hm_inv (m\<lparr>m_group_waiters := ws\<rparr>) T = hm_inv m T" "hm_inv (m\<lparr>m_waiter_id_counter := i\<rparr>) T = hm_inv m T"
  "hm_inv (m\<lparr>m_max_pending_requests := n\<rparr>) T = hm_inv m T" "hm_inv (m\<lparr>m_request_id_counter := i\<rparr>) T = hm_inv m T"
  "hm_inv (m\<lparr>m_group_id_counter := i\<rparr>) T = hm_inv m T"
  by (rule hm_inv_cong; simp)+

text \<open>The operations on the rate limits, and those that only ask for something.\<close>

lemma exec_limit_inv:
  assumes "hm_inv m T"
  shows "hm_inv (fst (create_rate_limit rpp per seq m)) T" "hm_inv (fst (get_rate_limit i m)) T"
    "hm_inv (fst (hm_remove_limit i m)) T" "hm_inv (fst (hm_remove_limit_handle h m)) T"
    "hm_inv (on_limiter (copy_handle h) m) T" "hm_inv (on_limiter (drop_handle h) m) T"
  using hm_inv_limiter [OF assms justified_create] hm_inv_limiter [OF assms justified_get]
    hm_inv_limiter [OF assms justified_remove] hm_inv_limiter [OF assms justified_remove_handle]
    hm_inv_limiter [OF assms, of "copy_handle h (hm_rate_limiter m)"] hm_inv_limiter [OF assms justified_drop]
  by (auto simp: create_rate_limit_def get_rate_limit_def hm_remove_limit_def hm_remove_limit_handle_def on_limiter_def
      case_prod_beta)

lemma exec_ask_inv:
  assumes "hm_inv m T"
  shows "hm_inv (cancel_request_by_id n f m) T" "hm_inv (cancel_requests_by_group_id g f m) T"
    "hm_inv (fst (wait_requests_by_group_id g f m)) T" "hm_inv (fst (cancel_wait_requests_by_group_id g w m)) T"
    "hm_inv (set_max_pending_requests k m) T" "hm_inv (fst (generate_request_id m)) T" "hm_inv (fst (generate_group_id m)) T"
proof -
  have "silent [LogWaiter c]" for c by (simp add: silent_def)
  with assms show "hm_inv (cancel_request_by_id n f m) T" "hm_inv (cancel_requests_by_group_id g f m) T"
    "hm_inv (fst (wait_requests_by_group_id g f m)) T" "hm_inv (fst (cancel_wait_requests_by_group_id g w m)) T"
    "hm_inv (set_max_pending_requests k m) T" "hm_inv (fst (generate_request_id m)) T" "hm_inv (fst (generate_group_id m)) T"
    by (simp_all add: cancel_request_by_id_def cancel_requests_by_group_id_def wait_requests_by_group_id_def
        cancel_wait_requests_by_group_id_def set_max_pending_requests_def generate_request_id_def generate_group_id_def
        hm_inv_silent silent_cancelled Let_def split: option.split)
qed

lemmas http_op_defs = set_max_pending_requests_def create_rate_limit_def get_rate_limit_def hm_remove_limit_def
  hm_remove_limit_handle_def on_limiter_def cancel_request_by_id_def cancel_requests_by_group_id_def
  wait_requests_by_group_id_def cancel_wait_requests_by_group_id_def generate_request_id_def generate_group_id_def
  hm_logs_def Let_def case_prod_beta

lemma http_exec_inv:
  assumes "hm_inv m T" "http_exec x m = (m', a)"
  shows "hm_inv m' (T + total_dues a)"
proof (cases x)
  case (Submit p rq f)
  with assms submit_exec_inv show ?thesis by blast
next
  case (Process env)
  with assms http_process_inv show ?thesis by auto
qed (use assms exec_limit_inv [OF assms(1)] exec_ask_inv [OF assms(1)] in auto)

lemma http_run_inv: "hm_inv m T \<Longrightarrow> http_run xs m = (m', A) \<Longrightarrow> hm_inv m' (T + total_dues A)"
proof (induction xs arbitrary: m T m' A)
  case (Cons x xs)
  obtain m1 a where e: "http_exec x m = (m1, a)" by fastforce
  obtain m2 b where r: "http_run xs m1 = (m2, b)" by fastforce
  from Cons.IH [OF http_exec_inv [OF Cons.prems(1) e] r] Cons.prems(2) e r show ?case by (auto simp: ac_simps)
qed simp

lemma hm_inv_init: "hm_inv HttpRequestManager_init {#}"
proof -
  have "limiter.justified HttpRateLimiter_init {}"
  proof -
    have "\<not> held_token HttpRateLimiter_init c t" for c t
      by (cases c) (simp add: HttpRateLimiter_init_def find_limit_def)
    then show ?thesis by (simp add: limiter.justified_def limits_wf_def HttpRateLimiter_init_def)
  qed
  then show ?thesis
    by (simp add: hm_inv_def lists_ok_def live_def acct_def groups_ok_def group_request_count_unlocked_def
        settled_def HttpRequestManager_init_def)
qed

lemma http_run_books:
  "http_run xs HttpRequestManager_init = (m, A) \<Longrightarrow> hm_inv m (total_dues A)"
  using http_run_inv [OF hm_inv_init, of xs] by simp


section \<open>Tokens\<close>

lemma http_exec_token:
  assumes "hm_inv m T" "http_exec x m = (m', a)"
  shows "m_next_in_flight_token m' = m_next_in_flight_token m \<and> a = [] \<or>
    m_next_in_flight_token m' = m_next_in_flight_token m + 1 \<and> (a = [] \<or> (\<exists>f. a = [(m_next_in_flight_token m, f)]))"
proof (cases x)
  case (Submit p rq f)
  obtain m1 r where s: "submit_request p rq f m = (m1, r)" by fastforce
  have d: "m_next_in_flight_token (drop_request q y) = m_next_in_flight_token y" for q y
    using keeps_drop_request [of y q] by (simp add: keeps_def)
  have c: "m_next_in_flight_token (destroy_context q y) = m_next_in_flight_token y" for q y
    using keeps_destroy_context [of y q] by (simp add: keeps_def)
  have "m_next_in_flight_token m1 \<in> {m_next_in_flight_token m, m_next_in_flight_token m + 1}"
    "m_next_in_flight_token m1 = m_next_in_flight_token m \<longrightarrow> (\<exists>e. r = Some (submit_result False e))"
    using s d c by (auto simp: submit_request_def Let_def split: if_splits option.splits)
  with s assms(2) Submit show ?thesis by (auto simp: submit_result_def split: option.splits if_splits)
next
  case (Process env)
  with assms http_process_inv show ?thesis by (auto simp: frame_def)
qed (use assms(2) in \<open>auto simp: http_op_defs split: option.splits if_splits\<close>)

lemma http_run_tokens:
  "hm_inv m T \<Longrightarrow> http_run xs m = (m', A) \<Longrightarrow> m_next_in_flight_token m = of_nat k \<Longrightarrow>
   \<exists>ns. map fst A = map of_nat ns \<and> sorted_wrt (<) ns \<and> set ns \<subseteq> {k..<k + length xs}"
proof (induction xs arbitrary: m T m' A k)
  case (Cons x xs)
  obtain m1 a where e: "http_exec x m = (m1, a)" by fastforce
  obtain m2 b where r: "http_run xs m1 = (m2, b)" by fastforce
  have A: "A = a @ b" using Cons.prems(2) e r by simp
  from http_exec_token [OF Cons.prems(1) e]
  consider (same) "m_next_in_flight_token m1 = of_nat k" "a = []"
    | (fresh) "m_next_in_flight_token m1 = of_nat (k + 1)" "a = [] \<or> (\<exists>f. a = [(of_nat k, f)])"
    using Cons.prems(3) by (auto simp: ac_simps)
  then show ?case
  proof cases
    case same
    from Cons.IH [OF http_exec_inv [OF Cons.prems(1) e] r same(1)] A same(2) show ?thesis by fastforce
  next
    case fresh
    from Cons.IH [OF http_exec_inv [OF Cons.prems(1) e] r fresh(1)] obtain ns where
      ns: "map fst b = map of_nat ns" "sorted_wrt (<) ns" "set ns \<subseteq> {k + 1..<k + 1 + length xs}" by auto
    show ?thesis
    proof (cases "a = []")
      case True
      with ns A show ?thesis by (intro exI [of _ ns]) auto
    next
      case False
      with fresh(2) obtain f where "a = [(of_nat k, f)]" by auto
      with ns A show ?thesis by (intro exI [of _ "k # ns"]) auto
    qed
  qed
qed simp

lemma http_run_distinct:
  assumes "http_run xs HttpRequestManager_init = (m, A)" "length xs < 2 ^ 64"
  shows "distinct (map fst A)"
proof -
  from http_run_tokens [OF hm_inv_init assms(1), of 1] obtain ns where
    ns: "map fst A = map (of_nat :: nat \<Rightarrow> u64) ns" "sorted_wrt (<) ns" "set ns \<subseteq> {1..<1 + length xs}"
    by (auto simp: HttpRequestManager_init_def)
  have "inj_on (of_nat :: nat \<Rightarrow> u64) (set ns)"
  proof (rule inj_onI)
    fix i j :: nat
    assume "i \<in> set ns" "j \<in> set ns" "(of_nat i :: u64) = of_nat j"
    moreover from this(1,2) ns(3) assms(2) have "i < 2 ^ 64" "j < 2 ^ 64" by auto
    ultimately show "i = j" by (simp add: word_of_nat_eq_iff take_bit_nat_eq_self)
  qed
  with ns show ?thesis by (simp add: distinct_map strict_sorted_iff)
qed

end
