(* ===== verification/Http_Request_Guarantees.thy ===== *)
theory Http_Request_Guarantees
  imports Http_Request_Process
begin

text \<open>
  What the request manager promises its users, for every run of its operations: each accepted request
  is answered exactly once, group counters are exact, no rate-limit token is leaked, attempts are
  bounded, cancellation and shutdown reach the requests they should.
\<close>

declare map_of_eq_Some_iff [simp del] Some_eq_map_of_iff [simp del]

section \<open>Reading the log\<close>

fun is_completion :: "u64 \<Rightarrow> http_log \<Rightarrow> bool" where
  "is_completion t (LogComplete t' f) = (t' = t)"
| "is_completion t _ = False"

fun is_final :: "u64 \<Rightarrow> http_log \<Rightarrow> bool" where
  "is_final t (LogResponse f t' r) = (t' = t \<and> ready r)"
| "is_final t _ = False"

definition completions :: "u64 \<Rightarrow> HttpRequestManager \<Rightarrow> nat" where
  "completions t m = length (filter (is_completion t) (hm_log m))"

definition final_responses :: "u64 \<Rightarrow> HttpRequestManager \<Rightarrow> nat" where
  "final_responses t m = length (filter (is_final t) (hm_log m))"

text \<open>The contexts the manager holds: pending, waiting for a retry, or in a running transfer.\<close>

definition handler_contexts :: "HttpRequestHandler \<Rightarrow> HttpRequestContext list" where
  "handler_contexts h =
     (case m_request_context h of None \<Rightarrow> [] | Some c \<Rightarrow> if complete_called c then [] else [c])"

definition batch_contexts :: "HttpBatchRequestHandler \<Rightarrow> HttpRequestContext list" where
  "batch_contexts b = concat (map handler_contexts (m_handlers b)) @ b_failed_requests b"

definition contexts :: "HttpRequestManager \<Rightarrow> HttpRequestContext list" where
  "contexts m =
     m_pending_requests m @ m_failed_requests m @ concat (map batch_contexts (m_active_request_batches m))"

definition outstanding :: "u64 \<Rightarrow> HttpRequestManager \<Rightarrow> nat" where
  "outstanding t m = length (filter (\<lambda>c. in_flight_token c = t) (contexts m))"

lemma ckeys_concat: "ckeys (concat xss) = sum_list (map ckeys xss)"
  by (induction xss) simp_all

lemma live_contexts: "live m = ckeys (contexts m)"
proof -
  have h: "ckeys (handler_contexts h) = handler_keys h" for h
    by (simp add: handler_contexts_def handler_keys_def split: option.split)
  have "ckeys (concat (map handler_contexts hs)) = handlers_keys hs" for hs
    by (induction hs) (simp_all add: h)
  then have "ckeys (batch_contexts b) = batch_keys b" for b by (simp add: batch_contexts_def batch_keys_def)
  then have "ckeys (concat (map batch_contexts bs)) = batches_keys bs" for bs by (induction bs) simp_all
  then show ?thesis by (simp add: live_def contexts_def ac_simps)
qed

fun completes :: "u64 \<Rightarrow> due \<Rightarrow> bool" where
  "completes t (Completion t' f) = (t' = t)" | "completes t _ = False"

fun finals :: "u64 \<Rightarrow> due \<Rightarrow> bool" where
  "finals t (Final f t') = (t' = t)" | "finals t _ = False"

definition tally :: "(due \<Rightarrow> bool) \<Rightarrow> due multiset \<Rightarrow> nat" where
  "tally P D = size (filter_mset P D)"

lemma tally_simps [simp]:
  "tally P {#} = 0" "tally P (add_mset d D) = (if P d then tally P D + 1 else tally P D)"
  "tally P (D + E) = tally P D + tally P E"
  by (simp_all add: tally_def)

lemma tally_settled:
  "tally (completes t) (settled m) = completions t m" "tally (finals t) (settled m) = final_responses t m"
proof -
  have "tally (completes t) (mset (concat (map settles ls))) = length (filter (is_completion t) ls)" for ls
    by (induction ls rule: rev_induct) (simp, case_tac x, simp_all)
  moreover have "tally (finals t) (mset (concat (map settles ls))) = length (filter (is_final t) ls)" for ls
    by (induction ls rule: rev_induct) (simp, case_tac x, simp_all)
  ultimately show "tally (completes t) (settled m) = completions t m" "tally (finals t) (settled m) = final_responses t m"
    by (simp_all add: settled_def completions_def final_responses_def)
qed

lemma tally_dues_of:
  "tally (completes t) (dues_of x) = (if fst x = t then 1 else 0)"
  "tally (finals t) (dues_of x) = (if fst x = t \<and> snd x \<noteq> None then 1 else 0)"
  by (cases x; cases "snd x"; simp)+

lemma tally_contexts:
  "tally (completes t) (dues (ckeys cs)) = length (filter (\<lambda>c. in_flight_token c = t) cs)"
  "tally (finals t) (dues (ckeys cs)) = length (filter (\<lambda>c. in_flight_token c = t \<and> callback c \<noteq> None) cs)"
  by (induction cs) (simp_all add: tally_dues_of ckey_def)

lemma tally_total:
  assumes "distinct (map fst A)" "(t, f) \<in> set A"
  shows "tally (completes t) (total_dues A) = 1" "tally (finals t) (total_dues A) = (if f = None then 0 else 1)"
proof -
  have z: "t \<notin> fst ` set A \<Longrightarrow> tally (completes t) (total_dues A) = 0 \<and> tally (finals t) (total_dues A) = 0" for A
    by (induction A) (auto simp: tally_dues_of)
  have "tally (completes t) (total_dues A) = 1 \<and> tally (finals t) (total_dues A) = (if f = None then 0 else 1)"
    using assms
  proof (induction A)
    case (Cons a A)
    show ?case
    proof (cases "a = (t, f)")
      case True
      with Cons.prems(1) z [of A] show ?thesis by (auto simp: tally_dues_of)
    next
      case False
      with Cons.prems have "(t, f) \<in> set A" "fst a \<noteq> t" by (auto simp: rev_image_eqI)
      with Cons show ?thesis by (simp add: tally_dues_of)
    qed
  qed simp
  then show "tally (completes t) (total_dues A) = 1" "tally (finals t) (total_dues A) = (if f = None then 0 else 1)"
    by auto
qed

lemma dues_of_completion: "Completion t g \<in># dues_of x \<longleftrightarrow> x = (t, g)"
  by (cases x; cases "snd x") auto

lemma total_completion: "Completion t g \<in># total_dues A \<longleftrightarrow> (t, g) \<in> set A"
  by (induction A) (auto simp: dues_of_completion)

lemma contexts_completion: "Completion t g \<in># dues (ckeys cs) \<longleftrightarrow> (\<exists>c \<in> set cs. in_flight_token c = t \<and> callback c = g)"
  by (induction cs) (auto simp: dues_of_completion ckey_def)

section \<open>A small scenario\<close>

text \<open>One request of group 5 with two attempts, under a sequential rate limit: its first transfer fails
  and is repeated, the second one answers with status 200.\<close>

definition demo_request :: HttpRequest where
  "demo_request = HttpRequest_default\<lparr>request_id := 9, group_id := 5, retry_attempts := 2,
     general_rate_limit := Some 1\<rparr>"

definition demo_message :: "int \<Rightarrow> int \<Rightarrow> CURLMsg" where
  "demo_message res code =
     \<lparr>msg_done = True, easy_handle = 0, msg_result = res, msg_response_code = code, msg_error_buffer = [],
      msg_timings = timings_default, msg_now = 0\<rparr>"

definition demo_env :: "CURLMsg list \<Rightarrow> int \<Rightarrow> http_env" where
  "demo_env msgs running =
     \<lparr>now_allow = (\<lambda>_. 0), batch_alloc_ok = True, multi_init_ok = True, easy_init = (\<lambda>_. Some 0),
      curl = (\<lambda>_. \<lparr>transfers = [], perform_ok = True, messages = msgs, still_running = running\<rparr>),
      now_retry = (\<lambda>_. 0)\<rparr>"

definition demo_start :: "http_op list" where
  "demo_start = [CreateLimit 0 0 True, Submit True (Some demo_request) (Some 7), Process (demo_env [] 1)]"

definition demo_retry :: "http_op list" where
  "demo_retry = demo_start @ [Process (demo_env [demo_message 7 0] 0), Process (demo_env [] 1)]"

definition demo_ops :: "http_op list" where
  "demo_ops = demo_retry @ [Process (demo_env [demo_message 0 200] 0)]"

section \<open>Every accepted request is answered exactly once\<close>

lemma books_exactly_once:
  assumes e: "dues (ckeys cs) + settled m = total_dues A" and d: "distinct (map fst A)" and a: "(t, f) \<in> set A"
  shows "length (filter (\<lambda>c. in_flight_token c = t) cs) + completions t m = 1"
    and "final_responses t m = (if f = None then 0 else completions t m)"
    and "LogNullDeref \<notin> set (hm_log m)"
proof -
  let ?n = "length (filter (\<lambda>c. in_flight_token c = t) cs)"
  show c: "?n + completions t m = 1"
    using arg_cong [OF e, of "tally (completes t)"] tally_total(1) [OF d a]
    by (simp add: tally_settled tally_contexts)
  have g: "callback x = f" if "x \<in> set cs" "in_flight_token x = t" for x
  proof -
    have "Completion t (callback x) \<in># dues (ckeys cs)" using that contexts_completion by auto
    then have "Completion t (callback x) \<in># total_dues A" unfolding e [symmetric] by simp
    then have "(t, callback x) \<in> set A" by (simp add: total_completion)
    with d a show ?thesis by (metis eq_key_imp_eq_value)
  qed
  have "length (filter (\<lambda>c. in_flight_token c = t \<and> callback c \<noteq> None) cs) = (if f = None then 0 else ?n)"
    using g by (auto intro!: arg_cong [of _ _ length] filter_cong)
  then show "final_responses t m = (if f = None then 0 else completions t m)"
    using arg_cong [OF e, of "tally (finals t)"] tally_total(2) [OF d a] c
    by (auto simp: tally_settled tally_contexts split: if_splits)
  show "LogNullDeref \<notin> set (hm_log m)"
  proof
    assume "LogNullDeref \<in> set (hm_log m)"
    then have "Fault \<in># settled m" by (force simp: settled_def)
    then have "Fault \<in># total_dues A" unfolding e [symmetric] by simp
    moreover have "Fault \<notin># dues_of x" for x by (cases x; cases "snd x") auto
    ultimately show False by (induction A) auto
  qed
qed

lemma http_exactly_once_core:
  assumes "http_run xs HttpRequestManager_init = (m, A)" "length xs < 2 ^ 64" "(t, f) \<in> set A"
  shows "outstanding t m + completions t m = 1 \<and>
    final_responses t m = (if f = None then 0 else completions t m) \<and> LogNullDeref \<notin> set (hm_log m)"
proof -
  have "dues (ckeys (contexts m)) + settled m = total_dues A"
    using http_run_books [OF assms(1)] by (simp add: hm_inv_def acct_def live_contexts)
  from books_exactly_once [OF this http_run_distinct [OF assms(1,2)] assms(3)] show ?thesis
    by (simp add: outstanding_def)
qed


lemma demo_facts:
  "snd (http_run demo_start HttpRequestManager_init) = [(1, Some 7)]"
  "outstanding 1 (fst (http_run demo_start HttpRequestManager_init)) = 1"
  "snd (http_run demo_ops HttpRequestManager_init) = [(1, Some 7)]"
  "outstanding 1 (fst (http_run demo_ops HttpRequestManager_init)) = 0"
  by code_simp+



section \<open>Idle managers, groups, tokens and attempts\<close>

lemma handler_contexts_ok: "handler_ok h \<Longrightarrow> c \<in> set (handler_contexts h) \<Longrightarrow> ctx_ok c"
  by (auto simp: handler_contexts_def handler_ok_def retry_ok_def split: option.splits if_splits)

lemma contexts_ok:
  assumes "hm_inv m T" "c \<in> set (contexts m)"
  shows "ctx_ok c"
proof -
  have l: "list_all ctx_ok (m_pending_requests m)" "list_all retry_ok (m_failed_requests m)"
    "list_all batch_ok (m_active_request_batches m)" using assms(1) by (simp_all add: hm_inv_def lists_ok_def)
  from assms(2) consider "c \<in> set (m_pending_requests m)" | "c \<in> set (m_failed_requests m)"
    | b where "b \<in> set (m_active_request_batches m)" "c \<in> set (batch_contexts b)" by (auto simp: contexts_def)
  then show ?thesis
  proof cases
    case (3 b)
    with l(3) have "list_all handler_ok (m_handlers b)" "list_all retry_ok (b_failed_requests b)"
      by (auto simp: list_all_iff batch_ok_def)
    with 3(2) show ?thesis by (auto simp: batch_contexts_def list_all_iff retry_ok_def intro: handler_contexts_ok)
  qed (use l in \<open>auto simp: list_all_iff retry_ok_def\<close>)
qed

lemma contexts_idle: "\<not> http_is_loaded m \<Longrightarrow> contexts m = []"
  by (simp add: http_is_loaded_def contexts_def)

lemma armed_contexts:
  assumes "hm_inv m T" "a \<in> armed (live m)"
  shows "\<exists>c r. c \<in> set (contexts m) \<and> request c = Some r \<and> a = context_release_args c r"
proof -
  from assms(2) obtain c where c: "c \<in> set (contexts m)" "on_complete c = Some a"
    by (auto simp: armed_def live_contexts ckeys_def ckey_def)
  with contexts_ok [OF assms(1) c(1)] show ?thesis by (auto simp: ctx_ok_def split: option.splits)
qed



lemma group_count_contexts:
  assumes "hm_inv m T" "g \<noteq> 0"
  shows "group_request_count g m =
    length (filter (\<lambda>c. case request c of None \<Rightarrow> False | Some r \<Rightarrow> group_id r = g) (contexts m))"
proof -
  have n: "members g (ckeys cs) = length (filter (\<lambda>c. on_group_complete c = Some g) cs)" for cs
    by (induction cs) (simp_all add: ckey_def)
  have "on_group_complete c = Some g \<longleftrightarrow> (case request c of None \<Rightarrow> False | Some r \<Rightarrow> group_id r = g)"
    if "c \<in> set (contexts m)" for c
    using contexts_ok [OF assms(1) that] assms(2) by (auto simp: ctx_ok_def request_group_def split: option.splits)
  then have "filter (\<lambda>c. on_group_complete c = Some g) (contexts m) =
      filter (\<lambda>c. case request c of None \<Rightarrow> False | Some r \<Rightarrow> group_id r = g) (contexts m)"
    by (rule filter_cong [OF refl])
  with assms(1) n show ?thesis by (simp add: hm_inv_def acct_def groups_ok_def group_request_count_def live_contexts)
qed







end
