(* ===== verification/Http_Request_Control.thy ===== *)
theory Http_Request_Control
  imports Http_Request_Guarantees
begin

text \<open>
  The operations by which the user steers the request manager: submission with its limits and its
  rollback, cancellation, waiting for a group, and shutdown.
\<close>

declare map_of_eq_Some_iff [simp del] Some_eq_map_of_iff [simp del]

section \<open>Submission\<close>

lemma pending_drop_request [simp]: "m_pending_requests (drop_request r m) = m_pending_requests m"
  using keeps_drop_request [of m r] by (simp add: keeps_def)

lemma pending_destroy_context [simp]: "m_pending_requests (destroy_context c m) = m_pending_requests m"
  using keeps_destroy_context [of m c] by (simp add: keeps_def)

lemma counts_on_limiter [simp]: "m_group_request_counts (on_limiter f m) = m_group_request_counts m"
  by (simp add: on_limiter_def)

lemma counts_drop_request [simp]: "m_group_request_counts (drop_request r m) = m_group_request_counts m"
  by (simp add: drop_request_def)

lemma counts_destroy_context [simp]: "m_group_request_counts (destroy_context c m) = m_group_request_counts m"
  by (simp add: destroy_context_def drop_release_args_def split: option.split)

lemma group_request_count_cong:
  "map_of (m_group_request_counts m') = map_of (m_group_request_counts m) \<Longrightarrow>
   group_request_count g m' = group_request_count g m"
  by (simp add: group_request_count_def group_request_count_unlocked_def)

definition queue_full :: "HttpRequestManager \<Rightarrow> bool" where
  "queue_full m = (m_max_pending_requests m \<noteq> 0 \<and> length (m_pending_requests m) \<ge> m_max_pending_requests m)"

lemma max_pending_sel [simp]:
  "m_max_pending_requests (destroy_context c m) = m_max_pending_requests m"
  "m_max_pending_requests (drop_request r m) = m_max_pending_requests m"
  using keeps_destroy_context [of m c] keeps_drop_request [of m r] by (simp_all add: keeps_def)

lemma submit_rejected:
  assumes "m_shutdown m \<or> queue_full m" "submit_request push_ok rq f m = (m', res)"
  shows "res = Some (submit_result False (client_error (if m_shutdown m then ShuttingDown else QueueLimitExceeded)))"
    and "m_pending_requests m' = m_pending_requests m" "queue_full m' = queue_full m"
    and "group_request_count g m' = group_request_count g m"
proof -
  have q: "m_shutdown m \<or> m_max_pending_requests m \<noteq> 0 \<and> length (m_pending_requests m) \<ge> m_max_pending_requests m"
    using assms(1) by (simp add: queue_full_def)
  note e = submit_request_reject [OF q, of push_ok rq f, unfolded assms(2), simplified]
  then show "res = Some (submit_result False (client_error (if m_shutdown m then ShuttingDown else QueueLimitExceeded)))"
    "m_pending_requests m' = m_pending_requests m" "queue_full m' = queue_full m"
    by (auto simp: queue_full_def split: option.split)
  show "group_request_count g m' = group_request_count g m"
    using e by (intro group_request_count_cong) (auto split: option.split)
qed

lemma submit_accepted:
  assumes "\<not> m_shutdown m" "\<not> queue_full m" "submit_request True rq f m = (m', res)"
  shows "res = Some (submit_result True no_error)" "m_max_pending_requests m' = m_max_pending_requests m"
    and "m_pending_requests m' = m_pending_requests m @ [new_context rq f (m_next_in_flight_token m)]"
    and "group_request_count g m' = group_request_count g m + (if request_group rq = Some g then 1 else 0)"
proof -
  let ?c = "new_context rq f (m_next_in_flight_token m)"
  have q: "m_max_pending_requests m = 0 \<or> length (m_pending_requests m) < m_max_pending_requests m"
    using assms(2) by (auto simp: queue_full_def)
  have e: "m' = (counted ?c m)\<lparr>m_pending_requests := m_pending_requests (counted ?c m) @ [?c]\<rparr>"
    "res = Some (submit_result True no_error)"
    using submit_request_accept [OF assms(1) q, of rq f] assms(3) by (auto simp: Let_def)
  have o: "on_group_complete ?c = request_group rq" using ctx_ok_new [of rq f] by (simp add: ctx_ok_def new_context_def Let_def)
  have n: "request_group rq \<noteq> Some 0" by (simp add: request_group_def split: option.split)
  show "group_request_count g m' = group_request_count g m + (if request_group rq = Some g then 1 else 0)"
    using n unfolding e group_request_count_def group_request_count_unlocked_def counted_def o
    by (auto simp: Let_def split: option.split)
  show "res = Some (submit_result True no_error)" "m_max_pending_requests m' = m_max_pending_requests m"
    "m_pending_requests m' = m_pending_requests m @ [?c]"
    unfolding e by (simp_all add: counted_def Let_def split: option.split)
qed

lemma submit_thrown:
  assumes "hm_inv m T" "\<not> m_shutdown m" "\<not> queue_full m" "submit_request False rq f m = (m', res)"
  shows "res = None" "m_pending_requests m' = m_pending_requests m" "queue_full m' = queue_full m"
    and "group_request_count g m' = group_request_count g m"
proof -
  have q: "m_max_pending_requests m = 0 \<or> length (m_pending_requests m) < m_max_pending_requests m"
    using assms(3) by (auto simp: queue_full_def)
  have n: "\<forall>g n. map_of (m_group_request_counts m) g = Some n \<longrightarrow> n \<noteq> 0"
    using assms(1) by (simp add: hm_inv_def acct_def groups_ok_def)
  from submit_request_throw [OF assms(2) q n assms(4)] obtain cs where
    c: "res = None" "map_of cs = map_of (m_group_request_counts m)"
    "m' = destroy_context (new_context rq f (m_next_in_flight_token m))
      (m\<lparr>m_next_in_flight_token := m_next_in_flight_token m + 1, m_group_request_counts := cs\<rparr>)" by auto
  show "group_request_count g m' = group_request_count g m"
    by (rule group_request_count_cong) (simp add: c)
  show "res = None" "m_pending_requests m' = m_pending_requests m" "queue_full m' = queue_full m"
    by (simp_all add: c queue_full_def)
qed



section \<open>Cancellation\<close>

lemma batch_cancel_loop_filter: "fst (batch_cancel_loop rs gs hs m) = filter (\<lambda>h. \<not> handler_matches rs gs h) hs"
  by (induction hs arbitrary: m) (simp_all add: case_prod_beta Let_def)

lemma cancel_batches_filter:
  "fst (cancel_batches rs gs bs m) =
   map (\<lambda>b. b\<lparr>m_handlers := filter (\<lambda>h. \<not> handler_matches rs gs h) (m_handlers b)\<rparr>) bs"
  by (induction bs arbitrary: m)
    (simp_all add: case_prod_beta Let_def batch_cancel_requests_def batch_cancel_loop_filter)

lemma keeps_handler_cancel [simp]: "keeps m (snd (handler_cancel h m))"
  by (simp add: handler_cancel_def Let_def case_prod_beta split: option.split)

lemma keeps_batch_cancel_loop [simp]: "keeps m (snd (batch_cancel_loop rs gs hs m))"
proof (induction hs arbitrary: m)
  case (Cons h hs)
  have "keeps m (destroy_handler h' (snd (handler_cancel h m)))" for h'
    by (rule keeps_trans [OF keeps_handler_cancel keeps_destroy_handler])
  with Cons.IH show ?case by (auto simp: case_prod_beta Let_def intro: keeps_trans)
qed simp

lemma keeps_cancel_batches [simp]: "keeps m (snd (cancel_batches rs gs bs m))"
proof (induction bs arbitrary: m)
  case (Cons b bs)
  have "keeps m (snd (batch_cancel_requests rs gs b m))" by (simp add: batch_cancel_requests_def case_prod_beta)
  with Cons.IH show ?case by (auto simp: case_prod_beta Let_def intro: keeps_trans)
qed simp

text \<open>The stages of \<open>process_cancel_requests\<close>, with what each leaves.\<close>

lemma process_cancel_stages:
  assumes "m_requests_to_cancel_by_id m \<noteq> [] \<or> m_groups_to_cancel m \<noteq> []"
  defines "rs \<equiv> m_requests_to_cancel_by_id m" and "gs \<equiv> m_groups_to_cancel m"
  defines "hit \<equiv> \<lambda>c. matches_cancel c rs gs"
  defines "m1 \<equiv> m\<lparr>m_requests_to_cancel_by_id := [], m_groups_to_cancel := [],
      m_pending_requests := filter (\<lambda>c. \<not> hit c) (m_pending_requests m)\<rparr>"
  defines "m2 \<equiv> fold (deliver_final make_cancelled_response) (filter hit (m_pending_requests m)) m1"
  defines "m' \<equiv> process_cancel_requests m"
  shows "m_pending_requests m' = filter (\<lambda>c. \<not> hit c) (m_pending_requests m)"
    and "m_failed_requests m' = filter (\<lambda>c. \<not> hit c) (m_failed_requests m)"
    and "m_active_request_batches m' =
      map (\<lambda>b. b\<lparr>m_handlers := filter (\<lambda>h. \<not> handler_matches rs gs h) (m_handlers b)\<rparr>) (m_active_request_batches m)"
    and "m_requests_to_cancel_by_id m' = []" "m_groups_to_cancel m' = []"
    and "m_shutdown m' = m_shutdown m"
    and "\<exists>ls. hm_log m' = hm_log m2 @ ls @ cancel_callbacks rs @ cancel_callbacks gs"
proof -
  let ?F = "m_failed_requests m"
  let ?m3 = "m2\<lparr>m_failed_requests := filter (\<lambda>c. \<not> hit c) ?F\<rparr>"
  let ?m4 = "fold (finish_context make_cancelled_response) (filter hit ?F) ?m3"
  let ?cb = "cancel_batches rs gs (m_active_request_batches m) ?m4"
  let ?m6 = "(snd ?cb)\<lparr>m_active_request_batches := fst ?cb\<rparr>"
  let ?m7 = "hm_logs (cancel_callbacks gs) (hm_logs (cancel_callbacks rs) ?m6)"
  let ?m8 = "fold destroy_context (filter hit (m_pending_requests m)) ?m7"
  have k2: "keeps m1 m2" unfolding m2_def by (rule keeps_fold) simp
  have k4: "keeps ?m3 ?m4" by (rule keeps_fold) simp
  have k5: "keeps ?m4 (snd ?cb)" by simp
  have k8: "keeps ?m7 ?m8" by (rule keeps_fold) simp
  have l8: "hm_log ?m8 = hm_log ?m7"
  proof -
    have "hm_log (destroy_context c x) = hm_log x" for c x
      by (simp add: destroy_context_def drop_release_args_def drop_request_def on_limiter_def split: option.split)
    then have "hm_log (fold destroy_context cs x) = hm_log x" for cs x by (induction cs arbitrary: x) simp_all
    then show ?thesis .
  qed
  have f: "m_failed_requests m2 = ?F" "m_active_request_batches ?m4 = m_active_request_batches m"
    using k2 k4 by (simp_all add: keeps_def m1_def)
  have e: "m' = ?m8"
    using assms(1) f unfolding m'_def process_cancel_requests_def Let_def case_prod_beta
    by (auto simp: m2_def m1_def hit_def rs_def gs_def)
  show "m_pending_requests m' = filter (\<lambda>c. \<not> hit c) (m_pending_requests m)"
    "m_failed_requests m' = filter (\<lambda>c. \<not> hit c) (m_failed_requests m)"
    "m_active_request_batches m' =
      map (\<lambda>b. b\<lparr>m_handlers := filter (\<lambda>h. \<not> handler_matches rs gs h) (m_handlers b)\<rparr>) (m_active_request_batches m)"
    "m_requests_to_cancel_by_id m' = []" "m_groups_to_cancel m' = []" "m_shutdown m' = m_shutdown m"
    using k2 k4 k5 k8 unfolding e
    by (simp_all add: keeps_def hm_logs_def m1_def cancel_batches_filter)
  have "prefix (hm_log m2) (hm_log (snd ?cb))" using k4 k5 by (auto simp: keeps_def)
  then show "\<exists>ls. hm_log m' = hm_log m2 @ ls @ cancel_callbacks rs @ cancel_callbacks gs"
    unfolding e l8 by (auto simp: hm_logs_def elim!: prefixE)
qed


lemma fold_deliver_log:
  "c \<in> set cs \<Longrightarrow> callback c = Some g \<Longrightarrow>
   LogResponse g (in_flight_token c) r \<in> set (hm_log (fold (deliver_final r) cs m))"
proof (induction cs arbitrary: m)
  case (Cons x cs)
  show ?case
  proof (cases "c = x")
    case True
    have "keeps (invoke_callback x r m) (deliver_final r x m)"
      by (simp add: deliver_final_def invoke_final_callback_def)
    moreover have "keeps (deliver_final r x m) (fold (deliver_final r) cs (deliver_final r x m))"
      by (rule keeps_fold) simp
    ultimately have "keeps (invoke_callback x r m) (fold (deliver_final r) cs (deliver_final r x m))"
      by (rule keeps_trans)
    then have "prefix (hm_log (invoke_callback x r m)) (hm_log (fold (deliver_final r) (x # cs) m))"
      by (simp add: keeps_def)
    moreover have "LogResponse g (in_flight_token c) r \<in> set (hm_log (invoke_callback x r m))"
      using Cons.prems(2) True by (simp add: invoke_callback_def hm_logs_def)
    ultimately show ?thesis using set_mono_prefix by blast
  qed (use Cons in auto)
qed simp

lemma push_cancel_self: "map_of (push_cancel i f c) i \<noteq> None" "push_cancel i f c \<noteq> []"
proof -
  show "map_of (push_cancel i f c) i \<noteq> None" by (simp add: push_cancel_def)
  then show "push_cancel i f c \<noteq> []" by auto
qed

lemma push_cancel_callback: "LogCancelled g \<in> set (cancel_callbacks (push_cancel i (Some g) c))"
proof -
  let ?fs = "case map_of c i of None \<Rightarrow> [] | Some fs \<Rightarrow> fs"
  have "map_of (push_cancel i (Some g) c) i = Some (?fs @ [Some g])" by (simp add: push_cancel_def)
  then have "(i, ?fs @ [Some g]) \<in> set (push_cancel i (Some g) c)" by (rule map_of_SomeD)
  then show ?thesis by (force simp: cancel_callbacks_def cancelled_log_def)
qed




section \<open>Waiting for a group\<close>

lemma exec_waiters_distinct:
  assumes "hm_inv m T" "umap_distinct (m_group_waiters m)" "http_exec x m = (m', a)"
  shows "umap_distinct (m_group_waiters m')"
proof (cases x)
  case (Submit p rq f)
  have k: "m_group_waiters (drop_request r y) = m_group_waiters y" "m_group_waiters (destroy_context c y) = m_group_waiters y"
    for r y c
    by (simp_all add: drop_request_def destroy_context_def drop_release_args_def on_limiter_def split: option.split)
  have "m_group_waiters (fst (submit_request p rq f m)) = m_group_waiters m"
    by (simp add: submit_request_def Let_def k split: option.split)
  with assms Submit show ?thesis by (auto simp: case_prod_beta)
next
  case (Process env)
  with assms http_process_inv [OF assms(1), of env] show ?thesis by (auto simp: frame_def waiters_kept_def)
qed (use assms(2,3) in \<open>auto simp: http_op_defs split: option.splits if_splits\<close>)

lemma run_waiters_distinct:
  "hm_inv m T \<Longrightarrow> umap_distinct (m_group_waiters m) \<Longrightarrow> http_run xs m = (m', A) \<Longrightarrow> umap_distinct (m_group_waiters m')"
proof (induction xs arbitrary: m T A)
  case (Cons x xs)
  obtain m1 a where e: "http_exec x m = (m1, a)" by fastforce
  obtain m2 b where r: "http_run xs m1 = (m2, b)" by fastforce
  from Cons.IH [OF http_exec_inv [OF Cons.prems(1) e] exec_waiters_distinct [OF Cons.prems(1,2) e]] Cons.prems(3) e r
  show ?case by auto
qed simp

text \<open>A call of \<open>process\<close> leaves waiters only with groups that still have requests, and conserves them:
  every waiter is still registered or has been called, once, so that a waiter is called exactly when
  its group has become idle.\<close>

theorem http_process_waiters:
  assumes "http_run xs HttpRequestManager_init = (m, A)" "m' = http_process env m"
  shows "(\<forall>(g, ws) \<in> set (m_group_waiters m'). group_request_count g m' \<noteq> 0) \<and>
    waiting (m_group_waiters m') + notified (hm_log m') = waiting (m_group_waiters m) + notified (hm_log m)"
proof
  have "umap_distinct (m_group_waiters m)"
    using run_waiters_distinct [OF hm_inv_init _ assms(1)] by (simp add: HttpRequestManager_init_def)
  then show "waiting (m_group_waiters m') + notified (hm_log m') = waiting (m_group_waiters m) + notified (hm_log m)"
    using http_process_inv [OF http_run_books [OF assms(1)], of env] assms(2) by (simp add: frame_def waiters_kept_def)
  have "group_request_count g (notify_group_waiters_if_idle x) \<noteq> 0"
    if "(g, ws) \<in> set (m_group_waiters (notify_group_waiters_if_idle x))" for g ws x
    using that by (auto simp: notify_group_waiters_if_idle_def hm_logs_def group_request_count_def
        group_request_count_unlocked_def Let_def)
  moreover have "m_group_waiters (notify_all_group_waiters x) = []" for x
    by (simp add: notify_all_group_waiters_def hm_logs_def)
  ultimately show "\<forall>(g, ws) \<in> set (m_group_waiters m'). group_request_count g m' \<noteq> 0"
    unfolding assms(2) http_process_def by auto
qed

theorem http_process_waiters_witness:
  "waiting (m_group_waiters (fst (http_run (demo_retry @ [WaitGroup 5 (Some 3)]) HttpRequestManager_init))) = {#3#} \<and>
   3 \<in># notified (hm_log (http_process (demo_env [demo_message 0 200] 0)
     (fst (http_run (demo_retry @ [WaitGroup 5 (Some 3)]) HttpRequestManager_init))))"
proof -
  let ?x = "demo_retry @ [WaitGroup 5 (Some 3)]"
  let ?m = "fst (http_run ?x HttpRequestManager_init)" and ?e = "demo_env [demo_message 0 200] 0"
  have "m_group_waiters ?m = [(5, [\<lparr>gw_id = 1, gw_callback = Some 3\<rparr>])]" "m_group_waiters (http_process ?e ?m) = []"
    by code_simp+
  then have w: "waiting (m_group_waiters ?m) = {#3#}" "waiting (m_group_waiters (http_process ?e ?m)) = {#}"
    by (simp_all add: waiting_def waiter_cbs_def)
  with http_process_waiters [of ?x ?m "snd (http_run ?x HttpRequestManager_init)" "http_process ?e ?m" ?e]
  show ?thesis by simp
qed

section \<open>Shutdown\<close>

text \<open>The contexts that wait for a retry inside a batch whose other transfers still run.\<close>

definition batch_retries :: "HttpRequestManager \<Rightarrow> HttpRequestContext list" where
  "batch_retries m = concat (map b_failed_requests (m_active_request_batches m))"

lemma fold_destroy_batch_acct:
  "list_all batch_ok bs \<Longrightarrow> acct m (batches_keys bs + K) T \<Longrightarrow>
   acct (fold destroy_batch bs m) (ckeys (concat (map b_failed_requests bs)) + K) T"
proof (induction bs arbitrary: m K)
  case (Cons b bs)
  have "acct m (handlers_keys (m_handlers b) + (ckeys (b_failed_requests b) + (batches_keys bs + K))) T"
    using Cons.prems(2) by (simp add: batch_keys_def ac_simps)
  from destroy_batch_acct [OF _ this] Cons.prems(1)
  have "acct (destroy_batch b m) (batches_keys bs + (ckeys (b_failed_requests b) + K)) T" by (simp add: ac_simps)
  from Cons.IH [OF _ this] Cons.prems(1) show ?case by (simp add: ac_simps)
qed simp

lemma cleanup_pending_inv:
  assumes "hm_inv m T"
  shows "hm_inv (cleanup_pending_requests m) T" "m_pending_requests (cleanup_pending_requests m) = []"
    "m_failed_requests (cleanup_pending_requests m) = []"
    "m_active_request_batches (cleanup_pending_requests m) = m_active_request_batches m"
    "m_shutdown (cleanup_pending_requests m) = m_shutdown m"
proof -
  let ?P = "m_pending_requests m" and ?F = "m_failed_requests m" and ?B = "batches_keys (m_active_request_batches m)"
  let ?m1 = "m\<lparr>m_pending_requests := [], m_failed_requests := []\<rparr>"
  let ?m2 = "fold (deliver_final cleanup_response) ?P ?m1"
  let ?m3 = "fold (deliver_final cleanup_response) ?F ?m2"
  let ?m4 = "fold destroy_context ?F ?m3"
  let ?m5 = "fold destroy_context ?P ?m4"
  have l: "list_all ctx_ok ?P" "list_all retry_ok ?F" "list_all batch_ok (m_active_request_batches m)"
    using assms by (simp_all add: hm_inv_def lists_ok_def)
  have "acct ?m1 (ckeys ?P + (ckeys ?F + ?B)) T" using assms by (simp add: hm_inv_def live_def ac_simps)
  then have "acct ?m2 (ckeys ?F + ?B) T"
    unfolding ckeys_def by (rule acct_fold_deliver) (use ctx_ok_list_live [OF l(1)] in simp_all)
  then have "acct ?m3 ?B T"
    unfolding ckeys_def by (rule acct_fold_deliver) (use retry_ok_list_live [OF l(2)] in simp_all)
  then have a: "acct ?m5 ?B T" by (simp add: acct_fold_destroy)
  have "keeps ?m1 ?m2" "keeps ?m2 ?m3" "keeps ?m3 ?m4" "keeps ?m4 ?m5" by (rule keeps_fold, simp)+
  then have k: "keeps ?m1 ?m5" using keeps_trans by blast
  have e: "cleanup_pending_requests m = ?m5" by (simp add: cleanup_pending_requests_def Let_def)
  show "m_pending_requests (cleanup_pending_requests m) = []" "m_failed_requests (cleanup_pending_requests m) = []"
    "m_active_request_batches (cleanup_pending_requests m) = m_active_request_batches m"
    "m_shutdown (cleanup_pending_requests m) = m_shutdown m"
    using k by (simp_all add: e keeps_def)
  then show "hm_inv (cleanup_pending_requests m) T" using a l(3) by (simp add: e hm_inv_def lists_ok_def live_def)
qed

lemma process_cancel_lists:
  "m_pending_requests m = [] \<Longrightarrow> m_pending_requests (process_cancel_requests m) = []"
  "m_failed_requests m = [] \<Longrightarrow> m_failed_requests (process_cancel_requests m) = []"
  "m_requests_to_cancel_by_id (process_cancel_requests m) = []" "m_groups_to_cancel (process_cancel_requests m) = []"
  "m_shutdown (process_cancel_requests m) = m_shutdown m"
  "batch_retries (process_cancel_requests m) = batch_retries m"
proof -
  consider (none) "m_requests_to_cancel_by_id m = []" "m_groups_to_cancel m = []"
    | (some) "m_requests_to_cancel_by_id m \<noteq> [] \<or> m_groups_to_cancel m \<noteq> []" by blast
  then have "(m_pending_requests m = [] \<longrightarrow> m_pending_requests (process_cancel_requests m) = []) \<and>
    (m_failed_requests m = [] \<longrightarrow> m_failed_requests (process_cancel_requests m) = []) \<and>
    m_requests_to_cancel_by_id (process_cancel_requests m) = [] \<and> m_groups_to_cancel (process_cancel_requests m) = [] \<and>
    m_shutdown (process_cancel_requests m) = m_shutdown m \<and> batch_retries (process_cancel_requests m) = batch_retries m"
  proof cases
    case none
    then show ?thesis by (simp add: process_cancel_requests_def)
  next
    case some
    note st = process_cancel_stages [OF some]
    show ?thesis by (simp add: st(1-6) batch_retries_def comp_def)
  qed
  then show "m_pending_requests m = [] \<Longrightarrow> m_pending_requests (process_cancel_requests m) = []"
    "m_failed_requests m = [] \<Longrightarrow> m_failed_requests (process_cancel_requests m) = []"
    "m_requests_to_cancel_by_id (process_cancel_requests m) = []" "m_groups_to_cancel (process_cancel_requests m) = []"
    "m_shutdown (process_cancel_requests m) = m_shutdown m"
    "batch_retries (process_cancel_requests m) = batch_retries m" by auto
qed

lemma http_shutdown_books:
  assumes "hm_inv m T" "\<not> m_shutdown m"
  defines "m' \<equiv> http_shutdown m"
  shows "acct m' (ckeys (batch_retries m)) T" "contexts m' = []" "m_shutdown m'" "m_group_waiters m' = []"
    "m_requests_to_cancel_by_id m' = []" "m_groups_to_cancel m' = []"
proof -
  let ?m0 = "m\<lparr>m_shutdown := True\<rparr>"
  let ?c = "cleanup_pending_requests ?m0"
  let ?m1 = "process_cancel_requests ?c"
  let ?m2 = "fold destroy_batch (m_active_request_batches ?m1) (?m1\<lparr>m_active_request_batches := []\<rparr>)"
  have i0: "hm_inv ?m0 T" using assms(1) by (simp add: hm_inv_def lists_ok_def live_def)
  note c = cleanup_pending_inv [OF i0]
  have i1: "hm_inv ?m1 T" using process_cancel_inv [OF c(1)] by simp
  have z: "m_pending_requests ?m1 = []" "m_failed_requests ?m1 = []" "m_shutdown ?m1" "batch_retries ?m1 = batch_retries m"
    using process_cancel_lists [of ?c] c by (simp_all add: batch_retries_def)
  have "acct (?m1\<lparr>m_active_request_batches := []\<rparr>) (batches_keys (m_active_request_batches ?m1) + {#}) T"
    using i1 z by (simp add: hm_inv_def live_def)
  from fold_destroy_batch_acct [OF _ this] i1 z have a: "acct ?m2 (ckeys (batch_retries m)) T"
    by (simp add: hm_inv_def lists_ok_def batch_retries_def)
  have k: "keeps (?m1\<lparr>m_active_request_batches := []\<rparr>) ?m2" by (rule keeps_fold) simp
  have e: "m' = notify_all_group_waiters ?m2" using assms(2) by (simp add: m'_def http_shutdown_def Let_def)
  show "acct m' (ckeys (batch_retries m)) T"
    using a unfolding e notify_all_group_waiters_def by (simp add: acct_silent silent_waiter_lists)
  show "contexts m' = []" "m_shutdown m'" "m_group_waiters m' = []" "m_requests_to_cancel_by_id m' = []" "m_groups_to_cancel m' = []"
    using k z process_cancel_lists [of ?c]
    by (simp_all add: e notify_all_group_waiters_def hm_logs_def contexts_def keeps_def)
qed


lemma exec_running:
  assumes "hm_inv m T" "http_exec x m = (m', a)"
  shows "m_shutdown m' = m_shutdown m"
proof (cases x)
  case (Submit p rq f)
  have k: "m_shutdown (drop_request r y) = m_shutdown y" "m_shutdown (destroy_context c y) = m_shutdown y" for r y c
    using keeps_drop_request [of y r] keeps_destroy_context [of y c] by (simp_all add: keeps_def)
  have "m_shutdown (fst (submit_request p rq f m)) = m_shutdown m"
    by (simp add: submit_request_def Let_def k split: option.split)
  with assms(2) Submit show ?thesis by (auto simp: case_prod_beta)
next
  case (Process env)
  with assms http_process_inv [OF assms(1), of env] show ?thesis by (auto simp: frame_def)
qed (use assms(2) in \<open>auto simp: http_op_defs split: option.splits if_splits\<close>)

lemma run_running: "hm_inv m T \<Longrightarrow> http_run xs m = (m', A) \<Longrightarrow> m_shutdown m' = m_shutdown m"
proof (induction xs arbitrary: m T A)
  case (Cons x xs)
  obtain m1 a where e: "http_exec x m = (m1, a)" by fastforce
  obtain m2 b where r: "http_run xs m1 = (m2, b)" by fastforce
  from Cons.IH [OF http_exec_inv [OF Cons.prems(1) e]] Cons.prems(2) e r exec_running [OF Cons.prems(1) e] show ?case by auto
qed simp

text \<open>C24: Shutdown empties every list of the manager, the cancellations and the waiters, and completes and
  finally answers each accepted request exactly once, except the requests that wait for a retry inside
  a batch whose other transfers still run: for exactly those no completion and no final response is
  ever delivered.\<close>

theorem http_shutdown_settles:
  assumes "http_run xs HttpRequestManager_init = (m, A)" "length xs < 2 ^ 64" "(t, f) \<in> set A" "m' = http_shutdown m"
  shows "contexts m' = [] \<and> m_shutdown m' \<and> m_group_waiters m' = [] \<and>
    completions t m' + length (filter (\<lambda>c. in_flight_token c = t) (batch_retries m)) = 1 \<and>
    final_responses t m' = (if f = None then 0 else completions t m')"
proof -
  note b = http_run_books [OF assms(1)]
  have "\<not> m_shutdown m" using run_running [OF hm_inv_init assms(1)] by (simp add: HttpRequestManager_init_def)
  note s = http_shutdown_books [OF b this, folded assms(4)]
  from s(1) have "dues (ckeys (batch_retries m)) + settled m' = total_dues A" by (simp add: acct_def)
  from books_exactly_once [OF this http_run_distinct [OF assms(1,2)] assms(3)] s(2-4) show ?thesis by simp
qed

theorem http_shutdown_settles_witness:
  "completions 1 (http_shutdown (fst (http_run demo_retry HttpRequestManager_init))) = 1 \<and>
   final_responses 1 (http_shutdown (fst (http_run demo_retry HttpRequestManager_init))) = 1"
proof -
  let ?m = "fst (http_run demo_retry HttpRequestManager_init)"
  have "length demo_retry < 2 ^ 64" by (simp add: demo_retry_def demo_start_def)
  moreover have "(1, Some 7) \<in> set (snd (http_run demo_retry HttpRequestManager_init))" "batch_retries ?m = []"
    by code_simp+
  ultimately show ?thesis
    using http_shutdown_settles [of demo_retry ?m "snd (http_run demo_retry HttpRequestManager_init)" 1 "Some 7"
        "http_shutdown ?m"] by simp
qed

text \<open>Two requests share a batch; the first fails and waits for its retry while the second still runs.\<close>

definition shared_env :: "CURLMsg list \<Rightarrow> http_env" where
  "shared_env msgs = (demo_env msgs 1)\<lparr>easy_init := (\<lambda>c. Some (unat (in_flight_token c)))\<rparr>"

definition shared_batch :: "http_op list" where
  "shared_batch =
     [Submit True (Some (HttpRequest_default\<lparr>request_id := 9, group_id := 5, retry_attempts := 2\<rparr>)) (Some 7),
      Submit True (Some HttpRequest_default) (Some 8), Process (shared_env []),
      Process (shared_env [(demo_message 7 0)\<lparr>easy_handle := 1\<rparr>])]"

text \<open>There is a run after which shutdown loses a request: a request of group 5 waits for a retry inside
  a batch that another request keeps running. Shutdown destroys it without a completion or a final
  response, its group still counts one request, and the manager reports to be loaded for ever. A
  cancellation of the request, or of its group, does not reach it either.\<close>

theorem http_shutdown_loses_batch_retry:
  "(1, Some 7) \<in> set (snd (http_run shared_batch HttpRequestManager_init)) \<and>
   (let m = fst (http_run shared_batch HttpRequestManager_init); m' = http_shutdown m;
        m2 = process_cancel_requests (cancel_requests_by_group_id 5 None (cancel_request_by_id 9 None m))
    in completions 1 m' = 0 \<and> final_responses 1 m' = 0 \<and> completions 2 m' = 1 \<and>
       group_request_count 5 m' = 1 \<and> http_is_loaded m' \<and> outstanding 1 m2 = 1)"
  by code_simp

end
