(* ===== verification/Http_Client.thy ===== *)
theory Http_Client
  imports Http_Request_Control
begin

text \<open>
  \<^verbatim>\<open>http/HttpClient.hpp\<close> and \<^verbatim>\<open>http/utils.hpp\<close>: the client for one host and the free functions, which
  build requests and hand them to the request manager.

  A client is a record; an operation takes the client and the manager, the singleton of the code. The
  shared pointers to rate limits that a request holds are counted: copying the client's request
  copies them, overwriting one drops it. Where the code calls \<open>NetworkWorker::notify\<close> the Boolean at the
  end of the result is \<open>True\<close>. \<open>to_query_string\<close> is an argument, since the build selects one of two;
  so is \<open>push_ok\<close>, whether the list of the manager could allocate. An authentication provider is the
  change its \<open>authorize\<close> makes to a request.

  A promise is a number, like a callback, and its state a value of \<open>promise_state\<close>; setting a promise
  that is already set makes \<open>std::promise\<close> throw, which the code reports to the error handlers.
\<close>

declare map_of_eq_Some_iff [simp del] Some_eq_map_of_iff [simp del]

section \<open>Promises\<close>

datatype promise_state = PromiseUnset | PromiseResponse HttpResponse | PromiseException

text \<open>The second component says whether the error handlers were told that the promise was set before.\<close>

definition safe_set_response :: "HttpResponse option \<Rightarrow> promise_state \<Rightarrow> promise_state \<times> bool" where
  "safe_set_response response promise =
     (case response of
        None \<Rightarrow> (promise, False)
      | Some r \<Rightarrow>
          if \<not> ready r then (promise, False)
          else case promise of
            PromiseUnset \<Rightarrow> (PromiseResponse r, False)
          | _ \<Rightarrow> (promise, True))"

definition error_code_message :: "error_code \<Rightarrow> string" where
  "error_code_message ec =
     (case ec_category ec of
        client_error_category \<Rightarrow> client_error_message (ec_value ec)
      | http_error_category \<Rightarrow> http_error_message (ec_value ec)
      | websocket_error_category \<Rightarrow> websocket_error_message (ec_value ec)
      | _ \<Rightarrow> [])"

definition make_submit_error_response :: "SubmitResult \<Rightarrow> HttpResponse" where
  "make_submit_error_response r =
     HttpResponse_default\<lparr>ready := True, status_code := 0, rs_error_code := submit_error r,
       rs_error_message := error_code_message (submit_error r)\<rparr>"

section \<open>The client\<close>

record HttpClient =
  hc_request :: HttpRequest
  hc_host :: string
  m_owns_general_rate_limit :: bool
  m_owns_specific_rate_limit :: bool
  m_max_in_flight :: nat
  m_auth_provider :: "(HttpRequest \<Rightarrow> HttpRequest) option"

definition HttpClient_new :: "string \<Rightarrow> HttpRequestManager \<Rightarrow> HttpClient \<times> HttpRequestManager" where
  "HttpClient_new host m =
     (let (m1, g) = generate_group_id m
      in (\<lparr>hc_request = HttpRequest_default\<lparr>group_id := g\<rparr>, hc_host = host, m_owns_general_rate_limit = False,
           m_owns_specific_rate_limit = False, m_max_in_flight = 0, m_auth_provider = None\<rparr>, m1))"

definition HttpClient_default :: "HttpRequestManager \<Rightarrow> HttpClient \<times> HttpRequestManager" where
  "HttpClient_default m = HttpClient_new [] m"

definition on_request :: "(HttpRequest \<Rightarrow> HttpRequest) \<Rightarrow> HttpClient \<Rightarrow> HttpClient" where
  "on_request f c = c\<lparr>hc_request := f (hc_request c)\<rparr>"

subsection \<open>Rate limits\<close>

definition clear_rate_limit :: "RateLimitType \<Rightarrow> HttpClient \<Rightarrow> HttpRequestManager \<Rightarrow> HttpClient \<times> HttpRequestManager" where
  "clear_rate_limit type c m =
     (case type of
        RL_GENERAL \<Rightarrow>
          let h = general_rate_limit (hc_request c);
              m1 = (if m_owns_general_rate_limit c then fst (hm_remove_limit_handle h m) else m)
          in (on_request (\<lambda>r. r\<lparr>general_rate_limit := None\<rparr>) c\<lparr>m_owns_general_rate_limit := False\<rparr>,
              on_limiter (drop_handle h) m1)
      | RL_SPECIFIC \<Rightarrow>
          let h = specific_rate_limit (hc_request c);
              m1 = (if m_owns_specific_rate_limit c then fst (hm_remove_limit_handle h m) else m)
          in (on_request (\<lambda>r. r\<lparr>specific_rate_limit := None\<rparr>) c\<lparr>m_owns_specific_rate_limit := False\<rparr>,
              on_limiter (drop_handle h) m1))"

definition assign_rate_limit_handle ::
    "HttpRateLimitHandlePtr \<Rightarrow> RateLimitType \<Rightarrow> HttpClient \<Rightarrow> HttpRequestManager \<Rightarrow> HttpClient \<times> HttpRequestManager \<times> bool" where
  "assign_rate_limit_handle limit type c m =
     (if limit = None then (c, m, False)
      else
        let (c1, m1) = clear_rate_limit type c m;
            m2 = on_limiter (copy_handle limit) m1
        in case type of
             RL_GENERAL \<Rightarrow> (on_request (\<lambda>r. r\<lparr>general_rate_limit := limit\<rparr>) c1, m2, True)
           | RL_SPECIFIC \<Rightarrow> (on_request (\<lambda>r. r\<lparr>specific_rate_limit := limit\<rparr>) c1, m2, True))"

definition assign_rate_limit_id ::
    "int \<Rightarrow> RateLimitType \<Rightarrow> HttpClient \<Rightarrow> HttpRequestManager \<Rightarrow> HttpClient \<times> HttpRequestManager \<times> bool" where
  "assign_rate_limit_id limit_id type c m =
     (let (m1, h) = get_rate_limit limit_id m;
          (c2, m2, ok) = assign_rate_limit_handle h type c m1
      in (c2, on_limiter (drop_handle h) m2, ok))"

definition set_rate_limit_id ::
    "int \<Rightarrow> RateLimitType \<Rightarrow> HttpClient \<Rightarrow> HttpRequestManager \<Rightarrow> HttpClient \<times> HttpRequestManager \<times> bool" where
  "set_rate_limit_id limit_id type c m = assign_rate_limit_id limit_id type c m"

definition set_rate_limit_handle ::
    "HttpRateLimitHandlePtr \<Rightarrow> RateLimitType \<Rightarrow> HttpClient \<Rightarrow> HttpRequestManager \<Rightarrow> HttpClient \<times> HttpRequestManager \<times> bool" where
  "set_rate_limit_handle limit type c m = assign_rate_limit_handle limit type c m"

definition set_rate_limit ::
    "int \<Rightarrow> int \<Rightarrow> RateLimitType \<Rightarrow> bool \<Rightarrow> HttpClient \<Rightarrow> HttpRequestManager \<Rightarrow> HttpClient \<times> HttpRequestManager" where
  "set_rate_limit rpp per type seq c m =
     (let (c1, m1) = clear_rate_limit type c m;
          (m2, h) = create_rate_limit rpp per seq m1
      in case type of
           RL_GENERAL \<Rightarrow> (on_request (\<lambda>r. r\<lparr>general_rate_limit := h\<rparr>) c1\<lparr>m_owns_general_rate_limit := True\<rparr>, m2)
         | RL_SPECIFIC \<Rightarrow> (on_request (\<lambda>r. r\<lparr>specific_rate_limit := h\<rparr>) c1\<lparr>m_owns_specific_rate_limit := True\<rparr>, m2))"

definition set_rate_limit_rpm ::
    "int \<Rightarrow> RateLimitType \<Rightarrow> bool \<Rightarrow> HttpClient \<Rightarrow> HttpRequestManager \<Rightarrow> HttpClient \<times> HttpRequestManager" where
  "set_rate_limit_rpm requests_per_minute type seq c m = set_rate_limit requests_per_minute 60000 type seq c m"

definition set_rate_limit_rps ::
    "int \<Rightarrow> RateLimitType \<Rightarrow> bool \<Rightarrow> HttpClient \<Rightarrow> HttpRequestManager \<Rightarrow> HttpClient \<times> HttpRequestManager" where
  "set_rate_limit_rps requests_per_second type seq c m = set_rate_limit requests_per_second 1000 type seq c m"

definition set_rate_limit_keys :: "string \<Rightarrow> string \<Rightarrow> HttpClient \<Rightarrow> HttpClient" where
  "set_rate_limit_keys general_key specific_key =
     on_request (\<lambda>r. r\<lparr>general_rate_limit_key := general_key, specific_rate_limit_key := specific_key\<rparr>)"

definition set_rate_limit_key :: "string \<Rightarrow> HttpClient \<Rightarrow> HttpClient" where
  "set_rate_limit_key key =
     on_request (\<lambda>r. r\<lparr>general_rate_limit_key := key, specific_rate_limit_key := key\<rparr>)"

definition set_general_rate_limit_key :: "string \<Rightarrow> HttpClient \<Rightarrow> HttpClient" where
  "set_general_rate_limit_key key = on_request (\<lambda>r. r\<lparr>general_rate_limit_key := key\<rparr>)"

definition set_specific_rate_limit_key :: "string \<Rightarrow> HttpClient \<Rightarrow> HttpClient" where
  "set_specific_rate_limit_key key = on_request (\<lambda>r. r\<lparr>specific_rate_limit_key := key\<rparr>)"

subsection \<open>Defaults of the requests\<close>

definition hc_set_host :: "string \<Rightarrow> HttpClient \<Rightarrow> HttpClient" where
  "hc_set_host host c = c\<lparr>hc_host := host\<rparr>"

definition hc_set_headers :: "Headers \<Rightarrow> HttpClient \<Rightarrow> HttpClient" where
  "hc_set_headers headers = on_request (\<lambda>r. r\<lparr>rq_headers := headers\<rparr>)"

definition set_auth_provider :: "(HttpRequest \<Rightarrow> HttpRequest) option \<Rightarrow> HttpClient \<Rightarrow> HttpClient" where
  "set_auth_provider provider c = c\<lparr>m_auth_provider := provider\<rparr>"

definition clear_auth_provider :: "HttpClient \<Rightarrow> HttpClient" where
  "clear_auth_provider c = c\<lparr>m_auth_provider := None\<rparr>"

definition has_auth_provider :: "HttpClient \<Rightarrow> bool" where
  "has_auth_provider c = (case m_auth_provider c of None \<Rightarrow> False | Some _ \<Rightarrow> True)"

text \<open>\<open>erase\<close> removes every entry whose key is equal up to case.\<close>

definition multimap_erase :: "string \<Rightarrow> Headers \<Rightarrow> Headers" where
  "multimap_erase name hs = filter (\<lambda>(k, _). \<not> case_insensitive_equal k name) hs"

definition set_header :: "string \<Rightarrow> string \<Rightarrow> HttpClient \<Rightarrow> HttpClient" where
  "set_header name v = on_request (\<lambda>r. r\<lparr>rq_headers := multimap_emplace name v (multimap_erase name (rq_headers r))\<rparr>)"

definition hc_set_accept_encoding :: "bool \<Rightarrow> bool \<Rightarrow> bool \<Rightarrow> bool \<Rightarrow> HttpClient \<Rightarrow> HttpClient" where
  "hc_set_accept_encoding identity deflate gzip brotli = on_request (rq_set_accept_encoding identity deflate gzip brotli)"

definition hc_set_accept_encoding_value :: "string \<Rightarrow> HttpClient \<Rightarrow> HttpClient" where
  "hc_set_accept_encoding_value v = on_request (\<lambda>r. r\<lparr>rq_accept_encoding := v\<rparr>)"

definition hc_set_accept_language :: "string \<Rightarrow> HttpClient \<Rightarrow> HttpClient" where
  "hc_set_accept_language v = set_header ''Accept-Language'' v"

definition hc_set_content_type :: "string \<Rightarrow> HttpClient \<Rightarrow> HttpClient" where
  "hc_set_content_type v = set_header ''Content-Type'' v"

definition hc_set_origin :: "string \<Rightarrow> HttpClient \<Rightarrow> HttpClient" where
  "hc_set_origin v = set_header ''Origin'' v"

definition hc_set_referer :: "string \<Rightarrow> HttpClient \<Rightarrow> HttpClient" where
  "hc_set_referer v = set_header ''Referer'' v"

definition hc_set_dnt :: "bool \<Rightarrow> HttpClient \<Rightarrow> HttpClient" where
  "hc_set_dnt v =
     on_request (\<lambda>r. let hs = multimap_erase ''dnt'' (rq_headers r)
                      in r\<lparr>rq_headers := (if v then multimap_emplace ''dnt'' ''1'' hs else hs)\<rparr>)"

definition hc_set_follow_location :: "bool \<Rightarrow> HttpClient \<Rightarrow> HttpClient" where
  "hc_set_follow_location v = on_request (\<lambda>r. r\<lparr>rq_follow_location := v\<rparr>)"

definition hc_set_auto_referer :: "bool \<Rightarrow> HttpClient \<Rightarrow> HttpClient" where
  "hc_set_auto_referer v = on_request (\<lambda>r. r\<lparr>rq_auto_referer := v\<rparr>)"

definition hc_set_proxy_tunnel :: "bool \<Rightarrow> HttpClient \<Rightarrow> HttpClient" where
  "hc_set_proxy_tunnel v = on_request (\<lambda>r. r\<lparr>rq_proxy_tunnel := v\<rparr>)"

definition hc_set_head_only :: "bool \<Rightarrow> HttpClient \<Rightarrow> HttpClient" where
  "hc_set_head_only v = on_request (\<lambda>r. r\<lparr>head_only := v\<rparr>)"

definition hc_set_streaming :: "bool \<Rightarrow> HttpClient \<Rightarrow> HttpClient" where
  "hc_set_streaming v = on_request (\<lambda>r. r\<lparr>streaming := v\<rparr>)"

definition hc_set_proxy :: "string \<Rightarrow> int \<Rightarrow> ProxyType \<Rightarrow> HttpClient \<Rightarrow> HttpClient" where
  "hc_set_proxy ip port type = on_request (rq_set_proxy_typed ip port type)"

definition hc_set_proxy_full :: "string \<Rightarrow> int \<Rightarrow> string \<Rightarrow> string \<Rightarrow> ProxyType \<Rightarrow> HttpClient \<Rightarrow> HttpClient" where
  "hc_set_proxy_full ip port username password type = on_request (rq_set_proxy_full ip port username password type)"

definition hc_set_proxy_credentials :: "string \<Rightarrow> string \<Rightarrow> HttpClient \<Rightarrow> HttpClient" where
  "hc_set_proxy_credentials username password = on_request (rq_set_proxy_credentials username password)"

definition hc_set_proxy_server :: "string \<Rightarrow> HttpClient \<Rightarrow> HttpClient" where
  "hc_set_proxy_server server = on_request (rq_set_proxy_server server)"

definition hc_set_proxy_auth :: "string \<Rightarrow> HttpClient \<Rightarrow> HttpClient" where
  "hc_set_proxy_auth auth = on_request (rq_set_proxy_auth auth)"

definition hc_set_proxy_type :: "ProxyType \<Rightarrow> HttpClient \<Rightarrow> HttpClient" where
  "hc_set_proxy_type type = on_request (rq_set_proxy_type type)"

definition hc_set_retry_attempts :: "int \<Rightarrow> int \<Rightarrow> HttpClient \<Rightarrow> HttpClient" where
  "hc_set_retry_attempts n d = on_request (rq_set_retry_attempts n d)"

definition hc_add_valid_status :: "int \<Rightarrow> HttpClient \<Rightarrow> HttpClient" where
  "hc_add_valid_status st = on_request (rq_add_valid_status st)"

definition hc_set_valid_statuses :: "int set \<Rightarrow> HttpClient \<Rightarrow> HttpClient" where
  "hc_set_valid_statuses sts = on_request (rq_set_valid_statuses sts)"

definition hc_clear_valid_statuses :: "HttpClient \<Rightarrow> HttpClient" where
  "hc_clear_valid_statuses = on_request rq_clear_valid_statuses"

definition hc_set_user_agent :: "string \<Rightarrow> HttpClient \<Rightarrow> HttpClient" where
  "hc_set_user_agent ua = on_request (rq_set_user_agent ua)"

definition hc_set_cookie :: "string \<Rightarrow> HttpClient \<Rightarrow> HttpClient" where
  "hc_set_cookie ck = on_request (rq_set_cookie ck)"

definition hc_set_cert_file :: "string \<Rightarrow> HttpClient \<Rightarrow> HttpClient" where
  "hc_set_cert_file f = on_request (rq_set_cert_file f)"

definition hc_set_ca_file :: "string \<Rightarrow> HttpClient \<Rightarrow> HttpClient" where
  "hc_set_ca_file f = on_request (rq_set_ca_file f)"

definition hc_set_timeout :: "int \<Rightarrow> HttpClient \<Rightarrow> HttpClient" where
  "hc_set_timeout t = on_request (rq_set_timeout t)"

definition hc_set_connect_timeout :: "int \<Rightarrow> HttpClient \<Rightarrow> HttpClient" where
  "hc_set_connect_timeout t = on_request (rq_set_connect_timeout t)"

definition hc_set_verbose :: "bool \<Rightarrow> HttpClient \<Rightarrow> HttpClient" where
  "hc_set_verbose v = on_request (\<lambda>r. r\<lparr>rq_verbose := v\<rparr>)"

definition hc_set_debug_header :: "bool \<Rightarrow> HttpClient \<Rightarrow> HttpClient" where
  "hc_set_debug_header v = on_request (\<lambda>r. r\<lparr>rq_debug_header := v\<rparr>)"

definition hc_set_max_redirects :: "int \<Rightarrow> HttpClient \<Rightarrow> HttpClient" where
  "hc_set_max_redirects n = on_request (\<lambda>r. r\<lparr>rq_max_redirects := n\<rparr>)"

definition set_max_in_flight :: "nat \<Rightarrow> HttpClient \<Rightarrow> HttpClient" where
  "set_max_in_flight n c = c\<lparr>m_max_in_flight := n\<rparr>"

definition max_in_flight :: "HttpClient \<Rightarrow> nat" where
  "max_in_flight c = m_max_in_flight c"

definition in_flight_requests :: "HttpClient \<Rightarrow> HttpRequestManager \<Rightarrow> nat" where
  "in_flight_requests c m = group_request_count (group_id (hc_request c)) m"

section \<open>Requests of a client\<close>

text \<open>Copying the request of the client copies its two shared pointers.\<close>

definition copy_request :: "HttpRequest \<Rightarrow> HttpRequestManager \<Rightarrow> HttpRequestManager" where
  "copy_request r m = on_limiter (copy_handle (specific_rate_limit r) \<circ> copy_handle (general_rate_limit r)) m"

definition make_request ::
    "(QueryParams \<Rightarrow> string \<Rightarrow> string) \<Rightarrow> string \<Rightarrow> string \<Rightarrow> QueryParams \<Rightarrow> Headers \<Rightarrow> string \<Rightarrow> HttpClient \<Rightarrow>
     HttpRequestManager \<Rightarrow> HttpRequest \<times> HttpRequestManager" where
  "make_request query_string method path query headers content c m =
     (let m1 = copy_request (hc_request c) m;
          (m2, i) = generate_request_id m1;
          r = rq_set_url_path_query query_string (hc_host c) path query
                ((hc_request c)\<lparr>request_id := i, rq_method := method\<rparr>);
          r1 = r\<lparr>rq_headers := rq_headers r @ headers, rq_content := content\<rparr>;
          r2 = (case m_auth_provider c of None \<Rightarrow> r1 | Some authorize \<Rightarrow> authorize r1)
      in (r2, m2))"

text \<open>\<open>request_ptr->specific_rate_limit = limit\<close>\<close>

definition override_specific_limit :: "HttpRateLimitHandlePtr \<Rightarrow> HttpRequest \<Rightarrow> HttpRequestManager \<Rightarrow> HttpRequest \<times> HttpRequestManager" where
  "override_specific_limit limit r m =
     (r\<lparr>specific_rate_limit := limit\<rparr>, on_limiter (drop_handle (specific_rate_limit r) \<circ> copy_handle limit) m)"

definition hc_submit_request ::
    "bool \<Rightarrow> HttpRequest option \<Rightarrow> cb option \<Rightarrow> HttpClient \<Rightarrow> HttpRequestManager \<Rightarrow>
     HttpRequestManager \<times> SubmitResult option \<times> bool" where
  "hc_submit_request push_ok request_ptr f c m =
     (if m_max_in_flight c \<noteq> 0 \<and> group_request_count (group_id (hc_request c)) m \<ge> m_max_in_flight c
      then (case request_ptr of None \<Rightarrow> m | Some r \<Rightarrow> drop_request r m,
            Some (submit_result False (client_error QueueLimitExceeded)), False)
      else
        let (m1, r) = submit_request push_ok request_ptr f m
        in (m1, r, case r of None \<Rightarrow> False | Some sr \<Rightarrow> accepted sr))"

text \<open>The result of the overloads with a callback is whether the request was accepted; \<open>None\<close> when an
  exception left the call.\<close>

definition hc_request_ptr ::
    "bool \<Rightarrow> HttpRequest option \<Rightarrow> cb option \<Rightarrow> HttpClient \<Rightarrow> HttpRequestManager \<Rightarrow> HttpRequestManager \<times> bool option \<times> bool" where
  "hc_request_ptr push_ok request_ptr f c m =
     (let (m1, r, n) = hc_submit_request push_ok request_ptr f c m in (m1, map_option accepted r, n))"

definition hc_request_cb ::
    "(QueryParams \<Rightarrow> string \<Rightarrow> string) \<Rightarrow> bool \<Rightarrow> string \<Rightarrow> string \<Rightarrow> QueryParams \<Rightarrow> Headers \<Rightarrow> string \<Rightarrow> cb option \<Rightarrow>
     HttpClient \<Rightarrow> HttpRequestManager \<Rightarrow> HttpRequestManager \<times> bool option \<times> bool" where
  "hc_request_cb query_string push_ok method path query headers content f c m =
     (let (r, m1) = make_request query_string method path query headers content c m
      in hc_request_ptr push_ok (Some r) f c m1)"

definition hc_request_cb_handle ::
    "(QueryParams \<Rightarrow> string \<Rightarrow> string) \<Rightarrow> bool \<Rightarrow> string \<Rightarrow> string \<Rightarrow> QueryParams \<Rightarrow> Headers \<Rightarrow> string \<Rightarrow> HttpRateLimitHandlePtr \<Rightarrow>
     cb option \<Rightarrow> HttpClient \<Rightarrow> HttpRequestManager \<Rightarrow> HttpRequestManager \<times> bool option \<times> bool" where
  "hc_request_cb_handle query_string push_ok method path query headers content limit f c m =
     (let (r, m1) = make_request query_string method path query headers content c m;
          (r1, m2) = override_specific_limit limit r m1
      in hc_request_ptr push_ok (Some r1) f c m2)"

definition hc_request_cb_id ::
    "(QueryParams \<Rightarrow> string \<Rightarrow> string) \<Rightarrow> bool \<Rightarrow> string \<Rightarrow> string \<Rightarrow> QueryParams \<Rightarrow> Headers \<Rightarrow> string \<Rightarrow> int \<Rightarrow>
     cb option \<Rightarrow> HttpClient \<Rightarrow> HttpRequestManager \<Rightarrow> HttpRequestManager \<times> bool option \<times> bool" where
  "hc_request_cb_id query_string push_ok method path query headers content limit_id f c m =
     (let (m1, h) = get_rate_limit limit_id m;
          (m2, ok, n) = hc_request_cb_handle query_string push_ok method path query headers content h f c m1
      in (on_limiter (drop_handle h) m2, ok, n))"

definition hc_get ::
    "(QueryParams \<Rightarrow> string \<Rightarrow> string) \<Rightarrow> bool \<Rightarrow> string \<Rightarrow> QueryParams \<Rightarrow> Headers \<Rightarrow> cb option \<Rightarrow>
     HttpClient \<Rightarrow> HttpRequestManager \<Rightarrow> HttpRequestManager \<times> bool option \<times> bool" where
  "hc_get query_string push_ok path query headers f =
     hc_request_cb query_string push_ok ''GET'' path query headers [] f"

definition hc_post ::
    "(QueryParams \<Rightarrow> string \<Rightarrow> string) \<Rightarrow> bool \<Rightarrow> string \<Rightarrow> QueryParams \<Rightarrow> Headers \<Rightarrow> string \<Rightarrow> cb option \<Rightarrow>
     HttpClient \<Rightarrow> HttpRequestManager \<Rightarrow> HttpRequestManager \<times> bool option \<times> bool" where
  "hc_post query_string push_ok path query headers content f =
     hc_request_cb query_string push_ok ''POST'' path query headers content f"

definition hc_get_id ::
    "(QueryParams \<Rightarrow> string \<Rightarrow> string) \<Rightarrow> bool \<Rightarrow> string \<Rightarrow> QueryParams \<Rightarrow> Headers \<Rightarrow> int \<Rightarrow> cb option \<Rightarrow>
     HttpClient \<Rightarrow> HttpRequestManager \<Rightarrow> HttpRequestManager \<times> bool option \<times> bool" where
  "hc_get_id query_string push_ok path query headers limit_id f =
     hc_request_cb_id query_string push_ok ''GET'' path query headers [] limit_id f"

definition hc_get_handle ::
    "(QueryParams \<Rightarrow> string \<Rightarrow> string) \<Rightarrow> bool \<Rightarrow> string \<Rightarrow> QueryParams \<Rightarrow> Headers \<Rightarrow> HttpRateLimitHandlePtr \<Rightarrow> cb option \<Rightarrow>
     HttpClient \<Rightarrow> HttpRequestManager \<Rightarrow> HttpRequestManager \<times> bool option \<times> bool" where
  "hc_get_handle query_string push_ok path query headers limit f =
     hc_request_cb_handle query_string push_ok ''GET'' path query headers [] limit f"

definition hc_post_id ::
    "(QueryParams \<Rightarrow> string \<Rightarrow> string) \<Rightarrow> bool \<Rightarrow> string \<Rightarrow> QueryParams \<Rightarrow> Headers \<Rightarrow> string \<Rightarrow> int \<Rightarrow> cb option \<Rightarrow>
     HttpClient \<Rightarrow> HttpRequestManager \<Rightarrow> HttpRequestManager \<times> bool option \<times> bool" where
  "hc_post_id query_string push_ok path query headers content limit_id f =
     hc_request_cb_id query_string push_ok ''POST'' path query headers content limit_id f"

definition hc_post_handle ::
    "(QueryParams \<Rightarrow> string \<Rightarrow> string) \<Rightarrow> bool \<Rightarrow> string \<Rightarrow> QueryParams \<Rightarrow> Headers \<Rightarrow> string \<Rightarrow> HttpRateLimitHandlePtr \<Rightarrow> cb option \<Rightarrow>
     HttpClient \<Rightarrow> HttpRequestManager \<Rightarrow> HttpRequestManager \<times> bool option \<times> bool" where
  "hc_post_handle query_string push_ok path query headers content limit f =
     hc_request_cb_handle query_string push_ok ''POST'' path query headers content limit f"

subsection \<open>Futures\<close>

text \<open>The state of the promise when the call returns: unset when the request was accepted, the error
  response when it was refused, the exception when one left the submission.\<close>

definition safe_submit_request ::
    "bool \<Rightarrow> cb \<Rightarrow> HttpRequest option \<Rightarrow> HttpClient \<Rightarrow> HttpRequestManager \<Rightarrow> HttpRequestManager \<times> promise_state \<times> bool" where
  "safe_submit_request push_ok promise request_ptr c m =
     (let (m1, r, n) = hc_submit_request push_ok request_ptr (Some promise) c m
      in (m1,
          case r of
            None \<Rightarrow> PromiseException
          | Some sr \<Rightarrow>
              if \<not> accepted sr then fst (safe_set_response (Some (make_submit_error_response sr)) PromiseUnset)
              else PromiseUnset,
          n))"

definition submit_future_request ::
    "bool \<Rightarrow> cb \<Rightarrow> HttpRequest option \<Rightarrow> HttpClient \<Rightarrow> HttpRequestManager \<Rightarrow> HttpRequestManager \<times> promise_state \<times> bool" where
  "submit_future_request push_ok promise request_ptr c m = safe_submit_request push_ok promise request_ptr c m"

definition hc_request_future ::
    "(QueryParams \<Rightarrow> string \<Rightarrow> string) \<Rightarrow> bool \<Rightarrow> cb \<Rightarrow> string \<Rightarrow> string \<Rightarrow> QueryParams \<Rightarrow> Headers \<Rightarrow> string \<Rightarrow>
     HttpClient \<Rightarrow> HttpRequestManager \<Rightarrow> HttpRequestManager \<times> promise_state \<times> bool" where
  "hc_request_future query_string push_ok promise method path query headers content c m =
     (let (r, m1) = make_request query_string method path query headers content c m
      in submit_future_request push_ok promise (Some r) c m1)"

definition hc_request_future_handle ::
    "(QueryParams \<Rightarrow> string \<Rightarrow> string) \<Rightarrow> bool \<Rightarrow> cb \<Rightarrow> string \<Rightarrow> string \<Rightarrow> QueryParams \<Rightarrow> Headers \<Rightarrow> string \<Rightarrow> HttpRateLimitHandlePtr \<Rightarrow>
     HttpClient \<Rightarrow> HttpRequestManager \<Rightarrow> HttpRequestManager \<times> promise_state \<times> bool" where
  "hc_request_future_handle query_string push_ok promise method path query headers content limit c m =
     (let (r, m1) = make_request query_string method path query headers content c m;
          (r1, m2) = override_specific_limit limit r m1
      in submit_future_request push_ok promise (Some r1) c m2)"

definition hc_request_future_id ::
    "(QueryParams \<Rightarrow> string \<Rightarrow> string) \<Rightarrow> bool \<Rightarrow> cb \<Rightarrow> string \<Rightarrow> string \<Rightarrow> QueryParams \<Rightarrow> Headers \<Rightarrow> string \<Rightarrow> int \<Rightarrow>
     HttpClient \<Rightarrow> HttpRequestManager \<Rightarrow> HttpRequestManager \<times> promise_state \<times> bool" where
  "hc_request_future_id query_string push_ok promise method path query headers content limit_id c m =
     (let (m1, h) = get_rate_limit limit_id m;
          (m2, p, n) = hc_request_future_handle query_string push_ok promise method path query headers content h c m1
      in (on_limiter (drop_handle h) m2, p, n))"

definition hc_get_future ::
    "(QueryParams \<Rightarrow> string \<Rightarrow> string) \<Rightarrow> bool \<Rightarrow> cb \<Rightarrow> string \<Rightarrow> QueryParams \<Rightarrow> Headers \<Rightarrow>
     HttpClient \<Rightarrow> HttpRequestManager \<Rightarrow> HttpRequestManager \<times> promise_state \<times> bool" where
  "hc_get_future query_string push_ok promise path query headers =
     hc_request_future query_string push_ok promise ''GET'' path query headers []"

definition hc_post_future ::
    "(QueryParams \<Rightarrow> string \<Rightarrow> string) \<Rightarrow> bool \<Rightarrow> cb \<Rightarrow> string \<Rightarrow> QueryParams \<Rightarrow> Headers \<Rightarrow> string \<Rightarrow>
     HttpClient \<Rightarrow> HttpRequestManager \<Rightarrow> HttpRequestManager \<times> promise_state \<times> bool" where
  "hc_post_future query_string push_ok promise path query headers content =
     hc_request_future query_string push_ok promise ''POST'' path query headers content"

definition hc_get_future_id ::
    "(QueryParams \<Rightarrow> string \<Rightarrow> string) \<Rightarrow> bool \<Rightarrow> cb \<Rightarrow> string \<Rightarrow> QueryParams \<Rightarrow> Headers \<Rightarrow> int \<Rightarrow>
     HttpClient \<Rightarrow> HttpRequestManager \<Rightarrow> HttpRequestManager \<times> promise_state \<times> bool" where
  "hc_get_future_id query_string push_ok promise path query headers limit_id =
     hc_request_future_id query_string push_ok promise ''GET'' path query headers [] limit_id"

definition hc_post_future_id ::
    "(QueryParams \<Rightarrow> string \<Rightarrow> string) \<Rightarrow> bool \<Rightarrow> cb \<Rightarrow> string \<Rightarrow> QueryParams \<Rightarrow> Headers \<Rightarrow> string \<Rightarrow> int \<Rightarrow>
     HttpClient \<Rightarrow> HttpRequestManager \<Rightarrow> HttpRequestManager \<times> promise_state \<times> bool" where
  "hc_post_future_id query_string push_ok promise path query headers content limit_id =
     hc_request_future_id query_string push_ok promise ''POST'' path query headers content limit_id"

definition hc_get_future_handle ::
    "(QueryParams \<Rightarrow> string \<Rightarrow> string) \<Rightarrow> bool \<Rightarrow> cb \<Rightarrow> string \<Rightarrow> QueryParams \<Rightarrow> Headers \<Rightarrow> HttpRateLimitHandlePtr \<Rightarrow>
     HttpClient \<Rightarrow> HttpRequestManager \<Rightarrow> HttpRequestManager \<times> promise_state \<times> bool" where
  "hc_get_future_handle query_string push_ok promise path query headers limit =
     hc_request_future_handle query_string push_ok promise ''GET'' path query headers [] limit"

definition hc_post_future_handle ::
    "(QueryParams \<Rightarrow> string \<Rightarrow> string) \<Rightarrow> bool \<Rightarrow> cb \<Rightarrow> string \<Rightarrow> QueryParams \<Rightarrow> Headers \<Rightarrow> string \<Rightarrow> HttpRateLimitHandlePtr \<Rightarrow>
     HttpClient \<Rightarrow> HttpRequestManager \<Rightarrow> HttpRequestManager \<times> promise_state \<times> bool" where
  "hc_post_future_handle query_string push_ok promise path query headers content limit =
     hc_request_future_handle query_string push_ok promise ''POST'' path query headers content limit"

subsection \<open>Waiting and cancelling\<close>

text \<open>The parts of the blocking functions before they block; the promise is set by the callback.\<close>

definition cancel_requests :: "cb \<Rightarrow> HttpClient \<Rightarrow> HttpRequestManager \<Rightarrow> HttpRequestManager \<times> bool" where
  "cancel_requests promise c m = (cancel_requests_by_group_id (group_id (hc_request c)) (Some promise) m, True)"

definition cancel_requests_on_worker :: "HttpClient \<Rightarrow> HttpRequestManager \<Rightarrow> HttpRequestManager" where
  "cancel_requests_on_worker c m = cancel_requests_by_group_id (group_id (hc_request c)) None m"

definition make_wait_requests_future :: "cb \<Rightarrow> HttpClient \<Rightarrow> HttpRequestManager \<Rightarrow> HttpRequestManager \<times> u64" where
  "make_wait_requests_future promise c m = wait_requests_by_group_id (group_id (hc_request c)) (Some promise) m"

definition wait_requests :: "bool \<Rightarrow> cb \<Rightarrow> HttpClient \<Rightarrow> HttpRequestManager \<Rightarrow> (HttpRequestManager \<times> bool) option" where
  "wait_requests on_worker promise c m =
     (if on_worker then None else Some (fst (make_wait_requests_future promise c m), True))"

definition wait_requests_for_begin ::
    "bool \<Rightarrow> cb \<Rightarrow> HttpClient \<Rightarrow> HttpRequestManager \<Rightarrow> HttpRequestManager \<times> u64 option \<times> bool" where
  "wait_requests_for_begin on_worker promise c m =
     (if on_worker then (m, None, False)
      else let (m1, w) = make_wait_requests_future promise c m in (m1, Some w, True))"

definition wait_requests_for_timeout :: "u64 \<Rightarrow> HttpClient \<Rightarrow> HttpRequestManager \<Rightarrow> HttpRequestManager \<times> bool" where
  "wait_requests_for_timeout waiter_id c m =
     (fst (cancel_wait_requests_by_group_id (group_id (hc_request c)) waiter_id m), False)"

text \<open>The destructor after the cancellation callback has arrived.\<close>

definition HttpClient_destroy :: "HttpClient \<Rightarrow> HttpRequestManager \<Rightarrow> HttpClient \<times> HttpRequestManager" where
  "HttpClient_destroy c m =
     (let (c1, m1) = clear_rate_limit RL_GENERAL c m in clear_rate_limit RL_SPECIFIC c1 m1)"

end
