(* ===== verification/Http_Functions.thy ===== *)
theory Http_Functions
  imports Http_Client
begin

text \<open>
  The free functions of \<^verbatim>\<open>http/utils.hpp\<close>, each on the request manager; the Boolean at the end of a result
  says whether the function notifies the worker. \<open>make_submit_error_response\<close> and \<open>safe_set_response\<close> are
  the same code as in \<^verbatim>\<open>HttpClient\<close>.
\<close>

declare map_of_eq_Some_iff [simp del] Some_eq_map_of_iff [simp del]

section \<open>Limits, identifiers, cancellation\<close>

definition hu_create_rate_limit :: "int \<Rightarrow> int \<Rightarrow> bool \<Rightarrow> HttpRequestManager \<Rightarrow> HttpRequestManager \<times> HttpRateLimitHandlePtr" where
  "hu_create_rate_limit rpp per seq m = create_rate_limit rpp per seq m"

definition create_rate_limit_rpm :: "int \<Rightarrow> bool \<Rightarrow> HttpRequestManager \<Rightarrow> HttpRequestManager \<times> HttpRateLimitHandlePtr" where
  "create_rate_limit_rpm rpm seq m = create_rate_limit rpm 60000 seq m"

definition create_rate_limit_rps :: "int \<Rightarrow> bool \<Rightarrow> HttpRequestManager \<Rightarrow> HttpRequestManager \<times> HttpRateLimitHandlePtr" where
  "create_rate_limit_rps rps seq m = create_rate_limit rps 1000 seq m"

definition hu_get_rate_limit :: "int \<Rightarrow> HttpRequestManager \<Rightarrow> HttpRequestManager \<times> HttpRateLimitHandlePtr" where
  "hu_get_rate_limit limit_id m = get_rate_limit limit_id m"

definition hu_remove_limit :: "int \<Rightarrow> HttpRequestManager \<Rightarrow> HttpRequestManager \<times> bool" where
  "hu_remove_limit limit_id m = hm_remove_limit limit_id m"

definition hu_remove_limit_handle :: "HttpRateLimitHandlePtr \<Rightarrow> HttpRequestManager \<Rightarrow> HttpRequestManager \<times> bool" where
  "hu_remove_limit_handle limit m = hm_remove_limit_handle limit m"

definition hu_generate_request_id :: "HttpRequestManager \<Rightarrow> HttpRequestManager \<times> u64" where
  "hu_generate_request_id m = generate_request_id m"

definition hu_generate_group_id :: "HttpRequestManager \<Rightarrow> HttpRequestManager \<times> u64" where
  "hu_generate_group_id m = generate_group_id m"

definition hu_set_max_pending_requests :: "nat \<Rightarrow> HttpRequestManager \<Rightarrow> HttpRequestManager" where
  "hu_set_max_pending_requests n m = set_max_pending_requests n m"

definition hu_max_pending_requests :: "HttpRequestManager \<Rightarrow> nat" where
  "hu_max_pending_requests m = max_pending_requests m"

definition hu_cancel_request_by_id :: "u64 \<Rightarrow> cb option \<Rightarrow> HttpRequestManager \<Rightarrow> HttpRequestManager \<times> bool" where
  "hu_cancel_request_by_id i f m = (cancel_request_by_id i f m, True)"

definition hu_cancel_request_by_id_future :: "u64 \<Rightarrow> cb \<Rightarrow> HttpRequestManager \<Rightarrow> HttpRequestManager \<times> bool" where
  "hu_cancel_request_by_id_future i promise m = (cancel_request_by_id i (Some promise) m, True)"

definition hu_cancel_requests_by_group_id :: "u64 \<Rightarrow> cb option \<Rightarrow> HttpRequestManager \<Rightarrow> HttpRequestManager \<times> bool" where
  "hu_cancel_requests_by_group_id g f m = (cancel_requests_by_group_id g f m, True)"

definition hu_cancel_requests_by_group_id_future :: "u64 \<Rightarrow> cb \<Rightarrow> HttpRequestManager \<Rightarrow> HttpRequestManager \<times> bool" where
  "hu_cancel_requests_by_group_id_future g promise m = (cancel_requests_by_group_id g (Some promise) m, True)"

section \<open>Submitting requests\<close>

definition submit_http_request ::
    "bool \<Rightarrow> HttpRequest option \<Rightarrow> cb option \<Rightarrow> HttpRequestManager \<Rightarrow> HttpRequestManager \<times> SubmitResult option \<times> bool" where
  "submit_http_request push_ok request_ptr f m =
     (let (m1, r) = submit_request push_ok request_ptr f m
      in (m1, r, case r of None \<Rightarrow> False | Some sr \<Rightarrow> accepted sr))"

definition http_request_ptr ::
    "bool \<Rightarrow> HttpRequest option \<Rightarrow> cb option \<Rightarrow> HttpRequestManager \<Rightarrow> HttpRequestManager \<times> bool option \<times> bool" where
  "http_request_ptr push_ok request_ptr f m =
     (let (m1, r, n) = submit_http_request push_ok request_ptr f m in (m1, map_option accepted r, n))"

text \<open>Here an exception of the submission leaves the function: the result is \<open>None\<close>.\<close>

definition http_request_future ::
    "bool \<Rightarrow> cb \<Rightarrow> HttpRequest option \<Rightarrow> HttpRequestManager \<Rightarrow> HttpRequestManager \<times> promise_state option \<times> bool" where
  "http_request_future push_ok promise request_ptr m =
     (let (m1, r, n) = submit_http_request push_ok request_ptr (Some promise) m
      in (m1,
          case r of
            None \<Rightarrow> None
          | Some sr \<Rightarrow>
              Some (if \<not> accepted sr then fst (safe_set_response (Some (make_submit_error_response sr)) PromiseUnset)
                    else PromiseUnset),
          n))"

definition new_request :: "string \<Rightarrow> Headers \<Rightarrow> string \<Rightarrow> bool \<Rightarrow> u64 \<Rightarrow> HttpRequest" where
  "new_request method headers content strm i =
     HttpRequest_default\<lparr>request_id := i, rq_method := method, rq_headers := headers, rq_content := content, streaming := strm\<rparr>"

text \<open>The identifier of the request, or 0 when it was refused.\<close>

definition id_if_accepted :: "u64 \<Rightarrow> HttpRequestManager \<times> bool option \<times> bool \<Rightarrow> HttpRequestManager \<times> u64 option \<times> bool" where
  "id_if_accepted i res = (let (m1, ok, n) = res in (m1, map_option (\<lambda>b. if b then i else 0) ok, n))"

definition http_request_url ::
    "(QueryParams \<Rightarrow> string \<Rightarrow> string) \<Rightarrow> bool \<Rightarrow> string \<Rightarrow> string \<Rightarrow> QueryParams \<Rightarrow> Headers \<Rightarrow> string \<Rightarrow> cb option \<Rightarrow>
     HttpRequestManager \<Rightarrow> HttpRequestManager \<times> u64 option \<times> bool" where
  "http_request_url query_string push_ok method url query headers content f m =
     (let (m1, i) = generate_request_id m;
          r = rq_set_url_query query_string url query (new_request method headers content False i)
      in id_if_accepted i (http_request_ptr push_ok (Some r) f m1))"

definition http_request_url_streaming ::
    "(QueryParams \<Rightarrow> string \<Rightarrow> string) \<Rightarrow> bool \<Rightarrow> string \<Rightarrow> string \<Rightarrow> QueryParams \<Rightarrow> Headers \<Rightarrow> string \<Rightarrow> bool \<Rightarrow> cb option \<Rightarrow>
     HttpRequestManager \<Rightarrow> HttpRequestManager \<times> u64 option \<times> bool" where
  "http_request_url_streaming query_string push_ok method url query headers content strm f m =
     (let (m1, i) = generate_request_id m;
          r = rq_set_url_query query_string url query (new_request method headers content strm i)
      in id_if_accepted i (http_request_ptr push_ok (Some r) f m1))"

definition http_request_url_future ::
    "(QueryParams \<Rightarrow> string \<Rightarrow> string) \<Rightarrow> bool \<Rightarrow> cb \<Rightarrow> string \<Rightarrow> string \<Rightarrow> QueryParams \<Rightarrow> Headers \<Rightarrow> string \<Rightarrow>
     HttpRequestManager \<Rightarrow> HttpRequestManager \<times> (u64 \<times> promise_state) option \<times> bool" where
  "http_request_url_future query_string push_ok promise method url query headers content m =
     (let (m1, i) = generate_request_id m;
          r = rq_set_url_query query_string url query (new_request method headers content False i);
          (m2, p, n) = http_request_future push_ok promise (Some r) m1
      in (m2, map_option (Pair i) p, n))"

definition http_request_host ::
    "(QueryParams \<Rightarrow> string \<Rightarrow> string) \<Rightarrow> bool \<Rightarrow> string \<Rightarrow> string \<Rightarrow> string \<Rightarrow> QueryParams \<Rightarrow> Headers \<Rightarrow> string \<Rightarrow> cb option \<Rightarrow>
     HttpRequestManager \<Rightarrow> HttpRequestManager \<times> u64 option \<times> bool" where
  "http_request_host query_string push_ok method host path query headers content f m =
     (let (m1, i) = generate_request_id m;
          r = rq_set_url_path_query query_string host path query (new_request method headers content False i)
      in id_if_accepted i (http_request_ptr push_ok (Some r) f m1))"

definition http_request_host_streaming ::
    "(QueryParams \<Rightarrow> string \<Rightarrow> string) \<Rightarrow> bool \<Rightarrow> string \<Rightarrow> string \<Rightarrow> string \<Rightarrow> QueryParams \<Rightarrow> Headers \<Rightarrow> string \<Rightarrow> bool \<Rightarrow> cb option \<Rightarrow>
     HttpRequestManager \<Rightarrow> HttpRequestManager \<times> u64 option \<times> bool" where
  "http_request_host_streaming query_string push_ok method host path query headers content strm f m =
     (let (m1, i) = generate_request_id m;
          r = rq_set_url_path_query query_string host path query (new_request method headers content strm i)
      in id_if_accepted i (http_request_ptr push_ok (Some r) f m1))"

definition http_get ::
    "(QueryParams \<Rightarrow> string \<Rightarrow> string) \<Rightarrow> bool \<Rightarrow> string \<Rightarrow> QueryParams \<Rightarrow> Headers \<Rightarrow> cb option \<Rightarrow>
     HttpRequestManager \<Rightarrow> HttpRequestManager \<times> u64 option \<times> bool" where
  "http_get query_string push_ok url query headers f =
     http_request_url query_string push_ok ''GET'' url query headers [] f"

definition http_get_streaming ::
    "(QueryParams \<Rightarrow> string \<Rightarrow> string) \<Rightarrow> bool \<Rightarrow> string \<Rightarrow> QueryParams \<Rightarrow> Headers \<Rightarrow> bool \<Rightarrow> cb option \<Rightarrow>
     HttpRequestManager \<Rightarrow> HttpRequestManager \<times> u64 option \<times> bool" where
  "http_get_streaming query_string push_ok url query headers strm f =
     http_request_url_streaming query_string push_ok ''GET'' url query headers [] strm f"

definition http_get_future ::
    "(QueryParams \<Rightarrow> string \<Rightarrow> string) \<Rightarrow> bool \<Rightarrow> cb \<Rightarrow> string \<Rightarrow> QueryParams \<Rightarrow> Headers \<Rightarrow>
     HttpRequestManager \<Rightarrow> HttpRequestManager \<times> (u64 \<times> promise_state) option \<times> bool" where
  "http_get_future query_string push_ok promise url query headers m =
     (let (m1, i) = generate_request_id m;
          r = rq_set_url_query query_string url query (new_request ''GET'' headers [] False i);
          (m2, p, n) = http_request_future push_ok promise (Some r) m1
      in (m2, map_option (Pair i) p, n))"

definition http_post ::
    "(QueryParams \<Rightarrow> string \<Rightarrow> string) \<Rightarrow> bool \<Rightarrow> string \<Rightarrow> QueryParams \<Rightarrow> Headers \<Rightarrow> string \<Rightarrow> cb option \<Rightarrow>
     HttpRequestManager \<Rightarrow> HttpRequestManager \<times> u64 option \<times> bool" where
  "http_post query_string push_ok url query headers content f =
     http_request_url query_string push_ok ''POST'' url query headers content f"

definition http_post_streaming ::
    "(QueryParams \<Rightarrow> string \<Rightarrow> string) \<Rightarrow> bool \<Rightarrow> string \<Rightarrow> QueryParams \<Rightarrow> Headers \<Rightarrow> string \<Rightarrow> bool \<Rightarrow> cb option \<Rightarrow>
     HttpRequestManager \<Rightarrow> HttpRequestManager \<times> u64 option \<times> bool" where
  "http_post_streaming query_string push_ok url query headers content strm f =
     http_request_url_streaming query_string push_ok ''POST'' url query headers content strm f"

definition http_post_future ::
    "(QueryParams \<Rightarrow> string \<Rightarrow> string) \<Rightarrow> bool \<Rightarrow> cb \<Rightarrow> string \<Rightarrow> QueryParams \<Rightarrow> Headers \<Rightarrow> string \<Rightarrow>
     HttpRequestManager \<Rightarrow> HttpRequestManager \<times> (u64 \<times> promise_state) option \<times> bool" where
  "http_post_future query_string push_ok promise url query headers content m =
     (let (m1, i) = generate_request_id m;
          r = rq_set_url_query query_string url query (new_request ''POST'' headers content False i);
          (m2, p, n) = http_request_future push_ok promise (Some r) m1
      in (m2, map_option (Pair i) p, n))"

end
