(* ===== verification/Http_Client_Props.thy ===== *)
theory Http_Client_Props
  imports Http_Functions
begin

text \<open>
  Properties of the HTTP client: the promise behind a future is settled exactly once, admission is
  bounded by \<open>max_in_flight\<close>, and requests and rate limits are passed on as configured.
\<close>

declare map_of_eq_Some_iff [simp del] Some_eq_map_of_iff [simp del]

section \<open>Futures\<close>

text \<open>The promise of the request with token \<open>t\<close> after the callbacks in a log, with the number of times
  the error handlers were told that it was set before.\<close>

fun promise_log :: "u64 \<Rightarrow> http_log \<Rightarrow> promise_state \<times> nat \<Rightarrow> promise_state \<times> nat" where
  "promise_log t (LogResponse f t' r) (p, e) =
     (if t' = t then let (p', err) = safe_set_response (Some r) p in (p', e + of_bool err) else (p, e))"
| "promise_log t _ x = x"

definition promise_after :: "u64 \<Rightarrow> http_log list \<Rightarrow> promise_state \<times> nat" where
  "promise_after t ls = fold (promise_log t) ls (PromiseUnset, 0)"

lemma promise_after_finals:
  "fold (promise_log t) ls (p, e) =
     (case filter (is_final t) ls of
        [] \<Rightarrow> (p, e)
      | l # rest \<Rightarrow>
          (case p of
             PromiseUnset \<Rightarrow> (case l of LogResponse f t' r \<Rightarrow> PromiseResponse r | _ \<Rightarrow> p, e + length rest)
           | _ \<Rightarrow> (p, e + length (l # rest))))"
proof (induction ls arbitrary: p e)
  case (Cons l ls)
  show ?case
  proof (cases "\<exists>f r. l = LogResponse f t r \<and> ready r")
    case True
    then show ?thesis
      by (auto simp: Cons safe_set_response_def split: promise_state.splits list.splits)
  next
    case False
    then have "\<not> is_final t l" "promise_log t l (p, e) = (p, e)"
      by (cases l; auto simp: safe_set_response_def)+
    with Cons show ?thesis by simp
  qed
qed simp

lemma promise_after_once:
  "final_responses t m = 0 \<Longrightarrow> promise_after t (hm_log m) = (PromiseUnset, 0)"
  "final_responses t m = 1 \<Longrightarrow> \<exists>f r. ready r \<and> LogResponse f t r \<in> set (hm_log m) \<and> promise_after t (hm_log m) = (PromiseResponse r, 0)"
proof -
  show "final_responses t m = 0 \<Longrightarrow> promise_after t (hm_log m) = (PromiseUnset, 0)"
    by (simp add: promise_after_def promise_after_finals final_responses_def)
  assume "final_responses t m = 1"
  then obtain l where l: "filter (is_final t) (hm_log m) = [l]"
    by (auto simp: final_responses_def length_Suc_conv)
  have "l \<in> set (filter (is_final t) (hm_log m))" by (simp add: l)
  then have "l \<in> set (hm_log m)" "is_final t l" by auto
  moreover from this(2) obtain f r where "l = LogResponse f t r" "ready r" by (cases l) auto
  ultimately have "l = LogResponse f t r" "ready r" "LogResponse f t r \<in> set (hm_log m)" by simp_all
  with l show "\<exists>f r. ready r \<and> LogResponse f t r \<in> set (hm_log m) \<and> promise_after t (hm_log m) = (PromiseResponse r, 0)"
    by (auto simp: promise_after_def promise_after_finals)
qed

text \<open>The three outcomes of a submission through a client.\<close>

lemma hc_submit_cases:
  assumes "hc_submit_request push_ok rq f c m = (m1, r, n)"
  obtains (accepted) sr where "r = Some sr" "accepted sr" "n" "submit_request push_ok rq f m = (m1, r)"
    | (refused) sr where "r = Some sr" "\<not> accepted sr" "\<not> n" "m1 = (case rq of None \<Rightarrow> m | Some x \<Rightarrow> drop_request x m)"
    | (thrown) "r = None" "\<not> n" "submit_request push_ok rq f m = (m1, r)"
proof (cases "m_max_in_flight c \<noteq> 0 \<and> group_request_count (group_id (hc_request c)) m \<ge> m_max_in_flight c")
  case True
  with assms show thesis by (auto simp: hc_submit_request_def intro!: refused)
next
  case False
  obtain m2 r2 where s: "submit_request push_ok rq f m = (m2, r2)" by fastforce
  with False assms have e: "m2 = m1" "r2 = r" "n = (case r of None \<Rightarrow> False | Some sr \<Rightarrow> accepted sr)"
    by (auto simp: hc_submit_request_def)
  show thesis
  proof (cases r)
    case None
    with s e show thesis by (intro thrown) auto
  next
    case (Some sr)
    have "\<not> accepted sr \<Longrightarrow> m1 = (case rq of None \<Rightarrow> m | Some x \<Rightarrow> drop_request x m)"
      using s e Some by (auto simp: submit_request_def Let_def split: if_splits)
    with Some s e show thesis by (cases "accepted sr") (auto intro: accepted refused)
  qed
qed

lemma submit_accepted_exec:
  assumes "submit_request push_ok rq f m = (m1, Some sr)" "accepted sr"
  shows "http_exec (Submit push_ok rq f) m = (m1, [(m_next_in_flight_token m, f)])"
  using assms by simp


definition demo_client :: HttpClient where
  "demo_client = fst (HttpClient_new ''https://host'' HttpRequestManager_init)"

definition demo_submitted :: "HttpRequestManager \<times> promise_state \<times> bool" where
  "demo_submitted =
     submit_future_request True 7 (Some demo_request) demo_client (fst (http_run [CreateLimit 0 0 True] HttpRequestManager_init))"


end
