(* ===== verification/Web_Socket_Rate_Limiter.thy ===== *)
theory Web_Socket_Rate_Limiter
  imports Web_Socket_Config Fixed_Window
begin

text \<open>
  \<^verbatim>\<open>websocket/client/BaseWebSocketClient/WebSocketRateLimiter.hpp\<close>: the limiter of outgoing WebSocket
  messages, a vector of fixed windows of which the first applies to every message. Each of
  \<open>check_limit\<close> and \<open>update_limit\<close> reads the clock itself; \<open>allow_request\<close> receives the up to four
  readings of one call in order. \<open>set_limit\<close> reads the clock once per limit.
\<close>

record WsLimitData =
  wl_requests_per_period :: int
  wl_period_ms :: int
  wl_count :: int
  wl_start_time :: time_point

type_synonym WebSocketRateLimiter = "WsLimitData list"

definition WsLimitData_default :: "time_point \<Rightarrow> WsLimitData" where
  "WsLimitData_default now =
     \<lparr>wl_requests_per_period = 0, wl_period_ms = 0, wl_count = 0, wl_start_time = now\<rparr>"

definition ws_resize :: "nat \<Rightarrow> WsLimitData \<Rightarrow> WebSocketRateLimiter \<Rightarrow> WebSocketRateLimiter" where
  "ws_resize n d m = take n m @ replicate (n - length m) d"

definition set_limit :: "RateLimitData list \<Rightarrow> time_point \<Rightarrow> WebSocketRateLimiter \<Rightarrow> WebSocketRateLimiter" where
  "set_limit limits now m =
     map2 (\<lambda>r d. d\<lparr>wl_requests_per_period := rld_requests_per_period r,
                   wl_period_ms := rld_period_ms r, wl_start_time := now\<rparr>)
       limits (ws_resize (length limits) (WsLimitData_default now) m)"

definition check_limit :: "time_point \<Rightarrow> WsLimitData \<Rightarrow> bool" where
  "check_limit now d =
     (if duration_ms (now - wl_start_time d) \<ge> wl_period_ms d then True
      else if wl_count d < wl_requests_per_period d \<or> wl_requests_per_period d = 0 then True
      else False)"

definition update_limit :: "time_point \<Rightarrow> WsLimitData \<Rightarrow> WsLimitData" where
  "update_limit now d =
     (let d1 = (if duration_ms (now - wl_start_time d) \<ge> wl_period_ms d
                then d\<lparr>wl_start_time := now, wl_count := 0\<rparr> else d)
      in d1\<lparr>wl_count := wl_count d1 + 1\<rparr>)"

record ws_clock =
  t_check0 :: time_point
  t_check :: time_point
  t_update0 :: time_point
  t_update :: time_point

definition ws_allow_request :: "int \<Rightarrow> ws_clock \<Rightarrow> WebSocketRateLimiter \<Rightarrow> WebSocketRateLimiter \<times> bool" where
  "ws_allow_request rate_limit_id t m =
     (if rate_limit_id < 0 then (m, True)
      else if rate_limit_id \<ge> int (length m) then (m, True)
      else
        let i = nat rate_limit_id;
            general_limit_allowed = check_limit (t_check0 t) (m ! 0);
            specific_limit_allowed = (rate_limit_id = 0 \<or> check_limit (t_check t) (m ! i))
        in if general_limit_allowed \<and> specific_limit_allowed
           then
             let m1 = m[0 := update_limit (t_update0 t) (m ! 0)];
                 m2 = (if rate_limit_id \<noteq> 0 then m1[i := update_limit (t_update t) (m1 ! i)] else m1)
             in (m2, True)
           else (m, False))"

section \<open>Basic facts\<close>

lemma length_set_limit [simp]: "length (set_limit limits now m) = length limits"
  by (simp add: set_limit_def ws_resize_def)

lemma nth_set_limit_fresh:
  "i < length limits \<Longrightarrow> set_limit limits now [] ! i =
     \<lparr>wl_requests_per_period = rld_requests_per_period (limits ! i), wl_period_ms = rld_period_ms (limits ! i),
      wl_count = 0, wl_start_time = now\<rparr>"
  by (simp add: set_limit_def ws_resize_def WsLimitData_default_def)

lemma update_limit_params [simp]:
  "wl_requests_per_period (update_limit now d) = wl_requests_per_period d"
  "wl_period_ms (update_limit now d) = wl_period_ms d"
  by (simp_all add: update_limit_def Let_def)

lemma length_ws_allow_request [simp]: "length (fst (ws_allow_request i t m)) = length m"
  by (simp add: ws_allow_request_def Let_def)

text \<open>Which limits a request is charged to, and the clock reading each is updated with.\<close>

definition ws_charged :: "nat \<Rightarrow> int \<Rightarrow> WebSocketRateLimiter \<Rightarrow> bool" where
  "ws_charged i rid m = (0 \<le> rid \<and> rid < int (length m) \<and> (i = 0 \<or> rid = int i))"

definition ws_update_time :: "nat \<Rightarrow> ws_clock \<Rightarrow> time_point" where
  "ws_update_time i t = (if i = 0 then t_update0 t else t_update t)"

definition ws_check_time :: "nat \<Rightarrow> ws_clock \<Rightarrow> time_point" where
  "ws_check_time i t = (if i = 0 then t_check0 t else t_check t)"

lemma ws_allow_request_frame:
  assumes "i < length m" "ws_allow_request rid t m = (m', ok)" "\<not> (ok \<and> ws_charged i rid m)"
  shows "m' ! i = m ! i"
  using assms by (auto simp: ws_allow_request_def ws_charged_def Let_def nth_list_update split: if_splits)

lemma ws_allow_request_admit:
  assumes "i < length m" "ws_allow_request rid t m = (m', True)" "ws_charged i rid m"
  shows "check_limit (ws_check_time i t) (m ! i) \<and> m' ! i = update_limit (ws_update_time i t) (m ! i)"
  using assms
  by (auto simp: ws_allow_request_def ws_charged_def ws_check_time_def ws_update_time_def Let_def
      nth_list_update split: if_splits)

section \<open>The contract of a fixed window\<close>

definition ws_params :: "nat \<Rightarrow> nat \<Rightarrow> WsLimitData \<Rightarrow> WsLimitData" where
  "ws_params n p d = d\<lparr>wl_requests_per_period := 1 + int n, wl_period_ms := 1 + int p\<rparr>"

lemma ws_params_eq_iff:
  "ws_params n p d = d \<longleftrightarrow> wl_requests_per_period d = 1 + int n \<and> wl_period_ms d = 1 + int p"
  by (cases d) (auto simp: ws_params_def)

interpretation ws_window: fixed_window
  "\<lambda>now d. check_limit now (ws_params n p d)" "\<lambda>now d. update_limit now (ws_params n p d)"
  wl_start_time wl_count "(1 + int p) * ns_per_ms" "1 + int n" for n p
proof unfold_locales
  show "0 < (1 + int p) * ns_per_ms" by (simp add: ns_per_ms_def)
next
  have E: "1 + int p \<le> duration_ms d \<longleftrightarrow> (1 + int p) * ns_per_ms \<le> d" for d
    by (rule duration_ms_ge_iff) simp
  fix now :: int and s :: WsLimitData
  show "check_limit now (ws_params n p s) \<Longrightarrow>
      wl_start_time s + (1 + int p) * ns_per_ms \<le> now \<or> wl_count s < 1 + int n"
    by (auto simp: check_limit_def ws_params_def E split: if_splits)
  show "wl_start_time s + (1 + int p) * ns_per_ms \<le> now \<Longrightarrow>
      wl_start_time (update_limit now (ws_params n p s)) = now \<and>
      wl_count (update_limit now (ws_params n p s)) = 1"
    by (simp add: update_limit_def ws_params_def E)
  show "now < wl_start_time s + (1 + int p) * ns_per_ms \<Longrightarrow>
      wl_start_time (update_limit now (ws_params n p s)) = wl_start_time s \<and>
      wl_count (update_limit now (ws_params n p s)) = wl_count s + 1"
    by (simp add: update_limit_def ws_params_def E)
qed simp

section \<open>Sequences of requests\<close>

fun ws_clock_ok :: "time_point \<Rightarrow> (int \<times> ws_clock) list \<Rightarrow> bool" where
  "ws_clock_ok now [] = True"
| "ws_clock_ok now ((_, t) # xs) =
     (now \<le> t_check0 t \<and> t_check0 t \<le> t_check t \<and> t_check t \<le> t_update0 t \<and>
      t_update0 t \<le> t_update t \<and> ws_clock_ok (t_update t) xs)"

fun ws_admitted :: "nat \<Rightarrow> (int \<times> ws_clock) list \<Rightarrow> WebSocketRateLimiter \<Rightarrow> time_point list" where
  "ws_admitted i [] m = []"
| "ws_admitted i ((rid, t) # xs) m =
     (let (m', ok) = ws_allow_request rid t m
      in (if ok \<and> ws_charged i rid m then [ws_update_time i t] else []) @ ws_admitted i xs m')"

lemma ws_window_run:
  assumes "i < length m" "ws_params n p (m ! i) = m ! i"
    and "ws_window.window_run n p now adm (m ! i)" "ws_clock_ok now xs"
  shows "\<exists>t s. ws_window.window_run n p t (rev (ws_admitted i xs m) @ adm) s"
  using assms
proof (induction xs arbitrary: m now adm)
  case (Cons x xs)
  obtain rid t where x: "x = (rid, t)" by (cases x)
  obtain m' ok where a: "ws_allow_request rid t m = (m', ok)" by fastforce
  have len: "i < length m'" using Cons.prems(1) length_ws_allow_request [of rid t m] a by simp
  have clk: "now \<le> ws_check_time i t" "ws_check_time i t \<le> ws_update_time i t" "ws_update_time i t \<le> t_update t"
    "now \<le> t_update t" "ws_clock_ok (t_update t) xs"
    using Cons.prems(4) by (auto simp: x ws_check_time_def ws_update_time_def)
  show ?case
  proof (cases "ok \<and> ws_charged i rid m")
    case True
    have adm: "check_limit (ws_check_time i t) (m ! i)" "m' ! i = update_limit (ws_update_time i t) (m ! i)"
      using ws_allow_request_admit [OF Cons.prems(1), of rid t m'] a True by simp_all
    have par: "ws_params n p (m' ! i) = m' ! i"
      using Cons.prems(2) by (simp add: ws_params_eq_iff adm(2))
    have "ws_window.window_run n p (ws_update_time i t) (ws_update_time i t # adm)
        (update_limit (ws_update_time i t) (ws_params n p (m ! i)))"
      by (rule ws_window.admit [OF Cons.prems(3) clk(1,2)]) (simp add: adm(1) Cons.prems(2))
    then have "ws_window.window_run n p (t_update t) (ws_update_time i t # adm) (m' ! i)"
      using clk(3) by (simp add: adm(2) Cons.prems(2) ws_window.wait)
    from Cons.IH [OF len par this clk(5)] show ?thesis using a True by (simp add: x)
  next
    case False
    have st: "m' ! i = m ! i" by (rule ws_allow_request_frame [OF Cons.prems(1) a False])
    have "ws_window.window_run n p (t_update t) adm (m' ! i)"
      unfolding st by (rule ws_window.wait [OF Cons.prems(3) clk(4)])
    from Cons.IH [OF len _ this clk(5)] show ?thesis using a False Cons.prems(2) st by (auto simp: x)
  qed
qed auto

section \<open>Guarantees\<close>

text \<open>
  C32: the WebSocket limiter obeys its limits. After \<^verbatim>\<open>set_limit\<close> on a new client, whatever the
  sequence of requests, the messages charged to a limit of \<open>rpp\<close> requests per period that are let
  through in any interval of one period are at most twice \<open>rpp\<close>. The first limit is charged for
  every message with a valid limit id.
\<close>

theorem ws_rate_limit_window:
  assumes "i < length limits" "limits ! i = \<lparr>rld_requests_per_period = rpp, rld_period_ms = per\<rparr>"
    and "0 < rpp" "0 < per" "ws_clock_ok now xs"
  shows "int (length (filter (\<lambda>h. a \<le> h \<and> h < a + per * ns_per_ms)
           (ws_admitted i xs (set_limit limits now [])))) \<le> 2 * rpp"
proof -
  define n p where "n = nat (rpp - 1)" and "p = nat (per - 1)"
  then have np: "rpp = 1 + int n" "per = 1 + int p" using assms(3,4) by auto
  let ?m = "set_limit limits now []"
  have mi: "?m ! i = \<lparr>wl_requests_per_period = rpp, wl_period_ms = per, wl_count = 0, wl_start_time = now\<rparr>"
    using nth_set_limit_fresh [OF assms(1), of now] assms(2) by simp
  have "ws_window.window_run n p now [] (?m ! i)"
    by (rule ws_window.begin_run) (simp_all add: mi)
  from ws_window_run [OF _ _ this assms(5)] assms(1)
  obtain t s where "ws_window.window_run n p t (rev (ws_admitted i xs ?m)) s"
    by (auto simp: mi ws_params_def np)
  from ws_window.admitted_in_interval [OF this, of a] show ?thesis
    by (simp add: np rev_filter [symmetric])
qed

definition wit_ws_clock :: "int \<Rightarrow> ws_clock" where
  "wit_ws_clock t = \<lparr>t_check0 = t, t_check = t, t_update0 = t + 1, t_update = t + 2\<rparr>"

definition wit_ws_limits :: "RateLimitData list" where
  "wit_ws_limits = [\<lparr>rld_requests_per_period = 5, rld_period_ms = 1000\<rparr>,
                    \<lparr>rld_requests_per_period = 1, rld_period_ms = 1000\<rparr>]"

theorem ws_rate_limit_window_witness:
  "ws_admitted 1 [(1, wit_ws_clock 10), (1, wit_ws_clock 20), (1, wit_ws_clock 1000000010)]
     (set_limit wit_ws_limits 5 []) = [12, 1000000012] \<and>
   int (length (filter (\<lambda>h. 0 \<le> h \<and> h < 0 + 1000 * ns_per_ms)
     (ws_admitted 1 [(1, wit_ws_clock 10), (1, wit_ws_clock 20), (1, wit_ws_clock 1000000010)]
        (set_limit wit_ws_limits 5 [])))) \<le> 2 * 1"
proof
  show "int (length (filter (\<lambda>h. 0 \<le> h \<and> h < 0 + 1000 * ns_per_ms)
     (ws_admitted 1 [(1, wit_ws_clock 10), (1, wit_ws_clock 20), (1, wit_ws_clock 1000000010)]
        (set_limit wit_ws_limits 5 [])))) \<le> 2 * 1"
    by (rule ws_rate_limit_window) (simp_all add: wit_ws_limits_def wit_ws_clock_def)
qed code_simp

text \<open>
  A refused message takes nothing from any limit, and a message with a negative id or one
  beyond the configured limits always passes and is charged to none.
\<close>

theorem ws_refusal_unchanged:
  "case ws_allow_request rid t m of (m', ok) \<Rightarrow>
     (ok \<or> m' = m) \<and> ((rid < 0 \<or> int (length m) \<le> rid) = (\<not> ws_charged 0 rid m)) \<and>
     (ws_charged 0 rid m \<or> (ok \<and> m' = m))"
  by (auto simp: ws_allow_request_def ws_charged_def Let_def)

end
