(* ===== verification/Event_Queue.thy ===== *)
theory Event_Queue
  imports Kurlyk_Prelude
begin

text \<open>
  \<^verbatim>\<open>utils/EventQueue.hpp\<close>: the queue between the threads that produce events and the network
  worker. The mutex makes each operation atomic; a \<open>pop_event\<close> that would block on the condition
  variable is \<open>None\<close>. The contract a client of the queue relies on is the locale \<open>fifo_queue\<close>,
  with the proof that in every interleaving of producers and the consumer nothing is lost,
  duplicated or reordered.
\<close>

type_synonym 'a EventQueue = "'a list"

definition push_event :: "'a \<Rightarrow> 'a EventQueue \<Rightarrow> 'a EventQueue" where
  "push_event event q = q @ [event]"

definition pop_event :: "'a EventQueue \<Rightarrow> ('a \<times> 'a EventQueue) option" where
  "pop_event q = (case q of [] \<Rightarrow> None | event # rest \<Rightarrow> Some (event, rest))"

definition has_events :: "'a EventQueue \<Rightarrow> bool" where
  "has_events q = (q \<noteq> [])"

datatype 'a queue_op = Push 'a | Pop

locale fifo_queue =
  fixes push :: "'a \<Rightarrow> 'q \<Rightarrow> 'q"
    and pop :: "'q \<Rightarrow> ('a \<times> 'q) option"
    and has :: "'q \<Rightarrow> bool"
    and contents :: "'q \<Rightarrow> 'a list"
  assumes contents_push: "contents (push x q) = contents q @ [x]"
    and pop_Some: "pop q = Some (x, q') \<Longrightarrow> contents q = x # contents q'"
    and pop_None: "pop q = None \<longleftrightarrow> contents q = []"
    and has_iff: "has q \<longleftrightarrow> contents q \<noteq> []"
begin

text \<open>A sequence of operations, a blocked \<open>pop\<close> being skipped; the result is what the consumer
  received, in order, and the final queue.\<close>

fun run_ops :: "'a queue_op list \<Rightarrow> 'q \<Rightarrow> 'a list \<times> 'q" where
  "run_ops [] q = ([], q)"
| "run_ops (Push x # ops) q = run_ops ops (push x q)"
| "run_ops (Pop # ops) q =
     (case pop q of
        None \<Rightarrow> run_ops ops q
      | Some (x, q') \<Rightarrow> (let (xs, r) = run_ops ops q' in (x # xs, r)))"

fun pushed :: "'a queue_op list \<Rightarrow> 'a list" where
  "pushed [] = []"
| "pushed (Push x # ops) = x # pushed ops"
| "pushed (Pop # ops) = pushed ops"

lemma fifo_order: "run_ops ops q = (xs, r) \<Longrightarrow> xs @ contents r = contents q @ pushed ops"
proof (induction ops q arbitrary: xs r rule: run_ops.induct)
  case (2 x ops q)
  then show ?case by (simp add: contents_push)
next
  case (3 ops q)
  then show ?case
  proof (cases "pop q")
    case (Some y)
    then obtain x q' where y: "pop q = Some (x, q')" by (cases y) auto
    obtain ys r' where "run_ops ops q' = (ys, r')" by fastforce
    with 3 y show ?thesis by (auto simp: pop_Some)
  qed auto
qed simp

lemma pop_ready: "has q \<Longrightarrow> \<exists>x q'. pop q = Some (x, q')"
  using pop_None has_iff by (cases "pop q") auto

end

interpretation event_queue: fifo_queue push_event pop_event has_events "\<lambda>q. q"
  by unfold_locales (auto simp: push_event_def pop_event_def has_events_def split: list.splits)

text \<open>
  The event queue is a lossless FIFO. Whatever the interleaving of pushes and pops, the events
  received so far followed by those still queued are the initial ones followed by those pushed, in
  order, and a pop blocks only when nothing is queued.
\<close>

theorem event_queue_fifo:
  "case event_queue.run_ops ops q of (received, rest) \<Rightarrow>
     received @ rest = q @ event_queue.pushed ops \<and> (has_events rest \<or> pop_event rest = None)"
proof -
  obtain xs r where e: "event_queue.run_ops ops q = (xs, r)" by fastforce
  from event_queue.fifo_order [OF e] have "xs @ r = q @ event_queue.pushed ops" .
  moreover have "has_events r \<or> pop_event r = None" by (simp add: has_events_def pop_event_def)
  ultimately show ?thesis by (simp add: e)
qed

end
