(* ===== verification/Web_Socket_Client.thy ===== *)
theory Web_Socket_Client
  imports Web_Socket_Rate_Limiter Event_Queue
begin

text \<open>
  \<^verbatim>\<open>websocket/client/BaseWebSocketClient.hpp\<close>: the WebSocket client without its transport. Each
  \<open>process_state_*\<close> handler is one definition, with every branch of its \<open>switch\<close>.

  What the code does to the outside is recorded in order in the field \<open>ws_log\<close>: calls of the
  virtual functions of the transport, of the user's event handler and of the completion callbacks.
  The arguments \<open>env\<close> are what one call of \<open>process\<close> reads from the outside: the result of
  \<open>init_websocket\<close> (a virtual function of the transport adapter, here any function of the client's
  state), the readings of the clock, and the events other threads push before it. A dereference of
  a null configuration, undefined behaviour in C++, sets \<open>null_deref\<close>.

  Member functions a user callback can call on the client only append to its queues; such calls are
  operations of their own here, made between two calls of \<open>process\<close>.
\<close>

section \<open>Data\<close>

record WebSocketEventData =
  event_type :: WebSocketEventType
  ev_message :: string
  ev_status_code :: int
  ev_error_code :: error_code

datatype FsmState = INIT | CONNECTING | WORKING | RECONNECTING | STOPPED

datatype FsmEvent =
    RequestConnect | RequestDisconnect | ConnectionOpened | ConnectionClosed | ConnectionError
  | MessageReceived | UpdateConfig

record FSMEventData =
  fe_type :: FsmEvent
  fe_event_data :: "WebSocketEventData option"
  fe_config_data :: "WebSocketConfig option"
  fe_callback :: "cb option"

datatype ws_action =
    ActInit bool
  | ActDeinit
  | ActEvent "WebSocketEventData option"
  | ActQueued "WebSocketEventData option"
  | ActCallback cb bool
  | ActNotify
  | ActSend WebSocketSendInfo
  | ActSendClose WebSocketSendInfo
  | ActSendCallback error_code cb
  | ActBadFunctionCall

record BaseWebSocketClient =
  m_config :: "WebSocketConfig option"
  m_fsm_state :: FsmState
  m_on_event :: bool
  m_fsm_event_queue :: "FSMEventData EventQueue"
  m_reconnect_attempt :: int
  m_is_running :: bool
  m_is_connected :: bool
  m_max_send_queue_size :: nat
  m_rate_limiter :: WebSocketRateLimiter
  m_close_time :: time_point
  m_event_queue :: "WebSocketEventData option list"
  m_message_queue :: "WebSocketSendInfo list"
  m_send_callback_queue :: "(error_code \<times> cb option) list"
  ws_log :: "ws_action list"
  null_deref :: bool

record ws_env =
  init_websocket_ok :: "BaseWebSocketClient \<Rightarrow> bool"
  now_set_limit :: time_point
  now_fsm :: time_point
  now_message :: "nat \<Rightarrow> ws_clock"
  arrivals :: "FSMEventData list"

definition BaseWebSocketClient_init :: BaseWebSocketClient where
  "BaseWebSocketClient_init =
     \<lparr>m_config = None, m_fsm_state = INIT, m_on_event = False, m_fsm_event_queue = [],
      m_reconnect_attempt = 0, m_is_running = False, m_is_connected = False,
      m_max_send_queue_size = 0, m_rate_limiter = [], m_close_time = 0, m_event_queue = [],
      m_message_queue = [], m_send_callback_queue = [], ws_log = [], null_deref = False\<rparr>"

definition log_act :: "ws_action \<Rightarrow> BaseWebSocketClient \<Rightarrow> BaseWebSocketClient" where
  "log_act a s = s\<lparr>ws_log := ws_log s @ [a]\<rparr>"

section \<open>Events\<close>

definition create_websocket_event :: WebSocketEventData where
  "create_websocket_event =
     \<lparr>event_type = WS_OPEN, ev_message = [], ev_status_code = 0, ev_error_code = no_error\<rparr>"

definition create_websocket_close_event :: "string \<Rightarrow> int \<Rightarrow> WebSocketEventData" where
  "create_websocket_close_event reason status_code =
     create_websocket_event\<lparr>event_type := WS_CLOSE, ev_message := reason, ev_status_code := status_code\<rparr>"

definition create_websocket_error_event :: "error_code \<Rightarrow> WebSocketEventData" where
  "create_websocket_error_event ec =
     create_websocket_event\<lparr>event_type := WS_ERROR, ev_error_code := ec\<rparr>"

definition deliver_event :: "WebSocketEventData option \<Rightarrow> BaseWebSocketClient \<Rightarrow> BaseWebSocketClient" where
  "deliver_event event s =
     (if m_on_event s then log_act (ActEvent event) s
      else log_act (ActQueued event) (s\<lparr>m_event_queue := m_event_queue s @ [event]\<rparr>))"

definition handle_open_event :: "WebSocketEventData option \<Rightarrow> BaseWebSocketClient \<Rightarrow> BaseWebSocketClient" where
  "handle_open_event event s =
     (if \<not> m_is_connected s then deliver_event event (s\<lparr>m_is_connected := True\<rparr>) else s)"

definition handle_close_event :: "WebSocketEventData option \<Rightarrow> BaseWebSocketClient \<Rightarrow> BaseWebSocketClient" where
  "handle_close_event event s =
     (let event1 = (case event of
                      None \<Rightarrow> Some (create_websocket_close_event ''Normal Closure'' 1000)
                    | Some e \<Rightarrow> Some e)
      in if m_is_connected s then deliver_event event1 (s\<lparr>m_is_connected := False\<rparr>) else s)"

definition handle_error_event :: "WebSocketEventData option \<Rightarrow> BaseWebSocketClient \<Rightarrow> BaseWebSocketClient" where
  "handle_error_event event s = deliver_event event s"

definition handle_error_code :: "error_code \<Rightarrow> BaseWebSocketClient \<Rightarrow> BaseWebSocketClient" where
  "handle_error_code ec s = handle_error_event (Some (create_websocket_error_event ec)) s"

definition handle_message_event :: "WebSocketEventData option \<Rightarrow> BaseWebSocketClient \<Rightarrow> BaseWebSocketClient" where
  "handle_message_event event s = deliver_event event s"

definition receive_events :: "BaseWebSocketClient \<Rightarrow> BaseWebSocketClient \<times> WebSocketEventData option list" where
  "receive_events s = (s\<lparr>m_event_queue := []\<rparr>, m_event_queue s)"

definition receive_event :: "BaseWebSocketClient \<Rightarrow> BaseWebSocketClient \<times> WebSocketEventData option" where
  "receive_event s =
     (case m_event_queue s of
        [] \<Rightarrow> (s, None)
      | event # rest \<Rightarrow> (s\<lparr>m_event_queue := rest\<rparr>, event))"

section \<open>Requests\<close>

definition push_fsm_event :: "FSMEventData \<Rightarrow> BaseWebSocketClient \<Rightarrow> BaseWebSocketClient" where
  "push_fsm_event e s = s\<lparr>m_fsm_event_queue := push_event e (m_fsm_event_queue s)\<rparr>"

definition fsm_request :: "FsmEvent \<Rightarrow> WebSocketConfig option \<Rightarrow> cb option \<Rightarrow> FSMEventData" where
  "fsm_request t config callback =
     \<lparr>fe_type = t, fe_event_data = None, fe_config_data = config, fe_callback = callback\<rparr>"

definition set_config :: "WebSocketConfig option \<Rightarrow> cb option \<Rightarrow> BaseWebSocketClient \<Rightarrow> BaseWebSocketClient" where
  "set_config config callback s = push_fsm_event (fsm_request UpdateConfig config callback) s"

definition ws_connect :: "cb option \<Rightarrow> BaseWebSocketClient \<Rightarrow> BaseWebSocketClient" where
  "ws_connect callback s = push_fsm_event (fsm_request RequestConnect None callback) s"

definition ws_disconnect :: "cb option \<Rightarrow> BaseWebSocketClient \<Rightarrow> BaseWebSocketClient" where
  "ws_disconnect callback s = push_fsm_event (fsm_request RequestDisconnect None callback) s"

definition add_fsm_event ::
    "FsmEvent \<Rightarrow> WebSocketEventData option \<Rightarrow> BaseWebSocketClient \<Rightarrow> BaseWebSocketClient" where
  "add_fsm_event t data s =
     log_act ActNotify (push_fsm_event
       \<lparr>fe_type = t, fe_event_data = data, fe_config_data = None, fe_callback = None\<rparr> s)"

definition add_send_callback :: "error_code \<Rightarrow> cb option \<Rightarrow> BaseWebSocketClient \<Rightarrow> BaseWebSocketClient" where
  "add_send_callback ec callback s =
     s\<lparr>m_send_callback_queue := m_send_callback_queue s @ [(ec, callback)]\<rparr>"

definition is_connected :: "BaseWebSocketClient \<Rightarrow> bool" where
  "is_connected s = m_is_connected s"

definition ws_is_running :: "BaseWebSocketClient \<Rightarrow> bool" where
  "ws_is_running s = (m_is_running s \<or> has_events (m_fsm_event_queue s))"

definition submit_message ::
    "string \<Rightarrow> int \<Rightarrow> cb option \<Rightarrow> BaseWebSocketClient \<Rightarrow> BaseWebSocketClient \<times> SubmitResult" where
  "submit_message message rate_limit_id callback s =
     (if message = [] then (s, submit_result False (client_error InvalidConfiguration))
      else if \<not> is_connected s then (s, submit_result False (client_error NotConnected))
      else
        let queue_limit = m_max_send_queue_size s
        in if queue_limit \<noteq> 0 \<and> length (m_message_queue s) \<ge> queue_limit
           then (s, submit_result False (client_error QueueLimitExceeded))
           else (s\<lparr>m_message_queue := m_message_queue s @
                    [\<lparr>si_message = message, si_rate_limit_id = rate_limit_id, is_send_close = False,
                      si_status = 0, si_callback = callback\<rparr>]\<rparr>,
                 submit_result True no_error))"

definition send_message ::
    "string \<Rightarrow> int \<Rightarrow> cb option \<Rightarrow> BaseWebSocketClient \<Rightarrow> BaseWebSocketClient \<times> bool" where
  "send_message message rate_limit_id callback s =
     (let (s', r) = submit_message message rate_limit_id callback s in (s', accepted r))"

definition submit_close ::
    "int \<Rightarrow> string \<Rightarrow> cb option \<Rightarrow> BaseWebSocketClient \<Rightarrow> BaseWebSocketClient \<times> SubmitResult" where
  "submit_close status reason callback s =
     (if \<not> is_connected s then (s, submit_result False (client_error NotConnected))
      else
        let queue_limit = m_max_send_queue_size s
        in if queue_limit \<noteq> 0 \<and> length (m_message_queue s) \<ge> queue_limit
           then (s, submit_result False (client_error QueueLimitExceeded))
           else (s\<lparr>m_message_queue := m_message_queue s @
                    [\<lparr>si_message = reason, si_rate_limit_id = 0, is_send_close = True,
                      si_status = status, si_callback = callback\<rparr>]\<rparr>,
                 submit_result True no_error))"

definition send_close ::
    "int \<Rightarrow> string \<Rightarrow> cb option \<Rightarrow> BaseWebSocketClient \<Rightarrow> BaseWebSocketClient \<times> bool" where
  "send_close status reason callback s =
     (let (s', r) = submit_close status reason callback s in (s', accepted r))"

section \<open>The finite state machine\<close>

definition call_callback :: "FSMEventData \<Rightarrow> bool \<Rightarrow> BaseWebSocketClient \<Rightarrow> BaseWebSocketClient" where
  "call_callback event b s = (case fe_callback event of None \<Rightarrow> s | Some f \<Rightarrow> log_act (ActCallback f b) s)"

definition goto :: "FsmState \<Rightarrow> BaseWebSocketClient \<Rightarrow> BaseWebSocketClient" where
  "goto st s = s\<lparr>m_fsm_state := st\<rparr>"

definition init_websocket :: "ws_env \<Rightarrow> BaseWebSocketClient \<Rightarrow> BaseWebSocketClient \<times> bool" where
  "init_websocket env s = (let ok = init_websocket_ok env s in (log_act (ActInit ok) s, ok))"

definition deinit_websocket :: "BaseWebSocketClient \<Rightarrow> BaseWebSocketClient" where
  "deinit_websocket s = log_act ActDeinit s"

definition apply_config :: "ws_env \<Rightarrow> WebSocketConfig \<Rightarrow> BaseWebSocketClient \<Rightarrow> BaseWebSocketClient" where
  "apply_config env c s =
     s\<lparr>m_rate_limiter := set_limit (rate_limits c) (now_set_limit env) (m_rate_limiter s),
       m_max_send_queue_size := max_send_queue_size c\<rparr>"

definition stop_with_error :: "FSMEventData \<Rightarrow> BaseWebSocketClient \<Rightarrow> BaseWebSocketClient" where
  "stop_with_error event s =
     goto STOPPED (call_callback event False (handle_error_code (client_error InvalidConfiguration) s))"

text \<open>The branch \<open>RequestConnect\<close> of the states INIT and STOPPED.\<close>

definition request_connect :: "ws_env \<Rightarrow> FSMEventData \<Rightarrow> BaseWebSocketClient \<Rightarrow> BaseWebSocketClient" where
  "request_connect env event s =
     (case m_config s of
        None \<Rightarrow> stop_with_error event s
      | Some _ \<Rightarrow>
          let (s1, ok) = init_websocket env s
          in if \<not> ok then stop_with_error event s1
             else goto CONNECTING (call_callback event True (s1\<lparr>m_is_running := True\<rparr>)))"

text \<open>What the branches \<open>UpdateConfig\<close> of all states but INIT have in common.\<close>

definition update_config :: "ws_env \<Rightarrow> FSMEventData \<Rightarrow> BaseWebSocketClient \<Rightarrow> BaseWebSocketClient" where
  "update_config env event s =
     (let s1 = s\<lparr>m_config := fe_config_data event\<rparr>
      in case m_config s1 of
           None \<Rightarrow> stop_with_error event s1
         | Some c \<Rightarrow>
             let s2 = (apply_config env c s1)\<lparr>m_reconnect_attempt := 0\<rparr>;
                 (s3, ok) = init_websocket env s2
             in if \<not> ok then stop_with_error event s3
                else goto CONNECTING (call_callback event True (s3\<lparr>m_is_running := True\<rparr>)))"

text \<open>The branches \<open>ConnectionError\<close>, which falls through, and \<open>ConnectionClosed\<close> of the states
  CONNECTING and WORKING.\<close>

definition connection_lost :: "ws_env \<Rightarrow> FSMEventData \<Rightarrow> BaseWebSocketClient \<Rightarrow> BaseWebSocketClient" where
  "connection_lost env event s =
     (let s1 = (if fe_type event = ConnectionError then handle_error_event (fe_event_data event) s else s);
          s2 = deinit_websocket s1;
          s3 = (if fe_type event = ConnectionClosed
                then handle_close_event (fe_event_data event) s2
                else handle_close_event (Some (create_websocket_close_event ''Going Away'' 1001)) s2)
      in case m_config s3 of
           None \<Rightarrow> s3\<lparr>null_deref := True\<rparr>
         | Some c \<Rightarrow>
             if \<not> reconnect c then goto INIT (s3\<lparr>m_is_running := False\<rparr>)
             else goto RECONNECTING
                    (s3\<lparr>m_reconnect_attempt := m_reconnect_attempt s3 + 1, m_close_time := now_fsm env,
                        m_is_running := True\<rparr>))"

text \<open>The branch \<open>RequestDisconnect\<close> of the states CONNECTING and WORKING.\<close>

definition request_disconnect :: "FSMEventData \<Rightarrow> BaseWebSocketClient \<Rightarrow> BaseWebSocketClient" where
  "request_disconnect event s =
     (let s1 = handle_close_event None (deinit_websocket s)
      in goto INIT (call_callback event True
           (s1\<lparr>m_reconnect_attempt := 0, m_is_running := False\<rparr>)))"

definition process_state_init :: "ws_env \<Rightarrow> BaseWebSocketClient \<Rightarrow> BaseWebSocketClient" where
  "process_state_init env s =
     (case pop_event (m_fsm_event_queue s) of
        None \<Rightarrow> s
      | Some (event, q) \<Rightarrow>
          let s1 = s\<lparr>m_fsm_event_queue := q\<rparr>
          in case fe_type event of
               RequestConnect \<Rightarrow> request_connect env event s1
             | UpdateConfig \<Rightarrow>
                 let s2 = s1\<lparr>m_config := fe_config_data event\<rparr>
                 in (case m_config s2 of
                       Some c \<Rightarrow> call_callback event True (apply_config env c s2)
                     | None \<Rightarrow> call_callback event False s2)
             | _ \<Rightarrow> call_callback event False s1)"

definition process_state_connecting :: "ws_env \<Rightarrow> BaseWebSocketClient \<Rightarrow> BaseWebSocketClient" where
  "process_state_connecting env s =
     (case pop_event (m_fsm_event_queue s) of
        None \<Rightarrow> s
      | Some (event, q) \<Rightarrow>
          let s1 = s\<lparr>m_fsm_event_queue := q\<rparr>
          in case fe_type event of
               ConnectionOpened \<Rightarrow>
                 goto WORKING ((handle_open_event (fe_event_data event) s1)
                   \<lparr>m_reconnect_attempt := 0, m_is_running := True\<rparr>)
             | ConnectionError \<Rightarrow> connection_lost env event s1
             | ConnectionClosed \<Rightarrow> connection_lost env event s1
             | RequestDisconnect \<Rightarrow> request_disconnect event s1
             | UpdateConfig \<Rightarrow>
                 update_config env event (handle_close_event None (deinit_websocket s1))
             | _ \<Rightarrow> call_callback event False s1)"

text \<open>The loop of \<open>process_state_working\<close> goes on as long as the events are messages.\<close>

fun working_loop :: "ws_env \<Rightarrow> FSMEventData list \<Rightarrow> BaseWebSocketClient \<Rightarrow> BaseWebSocketClient" where
  "working_loop env [] s = s\<lparr>m_fsm_event_queue := []\<rparr>"
| "working_loop env (event # q) s =
     (let s1 = s\<lparr>m_fsm_event_queue := q\<rparr>
      in case fe_type event of
           RequestDisconnect \<Rightarrow> request_disconnect event s1
         | ConnectionError \<Rightarrow> connection_lost env event s1
         | ConnectionClosed \<Rightarrow> connection_lost env event s1
         | UpdateConfig \<Rightarrow> update_config env event (handle_close_event None (deinit_websocket s1))
         | MessageReceived \<Rightarrow> working_loop env q (handle_message_event (fe_event_data event) s1)
         | _ \<Rightarrow> call_callback event False s1)"

definition process_state_working :: "ws_env \<Rightarrow> BaseWebSocketClient \<Rightarrow> BaseWebSocketClient" where
  "process_state_working env s = working_loop env (m_fsm_event_queue s) s"

text \<open>The first half of \<open>process_state_reconnecting\<close> handles one event, the second half, which is
  run whatever the event was, decides about the next attempt.\<close>

definition reconnecting_event :: "ws_env \<Rightarrow> BaseWebSocketClient \<Rightarrow> BaseWebSocketClient" where
  "reconnecting_event env s =
     (case pop_event (m_fsm_event_queue s) of
        None \<Rightarrow> s
      | Some (event, q) \<Rightarrow>
          let s1 = s\<lparr>m_fsm_event_queue := q\<rparr>
          in case fe_type event of
               RequestDisconnect \<Rightarrow> goto INIT (call_callback event True (s1\<lparr>m_is_running := False\<rparr>))
             | UpdateConfig \<Rightarrow> update_config env event s1
             | MessageReceived \<Rightarrow> handle_message_event (fe_event_data event) s1
             | _ \<Rightarrow> call_callback event False s1)"

definition reconnecting_attempt :: "ws_env \<Rightarrow> BaseWebSocketClient \<Rightarrow> BaseWebSocketClient" where
  "reconnecting_attempt env s =
     (case m_config s of
        None \<Rightarrow> goto STOPPED (handle_error_code (client_error InvalidConfiguration) s)
      | Some c \<Rightarrow>
          if reconnect c then
            if reconnect_attempts c \<noteq> 0 \<and> m_reconnect_attempt s \<ge> reconnect_attempts c
            then goto INIT (s\<lparr>m_is_running := False\<rparr>)
            else if duration_s (now_fsm env - m_close_time s) \<ge> reconnect_delay c
            then
              let (s1, ok) = init_websocket env s
              in if \<not> ok then goto STOPPED (handle_error_code (client_error InvalidConfiguration) s1)
                 else goto CONNECTING (s1\<lparr>m_is_running := True\<rparr>)
            else s
          else goto INIT (s\<lparr>m_is_running := False\<rparr>))"

definition process_state_reconnecting :: "ws_env \<Rightarrow> BaseWebSocketClient \<Rightarrow> BaseWebSocketClient" where
  "process_state_reconnecting env s = reconnecting_attempt env (reconnecting_event env s)"

definition process_state_stopped :: "ws_env \<Rightarrow> BaseWebSocketClient \<Rightarrow> BaseWebSocketClient" where
  "process_state_stopped env s =
     (case pop_event (m_fsm_event_queue s) of
        None \<Rightarrow> s
      | Some (event, q) \<Rightarrow>
          let s1 = s\<lparr>m_fsm_event_queue := q\<rparr>
          in case fe_type event of
               RequestConnect \<Rightarrow> request_connect env event s1
             | UpdateConfig \<Rightarrow> update_config env event s1
             | _ \<Rightarrow> call_callback event False s1)"

definition process_fsm_state :: "ws_env \<Rightarrow> BaseWebSocketClient \<Rightarrow> BaseWebSocketClient" where
  "process_fsm_state env s =
     (case m_fsm_state s of
        INIT \<Rightarrow> process_state_init env s
      | CONNECTING \<Rightarrow> process_state_connecting env s
      | WORKING \<Rightarrow> process_state_working env s
      | RECONNECTING \<Rightarrow> process_state_reconnecting env s
      | STOPPED \<Rightarrow> process_state_stopped env s)"

section \<open>Sending\<close>

text \<open>The scan of the message queue: what stays, what may be sent, and the limiter afterwards. The
  \<open>k\<close>-th test of the limiter in a scan reads the clock \<open>now_message k\<close>.\<close>

fun scan_messages ::
    "(nat \<Rightarrow> ws_clock) \<Rightarrow> nat \<Rightarrow> WebSocketRateLimiter \<Rightarrow> WebSocketSendInfo list \<Rightarrow>
     WebSocketSendInfo list \<times> WebSocketSendInfo list \<times> WebSocketRateLimiter" where
  "scan_messages t k m [] = ([], [], m)"
| "scan_messages t k m (i # is) =
     (let (m1, ok) = ws_allow_request (si_rate_limit_id i) (t k) m;
          (kept, sent, m2) = scan_messages t (k + 1) m1 is
      in if \<not> ok then (i # kept, sent, m2) else (kept, i # sent, m2))"

definition send_action :: "WebSocketSendInfo \<Rightarrow> ws_action" where
  "send_action i = (if \<not> is_send_close i then ActSend i else ActSendClose i)"

definition process_message_queue :: "ws_env \<Rightarrow> BaseWebSocketClient \<Rightarrow> BaseWebSocketClient" where
  "process_message_queue env s =
     (if m_message_queue s = [] then s
      else
        let (kept, sent, m) = scan_messages (now_message env) 0 (m_rate_limiter s) (m_message_queue s)
        in s\<lparr>m_message_queue := kept, m_rate_limiter := m, ws_log := ws_log s @ map send_action sent\<rparr>)"

text \<open>Invoking an empty \<open>std::function\<close> throws; the exception leaves the loop and the function. The
  second component of the result says whether it returned normally.\<close>

fun send_callback_actions :: "(error_code \<times> cb option) list \<Rightarrow> ws_action list \<times> bool" where
  "send_callback_actions [] = ([], True)"
| "send_callback_actions ((ec, Some f) # rest) =
     (let (as, ok) = send_callback_actions rest in (ActSendCallback ec f # as, ok))"
| "send_callback_actions ((ec, None) # rest) = ([ActBadFunctionCall], False)"

definition process_send_callback_queue :: "BaseWebSocketClient \<Rightarrow> BaseWebSocketClient \<times> bool" where
  "process_send_callback_queue s =
     (let (as, ok) = send_callback_actions (m_send_callback_queue s)
      in (s\<lparr>m_send_callback_queue := [], ws_log := ws_log s @ as\<rparr>, ok))"

definition push_arrivals :: "ws_env \<Rightarrow> BaseWebSocketClient \<Rightarrow> BaseWebSocketClient" where
  "push_arrivals env s = fold push_fsm_event (arrivals env) s"

definition ws_process :: "ws_env \<Rightarrow> BaseWebSocketClient \<Rightarrow> BaseWebSocketClient \<times> bool" where
  "ws_process env s =
     process_send_callback_queue (process_message_queue env (process_fsm_state env (push_arrivals env s)))"

text \<open>
  The loop of \<open>shutdown\<close> need not end; with \<open>n\<close> iterations of fuel the result is \<open>None\<close> when it has
  not ended after \<open>n\<close> iterations. Iteration \<open>k\<close> sees the outside \<open>envs k\<close>.
\<close>

fun shutdown_loop :: "nat \<Rightarrow> (nat \<Rightarrow> ws_env) \<Rightarrow> nat \<Rightarrow> BaseWebSocketClient \<Rightarrow> (BaseWebSocketClient \<times> bool) option" where
  "shutdown_loop fuel envs k s =
     (if \<not> ws_is_running s then Some (s, True)
      else case fuel of
        0 \<Rightarrow> None
      | Suc n \<Rightarrow>
          let (s1, ok) = process_send_callback_queue
                           (process_fsm_state (envs k) (push_arrivals (envs k) s))
          in if \<not> ok then Some (s1, False) else shutdown_loop n envs (k + 1) s1)"

declare shutdown_loop.simps [simp del]

definition ws_shutdown :: "nat \<Rightarrow> (nat \<Rightarrow> ws_env) \<Rightarrow> BaseWebSocketClient \<Rightarrow> (BaseWebSocketClient \<times> bool) option" where
  "ws_shutdown fuel envs s =
     shutdown_loop fuel envs 0 (push_fsm_event (fsm_request RequestDisconnect None None) s)"

end
