(* ===== verification/Web_Socket_Fsm.thy ===== *)
theory Web_Socket_Fsm
  imports Web_Socket_Client
begin

text \<open>
  The state machine of the WebSocket client: the fields each operation leaves alone, the invariant
  that ties the connection flags and the configuration to the state, and the reachable states.
\<close>

section \<open>Frames\<close>

lemma log_act_sel [simp]:
  "m_config (log_act a s) = m_config s"
  "m_fsm_state (log_act a s) = m_fsm_state s"
  "m_reconnect_attempt (log_act a s) = m_reconnect_attempt s"
  "m_is_running (log_act a s) = m_is_running s"
  "m_is_connected (log_act a s) = m_is_connected s"
  "null_deref (log_act a s) = null_deref s"
  "m_fsm_event_queue (log_act a s) = m_fsm_event_queue s"
  "m_on_event (log_act a s) = m_on_event s"
  by (simp_all add: log_act_def)

lemma deliver_event_sel [simp]:
  "m_config (deliver_event e s) = m_config s"
  "m_fsm_state (deliver_event e s) = m_fsm_state s"
  "m_reconnect_attempt (deliver_event e s) = m_reconnect_attempt s"
  "m_is_running (deliver_event e s) = m_is_running s"
  "m_is_connected (deliver_event e s) = m_is_connected s"
  "null_deref (deliver_event e s) = null_deref s"
  "m_fsm_event_queue (deliver_event e s) = m_fsm_event_queue s"
  "m_on_event (deliver_event e s) = m_on_event s"
  by (simp_all add: deliver_event_def)

lemma handle_open_event_sel [simp]:
  "m_config (handle_open_event e s) = m_config s"
  "m_fsm_state (handle_open_event e s) = m_fsm_state s"
  "m_reconnect_attempt (handle_open_event e s) = m_reconnect_attempt s"
  "m_is_running (handle_open_event e s) = m_is_running s"
  "null_deref (handle_open_event e s) = null_deref s"
  "m_fsm_event_queue (handle_open_event e s) = m_fsm_event_queue s"
  "m_on_event (handle_open_event e s) = m_on_event s"
  "m_is_connected (handle_open_event e s)"
  by (simp_all add: handle_open_event_def)

lemma handle_close_event_sel [simp]:
  "m_config (handle_close_event e s) = m_config s"
  "m_fsm_state (handle_close_event e s) = m_fsm_state s"
  "m_reconnect_attempt (handle_close_event e s) = m_reconnect_attempt s"
  "m_is_running (handle_close_event e s) = m_is_running s"
  "null_deref (handle_close_event e s) = null_deref s"
  "m_fsm_event_queue (handle_close_event e s) = m_fsm_event_queue s"
  "m_on_event (handle_close_event e s) = m_on_event s"
  "\<not> m_is_connected (handle_close_event e s)"
  by (simp_all add: handle_close_event_def Let_def)

lemma handle_error_event_sel [simp]:
  "m_config (handle_error_event e s) = m_config s"
  "m_fsm_state (handle_error_event e s) = m_fsm_state s"
  "m_reconnect_attempt (handle_error_event e s) = m_reconnect_attempt s"
  "m_is_running (handle_error_event e s) = m_is_running s"
  "m_is_connected (handle_error_event e s) = m_is_connected s"
  "null_deref (handle_error_event e s) = null_deref s"
  "m_fsm_event_queue (handle_error_event e s) = m_fsm_event_queue s"
  "m_on_event (handle_error_event e s) = m_on_event s"
  by (simp_all add: handle_error_event_def)

lemma handle_error_code_sel [simp]:
  "m_config (handle_error_code ec s) = m_config s"
  "m_fsm_state (handle_error_code ec s) = m_fsm_state s"
  "m_reconnect_attempt (handle_error_code ec s) = m_reconnect_attempt s"
  "m_is_running (handle_error_code ec s) = m_is_running s"
  "m_is_connected (handle_error_code ec s) = m_is_connected s"
  "null_deref (handle_error_code ec s) = null_deref s"
  "m_fsm_event_queue (handle_error_code ec s) = m_fsm_event_queue s"
  "m_on_event (handle_error_code ec s) = m_on_event s"
  by (simp_all add: handle_error_code_def)

lemma handle_message_event_sel [simp]:
  "m_config (handle_message_event e s) = m_config s"
  "m_fsm_state (handle_message_event e s) = m_fsm_state s"
  "m_reconnect_attempt (handle_message_event e s) = m_reconnect_attempt s"
  "m_is_running (handle_message_event e s) = m_is_running s"
  "m_is_connected (handle_message_event e s) = m_is_connected s"
  "null_deref (handle_message_event e s) = null_deref s"
  "m_fsm_event_queue (handle_message_event e s) = m_fsm_event_queue s"
  "m_on_event (handle_message_event e s) = m_on_event s"
  by (simp_all add: handle_message_event_def)

lemma call_callback_sel [simp]:
  "m_config (call_callback e b s) = m_config s"
  "m_fsm_state (call_callback e b s) = m_fsm_state s"
  "m_reconnect_attempt (call_callback e b s) = m_reconnect_attempt s"
  "m_is_running (call_callback e b s) = m_is_running s"
  "m_is_connected (call_callback e b s) = m_is_connected s"
  "null_deref (call_callback e b s) = null_deref s"
  "m_fsm_event_queue (call_callback e b s) = m_fsm_event_queue s"
  "m_on_event (call_callback e b s) = m_on_event s"
  by (simp_all add: call_callback_def split: option.split)

lemma goto_sel [simp]:
  "m_config (goto st s) = m_config s"
  "m_reconnect_attempt (goto st s) = m_reconnect_attempt s"
  "m_is_running (goto st s) = m_is_running s"
  "m_is_connected (goto st s) = m_is_connected s"
  "null_deref (goto st s) = null_deref s"
  "m_fsm_event_queue (goto st s) = m_fsm_event_queue s"
  "m_on_event (goto st s) = m_on_event s"
  "m_fsm_state (goto st s) = st"
  by (simp_all add: goto_def)

lemma deinit_websocket_sel [simp]:
  "m_config (deinit_websocket s) = m_config s"
  "m_fsm_state (deinit_websocket s) = m_fsm_state s"
  "m_reconnect_attempt (deinit_websocket s) = m_reconnect_attempt s"
  "m_is_running (deinit_websocket s) = m_is_running s"
  "m_is_connected (deinit_websocket s) = m_is_connected s"
  "null_deref (deinit_websocket s) = null_deref s"
  "m_fsm_event_queue (deinit_websocket s) = m_fsm_event_queue s"
  "m_on_event (deinit_websocket s) = m_on_event s"
  by (simp_all add: deinit_websocket_def)

lemma init_websocket_sel [simp]:
  "m_config (fst (init_websocket env s)) = m_config s"
  "m_fsm_state (fst (init_websocket env s)) = m_fsm_state s"
  "m_reconnect_attempt (fst (init_websocket env s)) = m_reconnect_attempt s"
  "m_is_running (fst (init_websocket env s)) = m_is_running s"
  "m_is_connected (fst (init_websocket env s)) = m_is_connected s"
  "null_deref (fst (init_websocket env s)) = null_deref s"
  "m_fsm_event_queue (fst (init_websocket env s)) = m_fsm_event_queue s"
  "m_on_event (fst (init_websocket env s)) = m_on_event s"
  by (simp_all add: init_websocket_def Let_def)

lemma apply_config_sel [simp]:
  "m_config (apply_config env c s) = m_config s"
  "m_fsm_state (apply_config env c s) = m_fsm_state s"
  "m_reconnect_attempt (apply_config env c s) = m_reconnect_attempt s"
  "m_is_running (apply_config env c s) = m_is_running s"
  "m_is_connected (apply_config env c s) = m_is_connected s"
  "null_deref (apply_config env c s) = null_deref s"
  "m_fsm_event_queue (apply_config env c s) = m_fsm_event_queue s"
  "m_on_event (apply_config env c s) = m_on_event s"
  by (simp_all add: apply_config_def)

lemma push_fsm_event_sel [simp]:
  "m_config (push_fsm_event e s) = m_config s"
  "m_fsm_state (push_fsm_event e s) = m_fsm_state s"
  "m_reconnect_attempt (push_fsm_event e s) = m_reconnect_attempt s"
  "m_is_running (push_fsm_event e s) = m_is_running s"
  "m_is_connected (push_fsm_event e s) = m_is_connected s"
  "null_deref (push_fsm_event e s) = null_deref s"
  "m_on_event (push_fsm_event e s) = m_on_event s"
  "m_fsm_event_queue (push_fsm_event e s) = m_fsm_event_queue s @ [e]"
  by (simp_all add: push_fsm_event_def push_event_def)

lemma process_message_queue_sel [simp]:
  "m_config (process_message_queue env s) = m_config s"
  "m_fsm_state (process_message_queue env s) = m_fsm_state s"
  "m_reconnect_attempt (process_message_queue env s) = m_reconnect_attempt s"
  "m_is_running (process_message_queue env s) = m_is_running s"
  "m_is_connected (process_message_queue env s) = m_is_connected s"
  "null_deref (process_message_queue env s) = null_deref s"
  "m_fsm_event_queue (process_message_queue env s) = m_fsm_event_queue s"
  "m_on_event (process_message_queue env s) = m_on_event s"
  by (simp_all add: process_message_queue_def Let_def split: prod.split)

lemma process_send_callback_queue_sel [simp]:
  "m_config (fst (process_send_callback_queue s)) = m_config s"
  "m_fsm_state (fst (process_send_callback_queue s)) = m_fsm_state s"
  "m_reconnect_attempt (fst (process_send_callback_queue s)) = m_reconnect_attempt s"
  "m_is_running (fst (process_send_callback_queue s)) = m_is_running s"
  "m_is_connected (fst (process_send_callback_queue s)) = m_is_connected s"
  "null_deref (fst (process_send_callback_queue s)) = null_deref s"
  "m_fsm_event_queue (fst (process_send_callback_queue s)) = m_fsm_event_queue s"
  "m_on_event (fst (process_send_callback_queue s)) = m_on_event s"
  by (simp_all add: process_send_callback_queue_def Let_def split: prod.split)

lemma init_websocket_eq: "init_websocket env s = (log_act (ActInit (init_websocket_ok env s)) s, init_websocket_ok env s)"
  by (simp add: init_websocket_def Let_def)

lemma push_arrivals_sel [simp]:
  "m_config (push_arrivals env s) = m_config s"
  "m_fsm_state (push_arrivals env s) = m_fsm_state s"
  "m_reconnect_attempt (push_arrivals env s) = m_reconnect_attempt s"
  "m_is_running (push_arrivals env s) = m_is_running s"
  "m_is_connected (push_arrivals env s) = m_is_connected s"
  "null_deref (push_arrivals env s) = null_deref s"
  "m_fsm_event_queue (push_arrivals env s) = m_fsm_event_queue s @ arrivals env"
proof -
  have "m_config (fold push_fsm_event es s) = m_config s \<and>
    m_fsm_state (fold push_fsm_event es s) = m_fsm_state s \<and>
    m_reconnect_attempt (fold push_fsm_event es s) = m_reconnect_attempt s \<and>
    m_is_running (fold push_fsm_event es s) = m_is_running s \<and>
    m_is_connected (fold push_fsm_event es s) = m_is_connected s \<and>
    null_deref (fold push_fsm_event es s) = null_deref s \<and>
    m_fsm_event_queue (fold push_fsm_event es s) = m_fsm_event_queue s @ es" for es
    by (induction es arbitrary: s) simp_all
  then show "m_config (push_arrivals env s) = m_config s"
    "m_fsm_state (push_arrivals env s) = m_fsm_state s"
    "m_reconnect_attempt (push_arrivals env s) = m_reconnect_attempt s"
    "m_is_running (push_arrivals env s) = m_is_running s"
    "m_is_connected (push_arrivals env s) = m_is_connected s"
    "null_deref (push_arrivals env s) = null_deref s"
    "m_fsm_event_queue (push_arrivals env s) = m_fsm_event_queue s @ arrivals env"
    by (simp_all add: push_arrivals_def)
qed

section \<open>The invariant\<close>

definition active_state :: "FsmState \<Rightarrow> bool" where
  "active_state st = (st = CONNECTING \<or> st = WORKING \<or> st = RECONNECTING)"

definition ws_inv :: "BaseWebSocketClient \<Rightarrow> bool" where
  "ws_inv s =
     ((m_is_connected s \<longleftrightarrow> m_fsm_state s = WORKING) \<and>
      (active_state (m_fsm_state s) \<longrightarrow> m_is_running s \<and> m_config s \<noteq> None) \<and>
      (m_fsm_state s = INIT \<longrightarrow> \<not> m_is_running s) \<and>
      0 \<le> m_reconnect_attempt s \<and> \<not> null_deref s)"

lemma ws_inv_init: "ws_inv BaseWebSocketClient_init"
  by (simp add: ws_inv_def BaseWebSocketClient_init_def active_state_def)

lemma ws_inv_cong:
  assumes "ws_inv s" "m_config s' = m_config s" "m_fsm_state s' = m_fsm_state s"
    "m_reconnect_attempt s' = m_reconnect_attempt s" "m_is_running s' = m_is_running s"
    "m_is_connected s' = m_is_connected s" "null_deref s' = null_deref s"
  shows "ws_inv s'"
  using assms by (simp add: ws_inv_def)

lemma ws_inv_frame [simp]:
  "ws_inv (call_callback e b s) = ws_inv s"
  "ws_inv (handle_message_event d s) = ws_inv s"
  "ws_inv (apply_config env c s) = ws_inv s"
  "ws_inv (s\<lparr>m_fsm_event_queue := q\<rparr>) = ws_inv s"
  by (simp_all add: ws_inv_def)

lemma ws_inv_config_idle [simp]: "m_fsm_state s = INIT \<Longrightarrow> ws_inv (s\<lparr>m_config := c\<rparr>) = ws_inv s"
  by (simp add: ws_inv_def active_state_def)

text \<open>The fragments of the handlers, from a state in which only the connection is known to be
  down.\<close>

definition ws_base :: "BaseWebSocketClient \<Rightarrow> bool" where
  "ws_base s = (\<not> m_is_connected s \<and> 0 \<le> m_reconnect_attempt s \<and> \<not> null_deref s)"

lemma stop_with_error_inv: "ws_base s \<Longrightarrow> ws_inv (stop_with_error event s)"
  by (simp add: stop_with_error_def ws_inv_def ws_base_def active_state_def)

lemma request_connect_inv: "ws_base s \<Longrightarrow> ws_inv (request_connect env event s)"
  by (simp add: request_connect_def init_websocket_eq stop_with_error_def ws_inv_def ws_base_def
      active_state_def split: option.split)

lemma update_config_inv: "ws_base s \<Longrightarrow> ws_inv (update_config env event s)"
  by (simp add: update_config_def init_websocket_eq stop_with_error_def ws_inv_def ws_base_def
      active_state_def Let_def split: option.split)

lemma connection_lost_inv:
  assumes "m_config s \<noteq> None" "0 \<le> m_reconnect_attempt s" "\<not> null_deref s"
  shows "ws_inv (connection_lost env event s)"
proof -
  obtain c where "m_config s = Some c" using assms(1) by auto
  with assms(2,3) show ?thesis
    by (cases "reconnect c"; cases "fe_type event")
      (simp_all add: connection_lost_def ws_inv_def active_state_def Let_def)
qed

lemma request_disconnect_inv: "\<not> null_deref s \<Longrightarrow> ws_inv (request_disconnect event s)"
  by (simp add: request_disconnect_def ws_inv_def active_state_def Let_def)

lemma pop_event_cases:
  obtains "q = []" "pop_event q = None" | e r where "q = e # r" "pop_event q = Some (e, r)"
  by (cases q) (auto simp: pop_event_def)

lemma process_state_init_inv:
  assumes "ws_inv s" "m_fsm_state s = INIT"
  shows "ws_inv (process_state_init env s)"
proof (cases rule: pop_event_cases [of "m_fsm_event_queue s"])
  case (2 e r)
  have "ws_base (s\<lparr>m_fsm_event_queue := r\<rparr>)" using assms by (auto simp: ws_inv_def ws_base_def)
  with 2 assms show ?thesis
    by (cases "fe_type e") (auto simp: process_state_init_def request_connect_inv Let_def split: option.split)
qed (use assms in \<open>simp add: process_state_init_def\<close>)

lemma process_state_connecting_inv:
  assumes "ws_inv s" "m_fsm_state s = CONNECTING"
  shows "ws_inv (process_state_connecting env s)"
proof (cases rule: pop_event_cases [of "m_fsm_event_queue s"])
  case (2 e r)
  let ?s1 = "s\<lparr>m_fsm_event_queue := r\<rparr>"
  have h: "m_config ?s1 \<noteq> None" "0 \<le> m_reconnect_attempt ?s1" "\<not> null_deref ?s1"
    using assms by (simp_all add: ws_inv_def active_state_def)
  have u: "ws_inv (update_config env e (handle_close_event None (deinit_websocket ?s1)))"
    by (rule update_config_inv) (use h in \<open>simp add: ws_base_def\<close>)
  have o: "ws_inv (goto WORKING ((handle_open_event d ?s1)\<lparr>m_reconnect_attempt := 0, m_is_running := True\<rparr>))"
    for d using h by (simp add: ws_inv_def active_state_def)
  show ?thesis
    using 2 assms u o connection_lost_inv [OF h] request_disconnect_inv [OF h(3)]
    by (cases "fe_type e") (auto simp: process_state_connecting_def Let_def)
qed (use assms in \<open>simp add: process_state_connecting_def\<close>)

lemma working_loop_inv:
  assumes "ws_inv s" "m_fsm_state s = WORKING"
  shows "ws_inv (working_loop env es s)"
  using assms
proof (induction es arbitrary: s)
  case Nil
  then show ?case by (auto intro: ws_inv_cong)
next
  case (Cons e r)
  let ?s1 = "s\<lparr>m_fsm_event_queue := r\<rparr>"
  have i1: "ws_inv ?s1" using Cons.prems(1) by (auto intro: ws_inv_cong)
  have h: "m_config ?s1 \<noteq> None" "0 \<le> m_reconnect_attempt ?s1" "\<not> null_deref ?s1"
    using Cons.prems by (simp_all add: ws_inv_def active_state_def)
  have u: "ws_inv (update_config env e (handle_close_event None (deinit_websocket ?s1)))"
    by (rule update_config_inv) (use h in \<open>simp add: ws_base_def\<close>)
  have m: "ws_inv (working_loop env r (handle_message_event (fe_event_data e) ?s1))"
    by (rule Cons.IH) (use Cons.prems(2) i1 in \<open>auto intro: ws_inv_cong\<close>)
  have c: "ws_inv (call_callback e False ?s1)" using i1 by (rule ws_inv_cong) simp_all
  show ?case
    using u m c connection_lost_inv [OF h] request_disconnect_inv [OF h(3)]
    by (cases "fe_type e") (simp_all add: Let_def)
qed

lemma reconnecting_attempt_inv:
  assumes "\<not> m_is_connected s" "0 \<le> m_reconnect_attempt s" "\<not> null_deref s"
    and "m_config s \<noteq> None \<Longrightarrow> ws_inv s"
  shows "ws_inv (reconnecting_attempt env s)"
  using assms
  by (auto simp: reconnecting_attempt_def init_websocket_eq ws_inv_def active_state_def split: option.splits)

lemma process_state_reconnecting_inv:
  assumes "ws_inv s" "m_fsm_state s = RECONNECTING"
  shows "ws_inv (process_state_reconnecting env s)"
proof -
  have e: "ws_inv (reconnecting_event env s) \<and> \<not> m_is_connected (reconnecting_event env s)"
  proof (cases rule: pop_event_cases [of "m_fsm_event_queue s"])
    case (2 e r)
    let ?s1 = "s\<lparr>m_fsm_event_queue := r\<rparr>"
    have b: "ws_base ?s1" using assms by (auto simp: ws_inv_def ws_base_def)
    have c: "\<not> m_is_connected (update_config env e ?s1)"
      using b by (simp add: update_config_def init_websocket_eq stop_with_error_def ws_base_def Let_def
          split: option.split)
    have d: "ws_inv (goto INIT (call_callback e True (?s1\<lparr>m_is_running := False\<rparr>)))"
      using b by (simp add: ws_inv_def ws_base_def active_state_def)
    have "\<not> m_is_connected s" using b by (simp add: ws_base_def)
    with 2 assms(1) c d update_config_inv [OF b] show ?thesis
      by (cases "fe_type e") (auto simp: reconnecting_event_def Let_def)
  qed (use assms in \<open>simp add: reconnecting_event_def ws_inv_def\<close>)
  then show ?thesis
    unfolding process_state_reconnecting_def
    by (intro reconnecting_attempt_inv) (auto simp: ws_inv_def)
qed

lemma process_state_stopped_inv:
  assumes "ws_inv s" "m_fsm_state s = STOPPED"
  shows "ws_inv (process_state_stopped env s)"
proof (cases rule: pop_event_cases [of "m_fsm_event_queue s"])
  case (2 e r)
  have "ws_base (s\<lparr>m_fsm_event_queue := r\<rparr>)" using assms by (auto simp: ws_inv_def ws_base_def)
  with 2 assms show ?thesis
    by (cases "fe_type e")
      (auto simp: process_state_stopped_def request_connect_inv update_config_inv Let_def)
qed (use assms in \<open>simp add: process_state_stopped_def\<close>)

lemma process_fsm_state_inv: "ws_inv s \<Longrightarrow> ws_inv (process_fsm_state env s)"
  by (simp add: process_fsm_state_def process_state_init_inv process_state_connecting_inv
      process_state_working_def working_loop_inv process_state_reconnecting_inv
      process_state_stopped_inv split: FsmState.split)

lemma push_arrivals_inv: "ws_inv s \<Longrightarrow> ws_inv (push_arrivals env s)"
  by (erule ws_inv_cong) simp_all

section \<open>The event queue under the handlers\<close>

lemma handler_queue [simp]:
  "m_fsm_event_queue (stop_with_error event s) = m_fsm_event_queue s"
  "m_fsm_event_queue (request_connect env event s) = m_fsm_event_queue s"
  "m_fsm_event_queue (update_config env event s) = m_fsm_event_queue s"
  "m_fsm_event_queue (connection_lost env event s) = m_fsm_event_queue s"
  "m_fsm_event_queue (request_disconnect event s) = m_fsm_event_queue s"
  "m_fsm_event_queue (reconnecting_attempt env s) = m_fsm_event_queue s"
  by (simp_all add: stop_with_error_def request_connect_def update_config_def connection_lost_def
      request_disconnect_def reconnecting_attempt_def init_websocket_eq Let_def split: option.split)

lemma working_loop_queue: "\<exists>k \<le> length es. m_fsm_event_queue (working_loop env es s) = drop k es"
proof (induction es arbitrary: s)
  case (Cons e r)
  let ?s1 = "handle_message_event (fe_event_data e) (s\<lparr>m_fsm_event_queue := r\<rparr>)"
  obtain k where "k \<le> length r" "m_fsm_event_queue (working_loop env r ?s1) = drop k r"
    using Cons.IH by blast
  then have "\<exists>k \<le> length (e # r). m_fsm_event_queue (working_loop env r ?s1) = drop k (e # r)"
    by (intro exI [of _ "Suc k"]) simp
  moreover have "\<exists>k \<le> length (e # r). r = drop k (e # r)" by (intro exI [of _ 1]) simp
  ultimately show ?case by (cases "fe_type e") (auto simp: Let_def)
qed simp

lemma process_fsm_state_queue:
  "\<exists>k \<le> length (m_fsm_event_queue s).
     m_fsm_event_queue (process_fsm_state env s) = drop k (m_fsm_event_queue s)"
proof (cases "m_fsm_state s = WORKING")
  case True
  then show ?thesis
    using working_loop_queue [of "m_fsm_event_queue s" env s]
    by (simp add: process_fsm_state_def process_state_working_def)
next
  case False
  show ?thesis
  proof (cases rule: pop_event_cases [of "m_fsm_event_queue s"])
    case 1
    with False show ?thesis
      by (cases "m_fsm_state s")
        (simp_all add: process_fsm_state_def process_state_init_def process_state_connecting_def
          process_state_reconnecting_def reconnecting_event_def process_state_stopped_def)
  next
    case (2 e r)
    with False have "m_fsm_event_queue (process_fsm_state env s) = r"
      by (cases "m_fsm_state s"; cases "fe_type e")
        (simp_all add: process_fsm_state_def process_state_init_def process_state_connecting_def
          process_state_reconnecting_def reconnecting_event_def process_state_stopped_def Let_def
          split: option.split)
    with 2 show ?thesis by (intro exI [of _ 1]) simp
  qed
qed

lemma process_fsm_state_queue_subset:
  "set (m_fsm_event_queue (process_fsm_state env s)) \<subseteq> set (m_fsm_event_queue s)"
  using process_fsm_state_queue [of s env] set_drop_subset by metis

section \<open>Reachable states\<close>

text \<open>
  The events a transport adapter reports carry event data of the matching kind and no callback, as
  the calls of \<open>add_fsm_event\<close> in \<^verbatim>\<open>SimpleWebSocketClientAdapter.hpp\<close> do; requests carry no event
  data.
\<close>

definition data_kind :: "WebSocketEventType \<Rightarrow> FSMEventData \<Rightarrow> bool" where
  "data_kind k e =
     ((case fe_event_data e of None \<Rightarrow> False | Some d \<Rightarrow> event_type d = k) \<and> fe_callback e = None)"

definition event_ok :: "FSMEventData \<Rightarrow> bool" where
  "event_ok e =
     (case fe_type e of
        ConnectionOpened \<Rightarrow> data_kind WS_OPEN e
      | ConnectionClosed \<Rightarrow> data_kind WS_CLOSE e
      | ConnectionError \<Rightarrow> data_kind WS_ERROR e
      | MessageReceived \<Rightarrow> data_kind WS_MESSAGE e
      | _ \<Rightarrow> True)"

text \<open>One iteration of the loop of \<open>shutdown\<close>, after which the loop may be left.\<close>

definition shutdown_iteration :: "ws_env \<Rightarrow> BaseWebSocketClient \<Rightarrow> BaseWebSocketClient \<times> bool" where
  "shutdown_iteration env s =
     process_send_callback_queue (process_fsm_state env (push_arrivals env s))"

inductive ws_step :: "BaseWebSocketClient \<Rightarrow> BaseWebSocketClient \<Rightarrow> bool" where
  step_handler: "ws_step s (s\<lparr>m_on_event := b\<rparr>)"
| step_set_config: "ws_step s (set_config c f s)"
| step_connect: "ws_step s (ws_connect f s)"
| step_disconnect: "ws_step s (ws_disconnect f s)"
| step_transport: "event_ok \<lparr>fe_type = t, fe_event_data = d, fe_config_data = None, fe_callback = None\<rparr> \<Longrightarrow>
     ws_step s (add_fsm_event t d s)"
| step_sent: "ws_step s (add_send_callback ec f s)"
| step_receive_events: "ws_step s (fst (receive_events s))"
| step_receive_event: "ws_step s (fst (receive_event s))"
| step_submit_message: "ws_step s (fst (submit_message m i f s))"
| step_submit_close: "ws_step s (fst (submit_close st r f s))"
| step_process: "list_all event_ok (arrivals env) \<Longrightarrow> ws_step s (fst (ws_process env s))"
| step_shutdown: "list_all event_ok (arrivals env) \<Longrightarrow> ws_step s (fst (shutdown_iteration env s))"

inductive ws_reachable :: "BaseWebSocketClient \<Rightarrow> bool" where
  ws_start: "ws_reachable BaseWebSocketClient_init"
| ws_next: "ws_reachable s \<Longrightarrow> ws_step s s' \<Longrightarrow> ws_reachable s'"

lemmas ws_request_defs = set_config_def ws_connect_def ws_disconnect_def add_fsm_event_def
  add_send_callback_def receive_events_def receive_event_def submit_message_def submit_close_def Let_def

lemma ws_step_inv: "ws_step s s' \<Longrightarrow> ws_inv s \<Longrightarrow> ws_inv s'"
proof (induction rule: ws_step.induct)
  case (step_process env s)
  from process_fsm_state_inv [OF push_arrivals_inv [OF step_process(2)], of env env] show ?case
    unfolding ws_process_def by (rule ws_inv_cong) simp_all
next
  case (step_shutdown env s)
  from process_fsm_state_inv [OF push_arrivals_inv [OF step_shutdown(2)], of env env] show ?case
    unfolding shutdown_iteration_def by (rule ws_inv_cong) simp_all
qed (auto simp: ws_request_defs split: list.split elim!: ws_inv_cong)

lemma ws_reachable_inv: "ws_reachable s \<Longrightarrow> ws_inv s"
  by (induction rule: ws_reachable.induct) (auto simp: ws_inv_init intro: ws_step_inv)

end
