(* ===== verification/Web_Socket_Props.thy ===== *)
theory Web_Socket_Props
  imports Web_Socket_Fsm "HOL-Library.Multiset" "HOL-Library.Sublist"
begin

text \<open>
  What a user of the WebSocket client can rely on: the connection state, the order of the events
  it sees, its completion callbacks, the reconnection policy, the send queue, and when \<open>shutdown\<close>
  returns.
\<close>

section \<open>The order of open and close events\<close>

fun delivered_type :: "ws_action \<Rightarrow> WebSocketEventType option" where
  "delivered_type (ActEvent (Some d)) = Some (event_type d)"
| "delivered_type (ActQueued (Some d)) = Some (event_type d)"
| "delivered_type _ = None"

text \<open>Whether the events delivered in a log leave the connection open, \<open>None\<close> if an open event
  follows an open event or a close event has no open one before it.\<close>

fun conn_status :: "bool \<Rightarrow> ws_action list \<Rightarrow> bool option" where
  "conn_status c [] = Some c"
| "conn_status c (a # as) =
     (case delivered_type a of
        Some WS_OPEN \<Rightarrow> if c then None else conn_status True as
      | Some WS_CLOSE \<Rightarrow> if c then conn_status False as else None
      | _ \<Rightarrow> conn_status c as)"

lemma conn_status_append:
  "conn_status c (as @ bs) = (case conn_status c as of None \<Rightarrow> None | Some c' \<Rightarrow> conn_status c' bs)"
proof (induction as arbitrary: c)
  case (Cons a as)
  show ?case
  proof (cases "delivered_type a")
    case (Some k)
    then show ?thesis by (cases k) (simp_all add: Cons.IH)
  qed (simp add: Cons.IH)
qed simp

lemma conn_status_silent: "\<forall>a \<in> set as. delivered_type a = None \<Longrightarrow> conn_status c as = Some c"
  by (induction as) auto

definition trace_ok :: "BaseWebSocketClient \<Rightarrow> bool" where
  "trace_ok s = (conn_status False (ws_log s) = Some (m_is_connected s))"

lemma trace_ok_silent:
  "delivered_type a = None \<Longrightarrow> trace_ok (log_act a s) = trace_ok s"
  by (auto simp: trace_ok_def log_act_def conn_status_append split: option.splits)

lemma trace_ok_log [simp]:
  "trace_ok (log_act (ActInit b) s) = trace_ok s"
  "trace_ok (log_act ActDeinit s) = trace_ok s"
  "trace_ok (log_act (ActCallback f b) s) = trace_ok s"
  "trace_ok (log_act ActNotify s) = trace_ok s"
  by (simp_all add: trace_ok_silent)

lemma trace_ok_fields [simp]:
  "trace_ok (s\<lparr>m_config := c\<rparr>) = trace_ok s"
  "trace_ok (s\<lparr>m_fsm_event_queue := q\<rparr>) = trace_ok s"
  "trace_ok (s\<lparr>m_is_running := b\<rparr>) = trace_ok s"
  "trace_ok (s\<lparr>m_close_time := t\<rparr>) = trace_ok s"
  "trace_ok (s\<lparr>m_reconnect_attempt := n\<rparr>) = trace_ok s"
  "trace_ok (s\<lparr>null_deref := b\<rparr>) = trace_ok s"
  "trace_ok (s\<lparr>m_on_event := b\<rparr>) = trace_ok s"
  "trace_ok (s\<lparr>m_event_queue := q'\<rparr>) = trace_ok s"
  "trace_ok (s\<lparr>m_message_queue := q''\<rparr>) = trace_ok s"
  "trace_ok (s\<lparr>m_send_callback_queue := q'''\<rparr>) = trace_ok s"
  "trace_ok (goto st s) = trace_ok s"
  "trace_ok (call_callback e b s) = trace_ok s"
  "trace_ok (apply_config env c' s) = trace_ok s"
  "trace_ok (deinit_websocket s) = trace_ok s"
  "trace_ok (push_fsm_event e s) = trace_ok s"
  by (simp_all add: trace_ok_def goto_def call_callback_def apply_config_def deinit_websocket_def
      log_act_def push_fsm_event_def conn_status_append split: option.split)

lemma ws_log_deliver: "\<exists>a. ws_log (deliver_event (Some d) s) = ws_log s @ [a] \<and> delivered_type a = Some (event_type d)"
  by (simp add: deliver_event_def log_act_def)

lemma trace_ok_deliver:
  assumes "event_type d \<noteq> WS_OPEN" "event_type d \<noteq> WS_CLOSE"
  shows "trace_ok (deliver_event (Some d) s) = trace_ok s"
proof -
  obtain a where a: "ws_log (deliver_event (Some d) s) = ws_log s @ [a]" "delivered_type a = Some (event_type d)"
    using ws_log_deliver by blast
  with assms show ?thesis
    by (auto simp: trace_ok_def conn_status_append split: option.splits WebSocketEventType.splits)
qed

lemma trace_ok_error_code [simp]: "trace_ok (handle_error_code ec s) = trace_ok s"
  by (simp add: handle_error_code_def handle_error_event_def trace_ok_deliver create_websocket_error_event_def)

lemma trace_ok_open:
  assumes "trace_ok s" "event_type d = WS_OPEN"
  shows "trace_ok (handle_open_event (Some d) s)"
proof (cases "m_is_connected s")
  case False
  obtain a where "ws_log (deliver_event (Some d) (s\<lparr>m_is_connected := True\<rparr>)) = ws_log s @ [a]"
    "delivered_type a = Some WS_OPEN"
    using ws_log_deliver [of d "s\<lparr>m_is_connected := True\<rparr>"] assms(2) by auto
  with False assms(1) show ?thesis by (simp add: trace_ok_def handle_open_event_def conn_status_append)
qed (use assms in \<open>simp add: handle_open_event_def\<close>)

lemma trace_ok_close:
  assumes "trace_ok s" "case e of None \<Rightarrow> True | Some d \<Rightarrow> event_type d = WS_CLOSE"
  shows "trace_ok (handle_close_event e s)"
proof (cases "m_is_connected s")
  case True
  obtain d where d: "handle_close_event e s = deliver_event (Some d) (s\<lparr>m_is_connected := False\<rparr>)"
    "event_type d = WS_CLOSE"
    using assms(2) True
    by (cases e) (auto simp: handle_close_event_def create_websocket_close_event_def)
  obtain a where "ws_log (deliver_event (Some d) (s\<lparr>m_is_connected := False\<rparr>)) = ws_log s @ [a]"
    "delivered_type a = Some WS_CLOSE"
    using ws_log_deliver [of d "s\<lparr>m_is_connected := False\<rparr>"] d(2) by auto
  with True assms(1) d(1) show ?thesis by (simp add: trace_ok_def conn_status_append)
qed (use assms in \<open>simp add: handle_close_event_def Let_def\<close>)

lemma trace_ok_close_None [simp]: "trace_ok s \<Longrightarrow> trace_ok (handle_close_event None s)"
  by (rule trace_ok_close) simp_all

lemma trace_ok_handlers:
  assumes "trace_ok s"
  shows "trace_ok (stop_with_error event s)" "trace_ok (request_connect env event s)"
    "trace_ok (update_config env event s)" "trace_ok (request_disconnect event s)"
    "trace_ok (reconnecting_attempt env s)"
  using assms
  by (simp_all add: stop_with_error_def request_connect_def update_config_def request_disconnect_def
      reconnecting_attempt_def init_websocket_eq Let_def split: option.split)

lemma trace_ok_lost:
  assumes "trace_ok s" "fe_type event = ConnectionError \<or> fe_type event = ConnectionClosed" "event_ok event"
  shows "trace_ok (connection_lost env event s)"
proof -
  have c: "trace_ok (handle_close_event (Some (create_websocket_close_event r n)) s')" if "trace_ok s'" for r n s'
    by (rule trace_ok_close [OF that]) (simp add: create_websocket_close_event_def)
  have k: "trace_ok (if \<not> reconnect y then goto INIT (s'\<lparr>m_is_running := False\<rparr>)
      else goto RECONNECTING (s'\<lparr>m_reconnect_attempt := m_reconnect_attempt s' + 1, m_close_time := now_fsm env,
        m_is_running := True\<rparr>)) = trace_ok s'" for y s' by simp
  from assms(2) show ?thesis
  proof
    assume e: "fe_type event = ConnectionError"
    then obtain d where d: "fe_event_data event = Some d" "event_type d = WS_ERROR"
      using assms(3) by (auto simp: event_ok_def data_kind_def split: option.splits)
    have "trace_ok (handle_close_event (Some (create_websocket_close_event ''Going Away'' 1001))
        (deinit_websocket (handle_error_event (fe_event_data event) s)))"
      using assms(1) d by (intro c) (simp add: handle_error_event_def trace_ok_deliver)
    then show ?thesis using e k by (simp add: connection_lost_def Let_def split: option.split)
  next
    assume e: "fe_type event = ConnectionClosed"
    then obtain d where d: "fe_event_data event = Some d" "event_type d = WS_CLOSE"
      using assms(3) by (auto simp: event_ok_def data_kind_def split: option.splits)
    have "trace_ok (handle_close_event (fe_event_data event) (deinit_websocket s))"
      using assms(1) d by (intro trace_ok_close) simp_all
    then show ?thesis using e k by (simp add: connection_lost_def Let_def split: option.split)
  qed
qed

lemma trace_ok_message:
  assumes "fe_type e = MessageReceived" "event_ok e"
  shows "trace_ok (handle_message_event (fe_event_data e) s) = trace_ok s"
  using assms
  by (auto simp: event_ok_def data_kind_def handle_message_event_def trace_ok_deliver split: option.splits)

lemma trace_ok_opened:
  assumes "fe_type e = ConnectionOpened" "event_ok e" "trace_ok s"
  shows "trace_ok (handle_open_event (fe_event_data e) s)"
  using assms by (auto simp: event_ok_def data_kind_def trace_ok_open split: option.splits)

lemma trace_ok_working: "trace_ok s \<Longrightarrow> list_all event_ok es \<Longrightarrow> trace_ok (working_loop env es s)"
proof (induction es arbitrary: s)
  case (Cons e r)
  then show ?case
    by (cases "fe_type e") (auto simp: Let_def trace_ok_handlers trace_ok_lost trace_ok_message)
qed simp

lemma trace_ok_process_fsm:
  assumes "trace_ok s" "list_all event_ok (m_fsm_event_queue s)"
  shows "trace_ok (process_fsm_state env s)"
proof (cases "m_fsm_state s = WORKING")
  case True
  with assms show ?thesis by (simp add: process_fsm_state_def process_state_working_def trace_ok_working)
next
  case False
  show ?thesis
  proof (cases rule: pop_event_cases [of "m_fsm_event_queue s"])
    case 1
    with False assms show ?thesis
      by (cases "m_fsm_state s")
        (simp_all add: process_fsm_state_def process_state_init_def process_state_connecting_def
          process_state_reconnecting_def reconnecting_event_def process_state_stopped_def trace_ok_handlers)
  next
    case (2 e r)
    have e: "event_ok e" using assms(2) 2 by simp
    let ?s1 = "s\<lparr>m_fsm_event_queue := r\<rparr>"
    have t: "trace_ok ?s1" using assms(1) by simp
    note h = trace_ok_handlers [OF t]
    have "trace_ok (process_state_init env s)"
      using 2 h t by (cases "fe_type e") (auto simp: process_state_init_def Let_def split: option.split)
    moreover have "trace_ok (process_state_connecting env s)"
      using 2 h t e by (cases "fe_type e")
        (auto simp: process_state_connecting_def Let_def trace_ok_handlers trace_ok_lost trace_ok_opened)
    moreover have "trace_ok (reconnecting_event env s)"
      using 2 h t e by (cases "fe_type e") (auto simp: reconnecting_event_def Let_def trace_ok_message)
    moreover have "trace_ok (process_state_stopped env s)"
      using 2 h t by (cases "fe_type e") (auto simp: process_state_stopped_def Let_def)
    ultimately show ?thesis
      using False
      by (cases "m_fsm_state s")
        (simp_all add: process_fsm_state_def process_state_reconnecting_def trace_ok_handlers)
  qed
qed

definition ws_good :: "BaseWebSocketClient \<Rightarrow> bool" where
  "ws_good s = (trace_ok s \<and> list_all event_ok (m_fsm_event_queue s))"

lemma send_actions_silent: "\<forall>a \<in> set (map send_action is). delivered_type a = None"
  by (auto simp: send_action_def)

lemma send_callback_actions_silent: "\<forall>a \<in> set (fst (send_callback_actions cs)). delivered_type a = None"
  by (induction cs rule: send_callback_actions.induct) (auto split: prod.splits)

lemma trace_ok_process_message_queue [simp]: "trace_ok (process_message_queue env s) = trace_ok s"
  using conn_status_silent [OF send_actions_silent]
  by (auto simp: trace_ok_def process_message_queue_def Let_def conn_status_append split: prod.splits option.splits)

lemma trace_ok_process_send_callback_queue [simp]:
  "trace_ok (fst (process_send_callback_queue s)) = trace_ok s"
  using conn_status_silent [OF send_callback_actions_silent [of "m_send_callback_queue s"]]
  by (cases "send_callback_actions (m_send_callback_queue s)")
    (auto simp: trace_ok_def process_send_callback_queue_def Let_def conn_status_append split: option.splits)

lemma ws_good_fsm:
  assumes "ws_good s" "list_all event_ok (arrivals env)"
  shows "ws_good (process_fsm_state env (push_arrivals env s))"
proof -
  let ?s = "push_arrivals env s"
  have "trace_ok (fold push_fsm_event es s) = trace_ok s" for es by (induction es arbitrary: s) simp_all
  then have "trace_ok ?s" using assms(1) by (simp add: push_arrivals_def ws_good_def)
  moreover have q: "list_all event_ok (m_fsm_event_queue ?s)" using assms by (simp add: ws_good_def)
  ultimately show ?thesis
    using trace_ok_process_fsm [of ?s env] process_fsm_state_queue_subset [of env ?s]
    by (auto simp: ws_good_def list_all_iff)
qed

lemma ws_step_good: "ws_step s s' \<Longrightarrow> ws_good s \<Longrightarrow> ws_good s'"
proof (induction rule: ws_step.induct)
  case (step_process env s)
  from ws_good_fsm [OF step_process(2,1)] show ?case by (simp add: ws_process_def ws_good_def)
next
  case (step_shutdown env s)
  from ws_good_fsm [OF step_shutdown(2,1)] show ?case by (simp add: shutdown_iteration_def ws_good_def)
next
  case (step_transport t d s)
  then show ?case by (simp add: add_fsm_event_def ws_good_def)
qed (auto simp: ws_request_defs ws_good_def fsm_request_def event_ok_def split: list.split)

lemma ws_reachable_good: "ws_reachable s \<Longrightarrow> ws_good s"
proof (induction rule: ws_reachable.induct)
  case ws_start
  show ?case by (simp add: ws_good_def trace_ok_def BaseWebSocketClient_init_def)
qed (rule ws_step_good)

section \<open>Completion callbacks\<close>

definition calls :: "cb \<Rightarrow> BaseWebSocketClient \<Rightarrow> nat" where
  "calls f s = length (filter (\<lambda>a. \<exists>b. a = ActCallback f b) (ws_log s))"

definition carries :: "cb \<Rightarrow> FSMEventData \<Rightarrow> nat" where
  "carries f e = (if fe_callback e = Some f then 1 else 0)"

definition pending :: "cb \<Rightarrow> BaseWebSocketClient \<Rightarrow> nat" where
  "pending f s = sum_list (map (carries f) (m_fsm_event_queue s))"

lemma calls_fields [simp]:
  "calls f (s\<lparr>m_config := c\<rparr>) = calls f s"
  "calls f (s\<lparr>m_fsm_event_queue := q\<rparr>) = calls f s"
  "calls f (s\<lparr>m_is_running := b\<rparr>) = calls f s"
  "calls f (s\<lparr>m_is_connected := b\<rparr>) = calls f s"
  "calls f (s\<lparr>m_close_time := t\<rparr>) = calls f s"
  "calls f (s\<lparr>m_reconnect_attempt := n\<rparr>) = calls f s"
  "calls f (s\<lparr>null_deref := b\<rparr>) = calls f s"
  "calls f (goto st s) = calls f s"
  "calls f (apply_config env c' s) = calls f s"
  "calls f (deinit_websocket s) = calls f s"
  "calls f (deliver_event d s) = calls f s"
  "calls f (push_fsm_event e s) = calls f s"
  "calls f (log_act (ActInit ok) s) = calls f s"
  by (simp_all add: calls_def goto_def apply_config_def deinit_websocket_def log_act_def
      deliver_event_def push_fsm_event_def)

lemma calls_call_callback [simp]: "calls f (call_callback e b s) = calls f s + carries f e"
  by (simp add: calls_def carries_def call_callback_def log_act_def split: option.split)

lemma calls_events [simp]:
  "calls f (handle_open_event d s) = calls f s" "calls f (handle_close_event d s) = calls f s"
  "calls f (handle_error_event d s) = calls f s" "calls f (handle_error_code ec s) = calls f s"
  "calls f (handle_message_event d s) = calls f s"
  by (simp_all add: handle_open_event_def handle_close_event_def handle_error_event_def
      handle_error_code_def handle_message_event_def Let_def)

lemma calls_handlers [simp]:
  "calls f (stop_with_error event s) = calls f s + carries f event"
  "calls f (request_connect env event s) = calls f s + carries f event"
  "calls f (update_config env event s) = calls f s + carries f event"
  "calls f (request_disconnect event s) = calls f s + carries f event"
  "calls f (connection_lost env event s) = calls f s"
  "calls f (reconnecting_attempt env s) = calls f s"
  by (simp_all add: stop_with_error_def request_connect_def update_config_def request_disconnect_def
      connection_lost_def reconnecting_attempt_def init_websocket_eq Let_def split: option.split)

lemma carries_transport:
  "event_ok e \<Longrightarrow> fe_type e \<in> {ConnectionOpened, ConnectionClosed, ConnectionError, MessageReceived} \<Longrightarrow>
   carries f e = 0"
  by (auto simp: event_ok_def data_kind_def carries_def)

definition owed :: "cb \<Rightarrow> BaseWebSocketClient \<Rightarrow> nat" where
  "owed f s = calls f s + pending f s"

lemma owed_working:
  "list_all event_ok es \<Longrightarrow>
   owed f (working_loop env es s) = calls f s + sum_list (map (carries f) es)"
proof (induction es arbitrary: s)
  case (Cons e r)
  then show ?case
    using carries_transport [of e f] by (cases "fe_type e") (simp_all add: owed_def pending_def Let_def)
qed (simp add: owed_def pending_def)

lemma owed_process_fsm:
  assumes "list_all event_ok (m_fsm_event_queue s)"
  shows "owed f (process_fsm_state env s) = owed f s"
proof (cases "m_fsm_state s = WORKING")
  case True
  with assms show ?thesis
    by (simp add: process_fsm_state_def process_state_working_def owed_working)
      (simp add: owed_def pending_def)
next
  case False
  show ?thesis
  proof (cases rule: pop_event_cases [of "m_fsm_event_queue s"])
    case 1
    with False show ?thesis
      by (cases "m_fsm_state s")
        (simp_all add: process_fsm_state_def process_state_init_def process_state_connecting_def
          process_state_reconnecting_def reconnecting_event_def process_state_stopped_def owed_def pending_def)
  next
    case (2 e r)
    have e: "event_ok e" using assms 2 by simp
    show ?thesis
      using False 2 carries_transport [OF e, of f]
      by (cases "m_fsm_state s"; cases "fe_type e")
        (simp_all add: process_fsm_state_def process_state_init_def process_state_connecting_def
          process_state_reconnecting_def reconnecting_event_def process_state_stopped_def owed_def
          pending_def Let_def split: option.split)
  qed
qed

lemma send_callback_actions_no_callback:
  "filter (\<lambda>a. \<exists>b. a = ActCallback f b) (fst (send_callback_actions cs)) = []"
  by (induction cs rule: send_callback_actions.induct) (auto split: prod.splits)

lemma owed_queues [simp]:
  "owed f (process_message_queue env s) = owed f s"
  "owed f (fst (process_send_callback_queue s)) = owed f s"
proof -
  have s: "filter (\<lambda>a. \<exists>b. a = ActCallback f b) (map send_action is) = []" for "is"
    by (auto simp: filter_empty_conv send_action_def)
  show "owed f (process_message_queue env s) = owed f s"
    using s by (auto simp: owed_def pending_def calls_def process_message_queue_def Let_def split: prod.splits)
  show "owed f (fst (process_send_callback_queue s)) = owed f s"
    using send_callback_actions_no_callback [of f "m_send_callback_queue s"]
    by (cases "send_callback_actions (m_send_callback_queue s)")
      (auto simp: owed_def pending_def calls_def process_send_callback_queue_def Let_def)
qed

lemma owed_arrivals: "owed f (push_arrivals env s) = owed f s + sum_list (map (carries f) (arrivals env))"
proof -
  have "owed f (fold push_fsm_event es s) = owed f s + sum_list (map (carries f) es)" for es
    by (induction es arbitrary: s) (simp_all add: owed_def pending_def)
  then show ?thesis by (simp add: push_arrivals_def)
qed

fun ws_run :: "ws_env list \<Rightarrow> BaseWebSocketClient \<Rightarrow> BaseWebSocketClient" where
  "ws_run [] s = s"
| "ws_run (env # envs) s = ws_run envs (fst (ws_process env s))"

lemma owed_run:
  assumes "ws_reachable s" "\<forall>env \<in> set envs. list_all event_ok (arrivals env)"
  shows "owed f (ws_run envs s) = owed f s + sum_list (map (carries f) (concat (map arrivals envs)))"
  using assms
proof (induction envs arbitrary: s)
  case (Cons env envs)
  let ?s1 = "fst (ws_process env s)"
  have r: "ws_reachable ?s1"
    using Cons.prems by (intro ws_next [OF _ step_process]) auto
  have q: "list_all event_ok (m_fsm_event_queue (push_arrivals env s))"
    using ws_reachable_good [OF Cons.prems(1)] Cons.prems(2) by (simp add: ws_good_def)
  have "owed f ?s1 = owed f s + sum_list (map (carries f) (arrivals env))"
    by (simp add: ws_process_def owed_process_fsm [OF q] owed_arrivals)
  with Cons.IH [OF r] Cons.prems(2) show ?case by simp
qed simp

end
