(* ===== verification/Web_Socket_Guarantees.thy ===== *)
theory Web_Socket_Guarantees
  imports Web_Socket_Props
begin

text \<open>
  The guarantees of the WebSocket client, stated over its operations: connection state, event order,
  callbacks, reconnection, sending and shutdown.
\<close>

section \<open>Connection attempts\<close>

definition inits :: "BaseWebSocketClient \<Rightarrow> nat" where
  "inits s = length (filter (\<lambda>a. \<exists>b. a = ActInit b) (ws_log s))"

lemma inits_fields [simp]:
  "inits (s\<lparr>m_config := c\<rparr>) = inits s"
  "inits (s\<lparr>m_fsm_event_queue := q\<rparr>) = inits s"
  "inits (s\<lparr>m_is_running := b\<rparr>) = inits s"
  "inits (s\<lparr>m_is_connected := b\<rparr>) = inits s"
  "inits (s\<lparr>m_close_time := t\<rparr>) = inits s"
  "inits (s\<lparr>m_reconnect_attempt := n\<rparr>) = inits s"
  "inits (goto st s) = inits s"
  "inits (deinit_websocket s) = inits s"
  "inits (deliver_event d s) = inits s"
  "inits (push_fsm_event e s) = inits s"
  "inits (log_act (ActInit ok) s) = inits s + 1"
  by (simp_all add: inits_def goto_def deinit_websocket_def log_act_def deliver_event_def push_fsm_event_def)

lemma inits_queues [simp]:
  "inits (process_message_queue env s) = inits s"
  "inits (fst (process_send_callback_queue s)) = inits s"
proof -
  have s: "filter (\<lambda>a. \<exists>b. a = ActInit b) (map send_action is) = []" for "is"
    by (auto simp: filter_empty_conv send_action_def)
  show "inits (process_message_queue env s) = inits s"
    using s by (auto simp: inits_def process_message_queue_def Let_def split: prod.splits)
  have "filter (\<lambda>a. \<exists>b. a = ActInit b) (fst (send_callback_actions cs)) = []" for cs
    by (induction cs rule: send_callback_actions.induct) (auto split: prod.splits)
  from this [of "m_send_callback_queue s"] show "inits (fst (process_send_callback_queue s)) = inits s"
    by (cases "send_callback_actions (m_send_callback_queue s)")
      (auto simp: inits_def process_send_callback_queue_def Let_def)
qed

lemma close_time_queues [simp]:
  "m_close_time (process_message_queue env s) = m_close_time s"
  "m_close_time (fst (process_send_callback_queue s)) = m_close_time s"
  by (simp_all add: process_message_queue_def process_send_callback_queue_def Let_def split: prod.split)

lemma inits_events [simp]:
  "inits (handle_close_event d s) = inits s" "inits (handle_error_event d s) = inits s"
  by (simp_all add: handle_close_event_def handle_error_event_def Let_def)

lemma goto_close_time [simp]: "m_close_time (goto st s) = m_close_time s"
  by (simp add: goto_def)

lemma push_arrivals_one: "arrivals env = [e] \<Longrightarrow> push_arrivals env s = push_fsm_event e s"
  by (simp add: push_arrivals_def)

lemma push_arrivals_none: "arrivals env = [] \<Longrightarrow> push_arrivals env s = s"
  by (simp add: push_arrivals_def)

lemma connection_lost_step:
  assumes "m_fsm_state s = CONNECTING \<or> m_fsm_state s = WORKING" "m_config s = Some c" "reconnect c"
    and "m_fsm_event_queue s = []" "arrivals env = [e]"
    and "fe_type e = ConnectionClosed \<or> fe_type e = ConnectionError" "fst (ws_process env s) = s'"
  shows "m_fsm_state s' = RECONNECTING \<and> m_config s' = Some c \<and> m_fsm_event_queue s' = [] \<and>
    m_reconnect_attempt s' = m_reconnect_attempt s + 1 \<and> m_close_time s' = now_fsm env \<and> inits s' = inits s"
proof -
  let ?s1 = "push_fsm_event e s"
  have q: "m_fsm_event_queue ?s1 = [e]" "m_fsm_state ?s1 = m_fsm_state s" using assms(4) by simp_all
  have "process_fsm_state env ?s1 = connection_lost env e (?s1\<lparr>m_fsm_event_queue := []\<rparr>)"
    using assms(1,6) q
    by (auto simp: process_fsm_state_def process_state_connecting_def process_state_working_def
        pop_event_def Let_def)
  with assms(2,3,5,6) have "s' = fst (process_send_callback_queue (process_message_queue env
      (connection_lost env e (?s1\<lparr>m_fsm_event_queue := []\<rparr>))))"
    using assms(7) by (simp add: ws_process_def push_arrivals_one)
  with assms(2,3,6) show ?thesis by (auto simp: connection_lost_def Let_def)
qed

lemma reconnect_step:
  assumes "m_fsm_state s = RECONNECTING" "m_config s = Some c" "reconnect c"
    and "m_fsm_event_queue s = []" "arrivals env = []" "\<And>x. init_websocket_ok env x"
    and "reconnect_delay c \<le> duration_s (now_fsm env - m_close_time s)" "fst (ws_process env s) = s'"
  shows "if reconnect_attempts c \<noteq> 0 \<and> reconnect_attempts c \<le> m_reconnect_attempt s
    then m_fsm_state s' = INIT \<and> \<not> m_is_running s' \<and> inits s' = inits s
    else m_fsm_state s' = CONNECTING \<and> m_config s' = Some c \<and> m_fsm_event_queue s' = [] \<and>
      m_reconnect_attempt s' = m_reconnect_attempt s \<and> inits s' = inits s + 1"
proof -
  have "s' = fst (process_send_callback_queue (process_message_queue env (reconnecting_attempt env s)))"
    using assms by (simp add: ws_process_def push_arrivals_none process_fsm_state_def
        process_state_reconnecting_def reconnecting_event_def pop_event_def)
  with assms show ?thesis by (simp add: reconnecting_attempt_def init_websocket_eq)
qed

section \<open>Guarantees\<close>

definition wit_env :: "FSMEventData list \<Rightarrow> ws_env" where
  "wit_env es = \<lparr>init_websocket_ok = (\<lambda>_. True), now_set_limit = 0, now_fsm = 7000000000,
     now_message = (\<lambda>_. wit_ws_clock 7000000000), arrivals = es\<rparr>"

definition wit_opened :: FSMEventData where
  "wit_opened = \<lparr>fe_type = ConnectionOpened, fe_event_data = Some create_websocket_event,
     fe_config_data = None, fe_callback = None\<rparr>"

definition wit_closed :: FSMEventData where
  "wit_closed = \<lparr>fe_type = ConnectionClosed,
     fe_event_data = Some (create_websocket_close_event ''bye'' 1000), fe_config_data = None, fe_callback = None\<rparr>"

definition wit_cfg :: WebSocketConfig where
  "wit_cfg = WebSocketConfig_default\<lparr>reconnect_attempts := 2, reconnect_delay := 0\<rparr>"

definition wit_connecting :: BaseWebSocketClient where
  "wit_connecting = ws_run [wit_env [fsm_request UpdateConfig (Some wit_cfg) (Some 1)],
     wit_env [fsm_request RequestConnect None (Some 2)]] BaseWebSocketClient_init"

definition wit_working :: BaseWebSocketClient where
  "wit_working = ws_run [wit_env [wit_opened]] wit_connecting"

lemma ws_run_reachable:
  "ws_reachable s \<Longrightarrow> \<forall>env \<in> set envs. list_all event_ok (arrivals env) \<Longrightarrow> ws_reachable (ws_run envs s)"
  by (induction envs arbitrary: s) (auto intro: ws_next step_process)

lemma wit_connecting_reachable: "ws_reachable wit_connecting"
  unfolding wit_connecting_def
  by (rule ws_run_reachable [OF ws_start]) (simp add: wit_env_def event_ok_def fsm_request_def)

lemma wit_working_reachable: "ws_reachable wit_working"
  unfolding wit_working_def
  by (rule ws_run_reachable [OF wit_connecting_reachable])
    (simp add: wit_env_def event_ok_def wit_opened_def data_kind_def create_websocket_event_def)

text \<open>
  C18: the connection state of a WebSocket client. In every reachable state the client reports itself
  connected exactly in the state WORKING; while it is connecting, working or reconnecting it is
  running and has a configuration; in INIT it is not running; and the null configuration is never
  dereferenced.
\<close>

theorem ws_state_consistent:
  assumes "ws_reachable s"
  shows "(is_connected s \<longleftrightarrow> m_fsm_state s = WORKING) \<and>
    (m_fsm_state s \<in> {CONNECTING, WORKING, RECONNECTING} \<longrightarrow> ws_is_running s \<and> m_config s \<noteq> None) \<and>
    (m_fsm_state s = INIT \<longrightarrow> \<not> m_is_running s) \<and> \<not> null_deref s"
  using ws_reachable_inv [OF assms]
  by (auto simp: ws_inv_def active_state_def is_connected_def ws_is_running_def)

theorem ws_state_consistent_witness:
  "m_fsm_state wit_working = WORKING \<and> is_connected wit_working \<and> ws_is_running wit_working"
proof -
  have "m_fsm_state wit_working = WORKING" by code_simp
  with ws_state_consistent [OF wit_working_reachable] show ?thesis by simp
qed

text \<open>
  C5: every completion callback is called exactly once. Whatever happens on the connection, once the
  client has worked off its event queue, the number of calls of a callback is the number of requests
  (\<^verbatim>\<open>connect\<close>, \<^verbatim>\<open>disconnect\<close>, \<^verbatim>\<open>set_config\<close>) that carried it.
\<close>

theorem ws_callbacks_exactly_once:
  assumes "ws_reachable s" "\<forall>env \<in> set envs. list_all event_ok (arrivals env)"
    and "\<not> has_events (m_fsm_event_queue (ws_run envs s))"
  shows "calls f (ws_run envs s) =
    calls f s + pending f s + sum_list (map (carries f) (concat (map arrivals envs)))"
proof -
  have "pending f (ws_run envs s) = 0" using assms(3) by (simp add: pending_def has_events_def)
  with owed_run [OF assms(1,2), of f] show ?thesis by (simp add: owed_def)
qed

theorem ws_callbacks_exactly_once_witness:
  "calls 2 (ws_run [wit_env [wit_closed], wit_env []] (ws_connect (Some 2) wit_working)) = 2"
proof -
  let ?s = "ws_connect (Some 2) wit_working" and ?e = "[wit_env [wit_closed], wit_env []]"
  have r: "ws_reachable ?s" by (rule ws_next [OF wit_working_reachable step_connect])
  have e: "\<forall>env \<in> set ?e. list_all event_ok (arrivals env)"
    by (simp add: wit_env_def event_ok_def wit_closed_def data_kind_def create_websocket_close_event_def)
  have q: "\<not> has_events (m_fsm_event_queue (ws_run ?e ?s))" by code_simp
  have "calls 2 ?s + pending 2 ?s + sum_list (map (carries 2) (concat (map arrivals ?e))) = 2" by code_simp
  with ws_callbacks_exactly_once [OF r e q, of 2] show ?thesis by simp
qed

text \<open>
  C29: the number of reconnections. When every attempt to connect fails and the delay between attempts
  passes each time, a client with \<^verbatim>\<open>reconnect_attempts\<close> = \<open>n\<close> > 0 stays alive through \<open>n\<close> lost
  connections, the first included, and then goes back to INIT: it makes \<open>n - 1\<close> reconnections. One
  round is the loss of the connection and the next call of \<^verbatim>\<open>process\<close> after the delay.
\<close>

theorem ws_reconnect_rounds:
  fixes s :: BaseWebSocketClient
  assumes "m_fsm_state s = CONNECTING" "m_config s = Some c" "reconnect c"
    and "reconnect_attempts c = int n" "0 < n" "m_reconnect_attempt s = 0" "m_fsm_event_queue s = []"
    and "arrivals env1 = [e]" "fe_type e = ConnectionClosed \<or> fe_type e = ConnectionError"
    and "arrivals env2 = []" "\<And>x. init_websocket_ok env2 x"
    and "reconnect_delay c \<le> duration_s (now_fsm env2 - now_fsm env1)"
    and "\<And>x. round x = fst (ws_process env2 (fst (ws_process env1 x)))"
  shows "(k < n \<longrightarrow> m_fsm_state ((round ^^ k) s) = CONNECTING \<and> inits ((round ^^ k) s) = inits s + k) \<and>
    m_fsm_state ((round ^^ n) s) = INIT \<and> \<not> m_is_running ((round ^^ n) s) \<and>
    inits ((round ^^ n) s) = inits s + (n - 1)"
proof -
  have one: "if int n \<le> m_reconnect_attempt x + 1
    then m_fsm_state (round x) = INIT \<and> \<not> m_is_running (round x) \<and> inits (round x) = inits x
    else m_fsm_state (round x) = CONNECTING \<and> m_config (round x) = Some c \<and>
      m_fsm_event_queue (round x) = [] \<and> m_reconnect_attempt (round x) = m_reconnect_attempt x + 1 \<and>
      inits (round x) = inits x + 1"
    if "m_fsm_state x = CONNECTING" "m_config x = Some c" "m_fsm_event_queue x = []" for x
  proof -
    let ?y = "fst (ws_process env1 x)"
    have y: "m_fsm_state ?y = RECONNECTING \<and> m_config ?y = Some c \<and> m_fsm_event_queue ?y = [] \<and>
      m_reconnect_attempt ?y = m_reconnect_attempt x + 1 \<and> m_close_time ?y = now_fsm env1 \<and> inits ?y = inits x"
      using connection_lost_step [OF _ that(2) assms(3) that(3) assms(8,9) refl] that(1) by blast
    with reconnect_step [of ?y c env2 "round x"] assms(3,4,5,10,11,12,13) show ?thesis by auto
  qed
  have lt: "m_fsm_state ((round ^^ j) s) = CONNECTING \<and> m_config ((round ^^ j) s) = Some c \<and>
      m_fsm_event_queue ((round ^^ j) s) = [] \<and> m_reconnect_attempt ((round ^^ j) s) = int j \<and>
      inits ((round ^^ j) s) = inits s + j" if "j < n" for j
    using that
  proof (induction j)
    case (Suc j)
    then show ?case using one [of "(round ^^ j) s"] by simp
  qed (use assms in simp)
  obtain j where j: "n = Suc j" using assms(5) by (cases n) auto
  have "m_fsm_state (round ((round ^^ j) s)) = INIT \<and> \<not> m_is_running (round ((round ^^ j) s)) \<and>
      inits (round ((round ^^ j) s)) = inits s + j"
    using one [of "(round ^^ j) s"] lt [of j] j by simp
  with lt [of k] j show ?thesis by simp
qed

theorem ws_reconnect_rounds_witness:
  "inits (((\<lambda>x. fst (ws_process (wit_env []) (fst (ws_process (wit_env [wit_closed]) x)))) ^^ 2) wit_connecting) = 2 \<and>
   m_fsm_state (((\<lambda>x. fst (ws_process (wit_env []) (fst (ws_process (wit_env [wit_closed]) x)))) ^^ 2) wit_connecting) = INIT"
proof -
  have h: "m_fsm_state wit_connecting = CONNECTING" "m_reconnect_attempt wit_connecting = 0"
    "m_fsm_event_queue wit_connecting = []" "inits wit_connecting = 1" by code_simp+
  have c: "m_config wit_connecting = Some wit_cfg"
    by (simp add: wit_connecting_def wit_env_def ws_process_def push_arrivals_def process_fsm_state_def
        BaseWebSocketClient_init_def process_state_init_def push_fsm_event_def push_event_def pop_event_def
        fsm_request_def request_connect_def init_websocket_eq)
  from ws_reconnect_rounds [OF h(1) c _ _ _ h(2,3), where n = 2 and e = wit_closed and k = 1 and
      ?env1.0 = "wit_env [wit_closed]" and ?env2.0 = "wit_env []"
      and round = "\<lambda>x. fst (ws_process (wit_env []) (fst (ws_process (wit_env [wit_closed]) x)))"]
  show ?thesis
    using h(4)
    by (simp add: wit_cfg_def WebSocketConfig_default_def wit_env_def wit_closed_def duration_s_def trunc_div_def)
qed

section \<open>Sending\<close>

lemma scan_messages_partition:
  "scan_messages t k m is = (kept, sent, m') \<Longrightarrow>
   subseq kept is \<and> subseq sent is \<and> mset kept + mset sent = mset is"
proof (induction "is" arbitrary: k m kept sent m')
  case (Cons i "is")
  obtain m1 ok where a: "ws_allow_request (si_rate_limit_id i) (t k) m = (m1, ok)" by fastforce
  obtain kept1 sent1 m2 where b: "scan_messages t (k + 1) m1 is = (kept1, sent1, m2)" by (cases rule: prod_cases3)
  from Cons.IH [OF b] Cons.prems a b show ?case
    by (cases ok) (auto intro: list_emb_Cons)
qed simp


text \<open>
  Admission to the send queue. A message is accepted exactly when it is not empty, the client is
  connected and the queue has room; an accepted message is appended, a rejected one changes nothing
  and is reported with the error that names the reason; and a bounded queue never grows beyond its
  bound through \<^verbatim>\<open>submit_message\<close>.
\<close>

theorem ws_submit_message_contract:
  "case submit_message msg rid f s of (s', r) \<Rightarrow>
     (accepted r \<longleftrightarrow> msg \<noteq> [] \<and> is_connected s \<and>
        (m_max_send_queue_size s = 0 \<or> length (m_message_queue s) < m_max_send_queue_size s)) \<and>
     (if accepted r
      then submit_error r = no_error \<and> (\<exists>i. m_message_queue s' = m_message_queue s @ [i] \<and>
        si_message i = msg \<and> si_rate_limit_id i = rid \<and> si_callback i = f)
      else s' = s \<and> submit_error r = client_error
        (if msg = [] then InvalidConfiguration else if is_connected s then QueueLimitExceeded else NotConnected)) \<and>
     (m_max_send_queue_size s = 0 \<or>
        length (m_message_queue s') \<le> max (length (m_message_queue s)) (m_max_send_queue_size s))"
  by (auto simp: submit_message_def Let_def)

section \<open>Shutdown\<close>

lemma callback_queue_frame [simp]:
  "m_send_callback_queue (log_act a s) = m_send_callback_queue s"
  "m_send_callback_queue (deliver_event e s) = m_send_callback_queue s"
  "m_send_callback_queue (call_callback ev b s) = m_send_callback_queue s"
  "m_send_callback_queue (goto st s) = m_send_callback_queue s"
  "m_send_callback_queue (apply_config env c s) = m_send_callback_queue s"
  "m_send_callback_queue (push_fsm_event ev s) = m_send_callback_queue s"
  by (simp_all add: log_act_def deliver_event_def call_callback_def goto_def apply_config_def
      push_fsm_event_def split: option.split)

lemma callback_queue_handlers [simp]:
  "m_send_callback_queue (stop_with_error ev s) = m_send_callback_queue s"
  "m_send_callback_queue (request_connect env ev s) = m_send_callback_queue s"
  "m_send_callback_queue (update_config env ev s) = m_send_callback_queue s"
  "m_send_callback_queue (connection_lost env ev s) = m_send_callback_queue s"
  "m_send_callback_queue (request_disconnect ev s) = m_send_callback_queue s"
  "m_send_callback_queue (reconnecting_attempt env s) = m_send_callback_queue s"
  "m_send_callback_queue (handle_open_event d s) = m_send_callback_queue s"
  "m_send_callback_queue (handle_close_event d s) = m_send_callback_queue s"
  "m_send_callback_queue (handle_message_event d s) = m_send_callback_queue s"
  "m_send_callback_queue (deinit_websocket s) = m_send_callback_queue s"
  by (simp_all add: stop_with_error_def request_connect_def update_config_def connection_lost_def
      request_disconnect_def reconnecting_attempt_def init_websocket_eq handle_open_event_def
      handle_close_event_def handle_message_event_def handle_error_code_def handle_error_event_def
      deinit_websocket_def Let_def split: option.split)

lemma callback_queue_working [simp]: "m_send_callback_queue (working_loop env es s) = m_send_callback_queue s"
proof (induction es arbitrary: s)
  case (Cons e r)
  then show ?case by (cases "fe_type e") (simp_all add: Let_def)
qed simp

lemma callback_queue_fsm [simp]: "m_send_callback_queue (process_fsm_state env s) = m_send_callback_queue s"
proof (cases rule: pop_event_cases [of "m_fsm_event_queue s"])
  case 1
  then show ?thesis
    by (cases "m_fsm_state s")
      (simp_all add: process_fsm_state_def process_state_init_def process_state_connecting_def
        process_state_working_def process_state_reconnecting_def reconnecting_event_def process_state_stopped_def)
next
  case (2 e r)
  then show ?thesis
    by (cases "m_fsm_state s"; cases "fe_type e")
      (simp_all add: process_fsm_state_def process_state_init_def process_state_connecting_def
        process_state_working_def process_state_reconnecting_def reconnecting_event_def
        process_state_stopped_def Let_def split: option.split)
qed

definition callbacks_set :: "BaseWebSocketClient \<Rightarrow> bool" where
  "callbacks_set s = list_all (\<lambda>(_, f). f \<noteq> None) (m_send_callback_queue s)"

lemma send_callbacks_return:
  "list_all (\<lambda>(_, f). f \<noteq> None) cs \<Longrightarrow> snd (send_callback_actions cs)"
  by (induction cs rule: send_callback_actions.induct) (auto split: prod.splits)

lemma callback_queue_returns:
  "callbacks_set s \<Longrightarrow> snd (process_send_callback_queue s) \<and> callbacks_set (fst (process_send_callback_queue s))"
  using send_callbacks_return [of "m_send_callback_queue s"]
  by (auto simp: callbacks_set_def process_send_callback_queue_def Let_def split: prod.splits)

text \<open>The events that leave the client where a disconnect request ends it.\<close>

definition quiet_event :: "FSMEventData \<Rightarrow> bool" where
  "quiet_event e = (fe_type e = ConnectionOpened \<or> fe_type e = MessageReceived \<or> fe_type e = RequestDisconnect)"

definition closing :: "BaseWebSocketClient \<Rightarrow> bool" where
  "closing s =
     (ws_inv s \<and> m_fsm_state s \<in> {INIT, CONNECTING, WORKING} \<and>
      list_all quiet_event (m_fsm_event_queue s) \<and>
      (if m_fsm_event_queue s = [] then m_fsm_state s = INIT
       else fe_type (last (m_fsm_event_queue s)) = RequestDisconnect))"

lemma working_loop_closing:
  assumes "m_fsm_state s = WORKING" "list_all quiet_event es" "es \<noteq> []" "fe_type (last es) = RequestDisconnect"
  shows "m_fsm_state (working_loop env es s) \<in> {INIT, WORKING} \<and>
    (\<exists>j. m_fsm_event_queue (working_loop env es s) = drop (Suc j) es) \<and>
    (m_fsm_event_queue (working_loop env es s) = [] \<longrightarrow> m_fsm_state (working_loop env es s) = INIT)"
  using assms
proof (induction es arbitrary: s)
  case (Cons e r)
  consider "fe_type e = RequestDisconnect" | "fe_type e = ConnectionOpened" "r \<noteq> []"
    | "fe_type e = MessageReceived" "r \<noteq> []"
    using Cons.prems(2,4) by (cases "r = []") (auto simp: quiet_event_def)
  then show ?case
  proof cases
    case 1
    then show ?thesis by (auto simp: request_disconnect_def Let_def intro: exI [of _ 0])
  next
    case 2
    with Cons.prems(1) show ?thesis by (auto simp: Let_def intro: exI [of _ 0])
  next
    case 3
    let ?s1 = "handle_message_event (fe_event_data e) (s\<lparr>m_fsm_event_queue := r\<rparr>)"
    have "m_fsm_state (working_loop env r ?s1) \<in> {INIT, WORKING} \<and>
      (\<exists>j. m_fsm_event_queue (working_loop env r ?s1) = drop (Suc j) r) \<and>
      (m_fsm_event_queue (working_loop env r ?s1) = [] \<longrightarrow> m_fsm_state (working_loop env r ?s1) = INIT)"
      by (rule Cons.IH) (use Cons.prems 3 in auto)
    moreover have "working_loop env (e # r) s = working_loop env r ?s1" using 3 by (simp add: Let_def)
    ultimately show ?thesis by (metis drop_Suc_Cons)
  qed
qed simp

lemma closing_step:
  assumes "closing s" "m_fsm_event_queue s \<noteq> []"
  shows "closing (process_fsm_state env s) \<and>
    length (m_fsm_event_queue (process_fsm_state env s)) < length (m_fsm_event_queue s)"
proof -
  let ?s' = "process_fsm_state env s"
  obtain e r where q: "m_fsm_event_queue s = e # r" using assms(2) by (cases "m_fsm_event_queue s") auto
  have l: "fe_type (last (e # r)) = RequestDisconnect" and k: "list_all quiet_event (e # r)"
    using assms(1) q by (auto simp: closing_def)
  have "m_fsm_state ?s' \<in> {INIT, CONNECTING, WORKING} \<and> (\<exists>j. m_fsm_event_queue ?s' = drop (Suc j) (e # r)) \<and>
      (m_fsm_event_queue ?s' = [] \<longrightarrow> m_fsm_state ?s' = INIT)"
  proof (cases "m_fsm_state s = WORKING")
    case True
    then show ?thesis
      using working_loop_closing [OF True k _ l, of env] q
      by (auto simp: process_fsm_state_def process_state_working_def)
  next
    case False
    then have st: "m_fsm_state s = INIT \<or> m_fsm_state s = CONNECTING" using assms(1) by (auto simp: closing_def)
    have ty: "fe_type e = ConnectionOpened \<or> fe_type e = MessageReceived \<or> fe_type e = RequestDisconnect"
      using k by (simp add: quiet_event_def)
    have "r = [] \<Longrightarrow> fe_type e = RequestDisconnect" using l by simp
    with st ty q show ?thesis
      by (auto simp: process_fsm_state_def process_state_init_def process_state_connecting_def pop_event_def
          request_disconnect_def Let_def intro: exI [of _ 0])
  qed
  then obtain j where j: "m_fsm_event_queue ?s' = drop (Suc j) (e # r)"
    and st: "m_fsm_state ?s' \<in> {INIT, CONNECTING, WORKING}"
      "m_fsm_event_queue ?s' = [] \<longrightarrow> m_fsm_state ?s' = INIT" by blast
  have "ws_inv ?s'" using assms(1) by (simp add: closing_def process_fsm_state_inv)
  moreover have "list_all quiet_event (m_fsm_event_queue ?s')"
    using k set_drop_subset [of "Suc j" "e # r"] unfolding j list_all_iff by blast
  moreover have "m_fsm_event_queue ?s' = [] \<or> fe_type (last (m_fsm_event_queue ?s')) = RequestDisconnect"
    using l unfolding j by (metis drop_eq_Nil last_drop not_le)
  ultimately have "closing ?s'" using st by (auto simp: closing_def)
  moreover have "length (m_fsm_event_queue ?s') < length (m_fsm_event_queue s)" by (simp add: j q)
  ultimately show ?thesis by blast
qed

lemma closing_idle: "closing s \<Longrightarrow> m_fsm_event_queue s = [] \<Longrightarrow> \<not> ws_is_running s"
  by (simp add: closing_def ws_inv_def ws_is_running_def has_events_def)

lemma closing_frame: "closing s \<Longrightarrow> closing (fst (process_send_callback_queue s))"
  by (auto simp: closing_def elim!: ws_inv_cong)

lemma shutdown_loop_returns:
  assumes "closing s" "callbacks_set s" "length (m_fsm_event_queue s) \<le> fuel" "\<And>i. arrivals (envs i) = []"
  shows "\<exists>s'. shutdown_loop fuel envs k s = Some (s', True) \<and> closing s' \<and> \<not> ws_is_running s'"
  using assms
proof (induction fuel arbitrary: s k)
  case 0
  then show ?case using closing_idle [of s] by (subst shutdown_loop.simps) auto
next
  case (Suc fuel)
  show ?case
  proof (cases "ws_is_running s")
    case True
    then have ne: "m_fsm_event_queue s \<noteq> []" using closing_idle [OF Suc.prems(1)] by blast
    let ?f = "process_fsm_state (envs k) s"
    obtain s1 ok where p: "process_send_callback_queue ?f = (s1, ok)" by fastforce
    have f: "closing ?f" "length (m_fsm_event_queue ?f) < length (m_fsm_event_queue s)"
      using closing_step [OF Suc.prems(1) ne] by auto
    have "callbacks_set ?f" using Suc.prems(2) by (simp add: callbacks_set_def)
    from callback_queue_returns [OF this] p have ok: "ok" "callbacks_set s1" by auto
    have s1: "closing s1" "m_fsm_event_queue s1 = m_fsm_event_queue ?f"
      using closing_frame [OF f(1)] process_send_callback_queue_sel(7) [of ?f] p by auto
    have "\<exists>s'. shutdown_loop fuel envs (k + 1) s1 = Some (s', True) \<and> closing s' \<and> \<not> ws_is_running s'"
      by (rule Suc.IH) (use s1 ok f Suc.prems in auto)
    then show ?thesis
      using True p ok Suc.prems(4) by (subst shutdown_loop.simps) (simp add: push_arrivals_none)
  next
    case False
    then show ?thesis using Suc.prems(1) by (subst shutdown_loop.simps) simp
  qed
qed

lemma stuck_loop:
  assumes "\<And>i s. P s \<Longrightarrow> ws_is_running s \<and> callbacks_set s \<and>
      P (fst (process_send_callback_queue (process_fsm_state (envs i) (push_arrivals (envs i) s)))) \<and>
      callbacks_set (process_fsm_state (envs i) (push_arrivals (envs i) s))"
    and "P s"
  shows "shutdown_loop fuel envs k s = None"
  using assms(2)
proof (induction fuel arbitrary: s k)
  case 0
  then show ?case using assms(1) by (subst shutdown_loop.simps) auto
next
  case (Suc fuel)
  let ?f = "process_fsm_state (envs k) (push_arrivals (envs k) s)"
  obtain s1 ok where p: "process_send_callback_queue ?f = (s1, ok)" by fastforce
  have "ws_is_running s" "P s1" "ok"
    using assms(1) [OF Suc.prems, of k] callback_queue_returns [of ?f] p by auto
  with Suc.IH [of s1 "k + 1"] p show ?case by (subst shutdown_loop.simps) simp
qed

text \<open>
  C30: shutdown returns. When the client is idle, connecting or connected, with no pending request to
  connect or to change the configuration and no pending loss of the connection, and nothing arrives
  meanwhile, \<^verbatim>\<open>shutdown\<close> ends after at most one iteration per queued event, leaves the client in INIT,
  not running and not connected, and throws nothing.
\<close>

theorem ws_shutdown_returns:
  assumes "ws_reachable s" "m_fsm_state s \<in> {INIT, CONNECTING, WORKING}"
    and "list_all quiet_event (m_fsm_event_queue s)" "callbacks_set s" "\<And>i. arrivals (envs i) = []"
    and "length (m_fsm_event_queue s) < fuel"
  shows "\<exists>s'. ws_shutdown fuel envs s = Some (s', True) \<and> m_fsm_state s' = INIT \<and>
    \<not> ws_is_running s' \<and> \<not> is_connected s'"
proof -
  let ?s = "push_fsm_event (fsm_request RequestDisconnect None None) s"
  have "ws_inv ?s" using ws_reachable_inv [OF assms(1)] by (rule ws_inv_cong) simp_all
  then have "closing ?s" using assms(2,3) by (auto simp: closing_def quiet_event_def fsm_request_def)
  then obtain s' where s': "shutdown_loop fuel envs 0 ?s = Some (s', True)" "closing s'" "\<not> ws_is_running s'"
    using shutdown_loop_returns [of ?s fuel envs 0] assms(4,5,6) by (auto simp: callbacks_set_def)
  then have "m_fsm_event_queue s' = []" by (simp add: ws_is_running_def has_events_def)
  with s' show ?thesis
    by (auto simp: ws_shutdown_def closing_def ws_inv_def is_connected_def)
qed

theorem ws_shutdown_returns_witness:
  "\<exists>s'. ws_shutdown 1 (\<lambda>_. wit_env []) wit_working = Some (s', True) \<and> m_fsm_state s' = INIT \<and>
    \<not> ws_is_running s' \<and> \<not> is_connected s'"
proof -
  have h: "m_fsm_state wit_working \<in> {INIT, CONNECTING, WORKING}" "callbacks_set wit_working"
    "list_all quiet_event (m_fsm_event_queue wit_working)" "length (m_fsm_event_queue wit_working) < 1"
    by code_simp+
  show ?thesis by (rule ws_shutdown_returns [OF wit_working_reachable h(1,3,2) _ h(4)]) (simp add: wit_env_def)
qed

text \<open>
  C31: shutdown while reconnecting does not return. If the client is waiting to reconnect, the delay
  has passed and the transport accepts the new attempt, the disconnect request of \<^verbatim>\<open>shutdown\<close> is
  followed at once by a new connection attempt, and the loop goes on until the transport reports
  something: with a silent transport no number of iterations ends it.
\<close>

theorem ws_shutdown_reconnecting_hangs:
  assumes "m_fsm_state s = RECONNECTING" "m_config s = Some c" "reconnect c" "m_fsm_event_queue s = []"
    and "reconnect_attempts c = 0 \<or> m_reconnect_attempt s < reconnect_attempts c"
    and "reconnect_delay c \<le> duration_s (now_fsm (envs 0) - m_close_time s)" "init_websocket_ok (envs 0) = (\<lambda>_. True)"
    and "\<And>i. arrivals (envs i) = []" "callbacks_set s"
  shows "ws_shutdown fuel envs s = None"
proof -
  define P where "P s = (m_fsm_state s = CONNECTING \<and> m_fsm_event_queue s = [] \<and> m_is_running s \<and> callbacks_set s)"
    for s
  have P: "P s \<Longrightarrow> ws_is_running s \<and> callbacks_set s \<and>
      P (fst (process_send_callback_queue (process_fsm_state (envs i) (push_arrivals (envs i) s)))) \<and>
      callbacks_set (process_fsm_state (envs i) (push_arrivals (envs i) s))" for i s
    using callback_queue_returns [of s] assms(8)
    by (simp add: P_def ws_is_running_def push_arrivals_none process_fsm_state_def
        process_state_connecting_def pop_event_def)
  let ?d = "fsm_request RequestDisconnect None None"
  let ?s0 = "push_fsm_event ?d s" and ?r = "goto INIT (s\<lparr>m_fsm_event_queue := [], m_is_running := False\<rparr>)"
  have r0: "reconnecting_event (envs 0) ?s0 = ?r"
    using assms(4) by (simp add: reconnecting_event_def pop_event_def fsm_request_def call_callback_def
        push_fsm_event_def push_event_def)
  have mc: "m_close_time ?r = m_close_time s" by simp
  have r: "process_fsm_state (envs 0) ?s0 =
      goto CONNECTING ((log_act (ActInit True) ?r)\<lparr>m_is_running := True\<rparr>)"
    using assms(1,2,3,5,6,7) mc r0
    by (auto simp: process_fsm_state_def process_state_reconnecting_def reconnecting_attempt_def init_websocket_eq)
  let ?f = "process_fsm_state (envs 0) ?s0"
  have f: "callbacks_set ?f" using assms(9) by (simp add: callbacks_set_def)
  obtain s1 ok where p: "process_send_callback_queue ?f = (s1, ok)" by fastforce
  have s1: "ok" "P s1"
    using callback_queue_returns [OF f] p process_send_callback_queue_sel [of ?f]
    by (auto simp: P_def r)
  have run: "ws_is_running ?s0" by (simp add: ws_is_running_def has_events_def)
  show ?thesis
  proof (cases fuel)
    case 0
    with run show ?thesis by (simp add: ws_shutdown_def shutdown_loop.simps)
  next
    case (Suc n)
    with run p s1 stuck_loop [of P envs s1 n 1] P assms(8) show ?thesis
      by (simp add: ws_shutdown_def shutdown_loop.simps [of "Suc n"] push_arrivals_none)
  qed
qed

definition wit_reconnecting :: BaseWebSocketClient where
  "wit_reconnecting = ws_run [wit_env [wit_closed]] wit_working"

theorem ws_shutdown_reconnecting_hangs_witness:
  "\<forall>fuel. ws_shutdown fuel (\<lambda>_. wit_env []) wit_reconnecting = None"
proof
  fix fuel
  have h: "m_fsm_state wit_reconnecting = RECONNECTING" "m_fsm_event_queue wit_reconnecting = []"
    "m_reconnect_attempt wit_reconnecting = 1" "callbacks_set wit_reconnecting"
    "m_close_time wit_reconnecting = 7000000000" "map_option reconnect (m_config wit_reconnecting) = Some True"
    "map_option reconnect_attempts (m_config wit_reconnecting) = Some 2"
    "map_option reconnect_delay (m_config wit_reconnecting) = Some 0" by code_simp+
  then obtain c where c: "m_config wit_reconnecting = Some c" "reconnect c" "reconnect_attempts c = 2"
    "reconnect_delay c = 0" by auto
  show "ws_shutdown fuel (\<lambda>_. wit_env []) wit_reconnecting = None"
    by (rule ws_shutdown_reconnecting_hangs [OF h(1) c(1,2) h(2) _ _ _ _ h(4)])
      (simp_all add: c(3,4) h(3,5) wit_env_def duration_s_def trunc_div_def)
qed

text \<open>
  Shutdown after a failed reconfiguration does not return. Once a running client has been stopped
  by an invalid configuration, it still counts as running, so that \<^verbatim>\<open>shutdown\<close> loops for ever.
\<close>

theorem ws_shutdown_stopped_hangs:
  assumes "m_fsm_state s = STOPPED" "m_is_running s" "m_fsm_event_queue s = []"
    and "\<And>i. arrivals (envs i) = []" "callbacks_set s"
  shows "ws_shutdown fuel envs s = None"
proof -
  define P where "P s = (m_fsm_state s = STOPPED \<and> m_is_running s \<and> callbacks_set s \<and>
      (\<forall>e \<in> set (m_fsm_event_queue s). fe_type e = RequestDisconnect))" for s
  have "P s \<Longrightarrow> ws_is_running s \<and> callbacks_set s \<and>
      P (fst (process_send_callback_queue (process_fsm_state (envs i) (push_arrivals (envs i) s)))) \<and>
      callbacks_set (process_fsm_state (envs i) (push_arrivals (envs i) s))" for i s
  proof -
    assume s: "P s"
    let ?f = "process_fsm_state (envs i) s"
    have "m_fsm_state ?f = STOPPED \<and> m_is_running ?f \<and> (\<forall>e \<in> set (m_fsm_event_queue ?f). fe_type e = RequestDisconnect)"
      using s by (cases rule: pop_event_cases [of "m_fsm_event_queue s"])
        (auto simp: P_def process_fsm_state_def process_state_stopped_def Let_def)
    moreover have f: "callbacks_set ?f" using s by (simp add: P_def callbacks_set_def)
    ultimately have "P (fst (process_send_callback_queue ?f))"
      using callback_queue_returns [OF f] by (simp add: P_def)
    with s f assms(4) show ?thesis by (simp add: P_def ws_is_running_def push_arrivals_none)
  qed
  moreover have "P (push_fsm_event (fsm_request RequestDisconnect None None) s)"
    using assms by (simp add: P_def callbacks_set_def fsm_request_def)
  ultimately show ?thesis unfolding ws_shutdown_def by (rule stuck_loop)
qed

definition wit_stopped :: BaseWebSocketClient where
  "wit_stopped = ws_run [wit_env [fsm_request UpdateConfig None (Some 3)]] wit_working"

theorem ws_shutdown_stopped_hangs_witness:
  "\<forall>fuel. ws_shutdown fuel (\<lambda>_. wit_env []) wit_stopped = None"
proof
  fix fuel
  have h: "m_fsm_state wit_stopped = STOPPED" "m_is_running wit_stopped" "m_fsm_event_queue wit_stopped = []"
    "callbacks_set wit_stopped" by code_simp+
  show "ws_shutdown fuel (\<lambda>_. wit_env []) wit_stopped = None"
    by (rule ws_shutdown_stopped_hangs [OF h(1,2,3) _ h(4)]) (simp add: wit_env_def)
qed

end
