(* ===== verification/Web_Socket_Facade.thy ===== *)
theory Web_Socket_Facade
  imports Web_Socket_Guarantees
begin

text \<open>
  \<^verbatim>\<open>websocket/WebSocketManager.hpp\<close> and \<^verbatim>\<open>websocket/WebSocketClient.hpp\<close>: the manager that the network
  worker drives, which keeps weak pointers to the clients, and the facade that users hold.

  Clients are objects at addresses; an expired weak pointer is one whose address holds no object. An
  operation of the facade changes the client behind it and, where the code then calls
  \<open>NetworkWorker::notify\<close>, says so with the Boolean of its result. A promise is the callback that sets
  it, a number like every other callback. The transport behind a client, and so \<open>get_http_version\<close>,
  \<open>get_headers\<close> and \<open>get_remote_endpoint\<close>, are not part of the model.
\<close>

section \<open>The manager\<close>

record WebSocketManager =
  m_client_list :: "nat list"
  ws_clients :: "nat \<Rightarrow> BaseWebSocketClient option"

definition WebSocketManager_init :: WebSocketManager where
  "WebSocketManager_init = \<lparr>m_client_list = [], ws_clients = (\<lambda>_. None)\<rparr>"

text \<open>An exception that leaves the \<open>process\<close> of a client ends the loop; the clients after it are not
  processed and expired ones stay in the list.\<close>

fun process_clients ::
    "(nat \<Rightarrow> ws_env) \<Rightarrow> nat list \<Rightarrow> (nat \<Rightarrow> BaseWebSocketClient option) \<Rightarrow> (nat \<Rightarrow> BaseWebSocketClient option) \<times> bool" where
  "process_clients envs [] cl = (cl, True)"
| "process_clients envs (p # ps) cl =
     (case cl p of
        None \<Rightarrow> process_clients envs ps cl
      | Some s \<Rightarrow>
          let (s', ok) = ws_process (envs p) s
          in if ok then process_clients envs ps (cl(p \<mapsto> s')) else (cl(p \<mapsto> s'), False))"

definition wsm_process :: "(nat \<Rightarrow> ws_env) \<Rightarrow> WebSocketManager \<Rightarrow> WebSocketManager \<times> bool" where
  "wsm_process envs m =
     (let (cl, ok) = process_clients envs (m_client_list m) (ws_clients m)
      in if ok then (m\<lparr>ws_clients := cl, m_client_list := filter (\<lambda>p. cl p \<noteq> None) (m_client_list m)\<rparr>, True)
         else (m\<lparr>ws_clients := cl\<rparr>, False))"

fun shutdown_clients ::
    "nat \<Rightarrow> (nat \<Rightarrow> nat \<Rightarrow> ws_env) \<Rightarrow> nat list \<Rightarrow> (nat \<Rightarrow> BaseWebSocketClient option) \<Rightarrow>
     ((nat \<Rightarrow> BaseWebSocketClient option) \<times> bool) option" where
  "shutdown_clients fuel envs [] cl = Some (cl, True)"
| "shutdown_clients fuel envs (p # ps) cl =
     (case cl p of
        None \<Rightarrow> shutdown_clients fuel envs ps cl
      | Some s \<Rightarrow>
          (case ws_shutdown fuel (envs p) s of
             None \<Rightarrow> None
           | Some (s', ok) \<Rightarrow>
               if ok then shutdown_clients fuel envs ps (cl(p \<mapsto> s')) else Some (cl(p \<mapsto> s'), False)))"

definition wsm_shutdown ::
    "nat \<Rightarrow> (nat \<Rightarrow> nat \<Rightarrow> ws_env) \<Rightarrow> WebSocketManager \<Rightarrow> (WebSocketManager \<times> bool) option" where
  "wsm_shutdown fuel envs m =
     map_option (\<lambda>(cl, ok). (m\<lparr>ws_clients := cl\<rparr>, ok)) (shutdown_clients fuel envs (m_client_list m) (ws_clients m))"

definition wsm_is_loaded :: "WebSocketManager \<Rightarrow> bool" where
  "wsm_is_loaded m =
     list_ex (\<lambda>p. case ws_clients m p of None \<Rightarrow> False | Some s \<Rightarrow> ws_is_running s) (m_client_list m)"

text \<open>\<open>p\<close> is the address of the new object.\<close>

definition create_client :: "nat \<Rightarrow> WebSocketManager \<Rightarrow> WebSocketManager" where
  "create_client p m =
     m\<lparr>ws_clients := (ws_clients m)(p \<mapsto> BaseWebSocketClient_init), m_client_list := m_client_list m @ [p]\<rparr>"

definition on_client :: "nat \<Rightarrow> (BaseWebSocketClient \<Rightarrow> BaseWebSocketClient) \<Rightarrow> WebSocketManager \<Rightarrow> WebSocketManager" where
  "on_client p f m = m\<lparr>ws_clients := (ws_clients m)(p := map_option f (ws_clients m p))\<rparr>"

text \<open>The last shared pointer to a client goes away.\<close>

definition release_client :: "nat \<Rightarrow> WebSocketManager \<Rightarrow> WebSocketManager" where
  "release_client p m = m\<lparr>ws_clients := (ws_clients m)(p := None)\<rparr>"

section \<open>The facade\<close>

record WebSocketClient =
  f_client :: nat
  f_config :: "WebSocketConfig option"

definition init_config :: "WebSocketClient \<Rightarrow> WebSocketClient" where
  "init_config c =
     (case f_config c of None \<Rightarrow> c\<lparr>f_config := Some WebSocketConfig_default\<rparr> | Some _ \<Rightarrow> c)"

definition on_config :: "(WebSocketConfig \<Rightarrow> WebSocketConfig) \<Rightarrow> WebSocketClient \<Rightarrow> WebSocketClient" where
  "on_config f c = (let c1 = init_config c in c1\<lparr>f_config := map_option f (f_config c1)\<rparr>)"

subsection \<open>Construction and destruction\<close>

definition WebSocketClient_new :: "nat \<Rightarrow> WebSocketManager \<Rightarrow> WebSocketClient \<times> WebSocketManager" where
  "WebSocketClient_new p m = (\<lparr>f_client = p, f_config = None\<rparr>, create_client p m)"

text \<open>This constructor queues the configuration but does not notify the worker.\<close>

definition WebSocketClient_with_config ::
    "nat \<Rightarrow> WebSocketConfig option \<Rightarrow> cb option \<Rightarrow> WebSocketManager \<Rightarrow> WebSocketClient \<times> WebSocketManager" where
  "WebSocketClient_with_config p config callback m =
     (\<lparr>f_client = p, f_config = None\<rparr>, on_client p (set_config config callback) (create_client p m))"

definition WebSocketClient_with_url ::
    "nat \<Rightarrow> string \<Rightarrow> Headers \<Rightarrow> string \<Rightarrow> string \<Rightarrow> ProxyType \<Rightarrow> int \<Rightarrow> bool \<Rightarrow> bool \<Rightarrow> string \<Rightarrow> int \<Rightarrow>
     WebSocketManager \<Rightarrow> WebSocketClient \<times> WebSocketManager" where
  "WebSocketClient_with_url p url headers proxy_server proxy_auth proxy_type request_timeout rec verify_cert ca_file rpm m =
     (on_config (\<lambda>c. fst (wc_add_rate_limit rpm 60000
          (c\<lparr>wc_url := url, wc_headers := headers, wc_proxy_server := proxy_server, wc_proxy_auth := proxy_auth,
             wc_proxy_type := proxy_type, wc_request_timeout := request_timeout, reconnect := rec,
             wc_verify_cert := verify_cert, wc_ca_file := ca_file\<rparr>)))
        \<lparr>f_client = p, f_config = None\<rparr>,
      create_client p m)"

text \<open>The task the destructor hands to the worker; the closure keeps the client alive until then.\<close>

definition WebSocketClient_destroy_task ::
    "nat \<Rightarrow> (nat \<Rightarrow> ws_env) \<Rightarrow> WebSocketClient \<Rightarrow> WebSocketManager \<Rightarrow> (WebSocketManager \<times> bool) option" where
  "WebSocketClient_destroy_task fuel envs c m =
     (case ws_clients m (f_client c) of
        None \<Rightarrow> Some (m, True)
      | Some s \<Rightarrow>
          map_option (\<lambda>(s', ok). (release_client (f_client c) (on_client (f_client c) (\<lambda>_. s') m), ok))
            (ws_shutdown fuel envs s))"

subsection \<open>Requests\<close>

definition wsc_on_event :: "bool \<Rightarrow> WebSocketClient \<Rightarrow> WebSocketManager \<Rightarrow> WebSocketManager" where
  "wsc_on_event callback c m = on_client (f_client c) (\<lambda>s. s\<lparr>m_on_event := callback\<rparr>) m"

definition wsc_set_config ::
    "WebSocketConfig option \<Rightarrow> cb option \<Rightarrow> WebSocketClient \<Rightarrow> WebSocketManager \<Rightarrow> WebSocketManager \<times> bool" where
  "wsc_set_config config callback c m = (on_client (f_client c) (set_config config callback) m, True)"

definition wsc_set_config_future ::
    "WebSocketConfig option \<Rightarrow> cb \<Rightarrow> WebSocketClient \<Rightarrow> WebSocketManager \<Rightarrow> WebSocketManager \<times> bool" where
  "wsc_set_config_future config promise c m = wsc_set_config config (Some promise) c m"

definition push_deferred_config :: "WebSocketClient \<Rightarrow> WebSocketManager \<Rightarrow> WebSocketManager" where
  "push_deferred_config c m =
     (case f_config c of
        None \<Rightarrow> m
      | Some config \<Rightarrow> on_client (f_client c) (set_config (Some config) None) m)"

definition wsc_connect :: "cb option \<Rightarrow> WebSocketClient \<Rightarrow> WebSocketManager \<Rightarrow> WebSocketManager \<times> bool" where
  "wsc_connect callback c m =
     (on_client (f_client c) (ws_connect callback) (push_deferred_config c m), True)"

definition wsc_connect_future :: "cb \<Rightarrow> WebSocketClient \<Rightarrow> WebSocketManager \<Rightarrow> WebSocketManager \<times> bool" where
  "wsc_connect_future promise c m =
     (on_client (f_client c) (ws_connect (Some promise)) (push_deferred_config c m), True)"

definition wsc_disconnect :: "cb option \<Rightarrow> WebSocketClient \<Rightarrow> WebSocketManager \<Rightarrow> WebSocketManager \<times> bool" where
  "wsc_disconnect callback c m = (on_client (f_client c) (ws_disconnect callback) m, True)"

definition wsc_disconnect_future :: "cb \<Rightarrow> WebSocketClient \<Rightarrow> WebSocketManager \<Rightarrow> WebSocketManager \<times> bool" where
  "wsc_disconnect_future promise c m = (on_client (f_client c) (ws_disconnect (Some promise)) m, True)"

definition wsc_is_connected :: "WebSocketClient \<Rightarrow> WebSocketManager \<Rightarrow> bool" where
  "wsc_is_connected c m = (case ws_clients m (f_client c) of None \<Rightarrow> False | Some s \<Rightarrow> is_connected s)"

text \<open>The facade holds a shared pointer, so that its client exists; the model gives an error where it
  does not.\<close>

definition wsc_submit_message ::
    "string \<Rightarrow> int \<Rightarrow> cb option \<Rightarrow> WebSocketClient \<Rightarrow> WebSocketManager \<Rightarrow> WebSocketManager \<times> SubmitResult" where
  "wsc_submit_message message rate_limit_id callback c m =
     (case ws_clients m (f_client c) of
        None \<Rightarrow> (m, submit_result False (client_error NotConnected))
      | Some s \<Rightarrow>
          let (s', r) = submit_message message rate_limit_id callback s in (on_client (f_client c) (\<lambda>_. s') m, r))"

definition wsc_send_message ::
    "string \<Rightarrow> int \<Rightarrow> cb option \<Rightarrow> WebSocketClient \<Rightarrow> WebSocketManager \<Rightarrow> WebSocketManager \<times> bool" where
  "wsc_send_message message rate_limit_id callback c m =
     (let (m', r) = wsc_submit_message message rate_limit_id callback c m in (m', accepted r))"

definition wsc_submit_close ::
    "int \<Rightarrow> string \<Rightarrow> cb option \<Rightarrow> WebSocketClient \<Rightarrow> WebSocketManager \<Rightarrow> WebSocketManager \<times> SubmitResult" where
  "wsc_submit_close status reason callback c m =
     (case ws_clients m (f_client c) of
        None \<Rightarrow> (m, submit_result False (client_error NotConnected))
      | Some s \<Rightarrow> let (s', r) = submit_close status reason callback s in (on_client (f_client c) (\<lambda>_. s') m, r))"

definition wsc_send_close ::
    "int \<Rightarrow> string \<Rightarrow> cb option \<Rightarrow> WebSocketClient \<Rightarrow> WebSocketManager \<Rightarrow> WebSocketManager \<times> bool" where
  "wsc_send_close status reason callback c m =
     (let (m', r) = wsc_submit_close status reason callback c m in (m', accepted r))"

definition wsc_receive_events ::
    "WebSocketClient \<Rightarrow> WebSocketManager \<Rightarrow> WebSocketManager \<times> WebSocketEventData option list" where
  "wsc_receive_events c m =
     (case ws_clients m (f_client c) of
        None \<Rightarrow> (m, [])
      | Some s \<Rightarrow> let (s', es) = receive_events s in (on_client (f_client c) (\<lambda>_. s') m, es))"

definition wsc_receive_event ::
    "WebSocketClient \<Rightarrow> WebSocketManager \<Rightarrow> WebSocketManager \<times> WebSocketEventData option" where
  "wsc_receive_event c m =
     (case ws_clients m (f_client c) of
        None \<Rightarrow> (m, None)
      | Some s \<Rightarrow> let (s', e) = receive_event s in (on_client (f_client c) (\<lambda>_. s') m, e))"

subsection \<open>Deferred configuration\<close>

definition wsc_set_url :: "string \<Rightarrow> string \<Rightarrow> string \<Rightarrow> WebSocketClient \<Rightarrow> WebSocketClient" where
  "wsc_set_url host path query = on_config (wc_set_url host path query)"

definition wsc_set_url_query ::
    "(QueryParams \<Rightarrow> string \<Rightarrow> string) \<Rightarrow> string \<Rightarrow> QueryParams \<Rightarrow> WebSocketClient \<Rightarrow> WebSocketClient" where
  "wsc_set_url_query query_string url query = on_config (wc_set_url_query query_string url query)"

definition wsc_set_accept_encoding :: "bool \<Rightarrow> bool \<Rightarrow> bool \<Rightarrow> bool \<Rightarrow> WebSocketClient \<Rightarrow> WebSocketClient" where
  "wsc_set_accept_encoding identity deflate gzip brotli = on_config (wc_set_accept_encoding identity deflate gzip brotli)"

definition wsc_set_proxy :: "string \<Rightarrow> int \<Rightarrow> ProxyType \<Rightarrow> WebSocketClient \<Rightarrow> WebSocketClient" where
  "wsc_set_proxy ip port type = on_config (wc_set_proxy_typed ip port type)"

definition wsc_set_proxy_full ::
    "string \<Rightarrow> int \<Rightarrow> string \<Rightarrow> string \<Rightarrow> ProxyType \<Rightarrow> WebSocketClient \<Rightarrow> WebSocketClient" where
  "wsc_set_proxy_full ip port username password type = on_config (wc_set_proxy_full ip port username password type)"

definition wsc_set_proxy_server :: "string \<Rightarrow> WebSocketClient \<Rightarrow> WebSocketClient" where
  "wsc_set_proxy_server server = on_config (wc_set_proxy_server server)"

definition wsc_set_proxy_auth :: "string \<Rightarrow> WebSocketClient \<Rightarrow> WebSocketClient" where
  "wsc_set_proxy_auth auth = on_config (wc_set_proxy_auth auth)"

definition wsc_set_proxy_type :: "ProxyType \<Rightarrow> WebSocketClient \<Rightarrow> WebSocketClient" where
  "wsc_set_proxy_type type = on_config (wc_set_proxy_type type)"

definition wsc_set_proxy_credentials :: "string \<Rightarrow> string \<Rightarrow> WebSocketClient \<Rightarrow> WebSocketClient" where
  "wsc_set_proxy_credentials username password = on_config (wc_set_proxy_credentials username password)"

definition wsc_set_reconnect :: "bool \<Rightarrow> int \<Rightarrow> int \<Rightarrow> WebSocketClient \<Rightarrow> WebSocketClient" where
  "wsc_set_reconnect rec attempts del = on_config (wc_set_reconnect rec attempts del)"

definition wsc_set_user_agent :: "string \<Rightarrow> WebSocketClient \<Rightarrow> WebSocketClient" where
  "wsc_set_user_agent user_agent = on_config (wc_set_user_agent user_agent)"

definition wsc_set_accept_language :: "string \<Rightarrow> WebSocketClient \<Rightarrow> WebSocketClient" where
  "wsc_set_accept_language l = on_config (wc_set_accept_language l)"

definition wsc_set_cookie :: "string \<Rightarrow> WebSocketClient \<Rightarrow> WebSocketClient" where
  "wsc_set_cookie cookie = on_config (wc_set_cookie cookie)"

definition wsc_set_idle_timeout :: "int \<Rightarrow> WebSocketClient \<Rightarrow> WebSocketClient" where
  "wsc_set_idle_timeout t = on_config (wc_set_idle_timeout t)"

definition wsc_set_request_timeout :: "int \<Rightarrow> WebSocketClient \<Rightarrow> WebSocketClient" where
  "wsc_set_request_timeout t = on_config (wc_set_request_timeout t)"

definition wsc_set_max_send_queue_size :: "nat \<Rightarrow> WebSocketClient \<Rightarrow> WebSocketClient" where
  "wsc_set_max_send_queue_size n = on_config (wc_set_max_send_queue_size n)"

definition wsc_set_ca_file :: "string \<Rightarrow> WebSocketClient \<Rightarrow> WebSocketClient" where
  "wsc_set_ca_file f = on_config (wc_set_ca_file f)"

definition wsc_set_ca_file_verify :: "bool \<Rightarrow> string \<Rightarrow> WebSocketClient \<Rightarrow> WebSocketClient" where
  "wsc_set_ca_file_verify v f = on_config (wc_set_ca_file_verify v f)"

definition wsc_set_verify_cert :: "bool \<Rightarrow> WebSocketClient \<Rightarrow> WebSocketClient" where
  "wsc_set_verify_cert v = on_config (wc_set_verify_cert v)"

definition wsc_add_rate_limit :: "int \<Rightarrow> int \<Rightarrow> WebSocketClient \<Rightarrow> WebSocketClient \<times> int" where
  "wsc_add_rate_limit rpp per c =
     (let c1 = init_config c
      in case f_config c1 of
           None \<Rightarrow> (c1, 0)
         | Some config \<Rightarrow>
             let (config', i) = wc_add_rate_limit rpp per config in (c1\<lparr>f_config := Some config'\<rparr>, i))"

definition wsc_add_rate_limit_rpm :: "int \<Rightarrow> WebSocketClient \<Rightarrow> WebSocketClient \<times> int" where
  "wsc_add_rate_limit_rpm rpm c = wsc_add_rate_limit rpm 60000 c"

definition wsc_add_rate_limit_rps :: "int \<Rightarrow> WebSocketClient \<Rightarrow> WebSocketClient \<times> int" where
  "wsc_add_rate_limit_rps rps c = wsc_add_rate_limit rps 1000 c"

end
