(* ===== verification/Web_Socket_Facade_Props.thy ===== *)
theory Web_Socket_Facade_Props
  imports Web_Socket_Facade
begin

text \<open>
  The operations of other threads on the WebSocket manager, with whether they notify the worker, and
  the manager's invariant: every client it manages is in a reachable state of
  \<^verbatim>\<open>BaseWebSocketClient\<close>. Then what the facade's \<open>connect\<close> does.
\<close>

section \<open>Operations and invariant\<close>

text \<open>The transport calls \<open>add_fsm_event\<close> with event data of the kind of the event.\<close>

datatype transport_event = TrOpened | TrClosed string int | TrError error_code | TrMessage string

fun transport_push :: "transport_event \<Rightarrow> BaseWebSocketClient \<Rightarrow> BaseWebSocketClient" where
  "transport_push TrOpened s = add_fsm_event ConnectionOpened (Some create_websocket_event) s"
| "transport_push (TrClosed reason status) s =
     add_fsm_event ConnectionClosed (Some (create_websocket_close_event reason status)) s"
| "transport_push (TrError ec) s = add_fsm_event ConnectionError (Some (create_websocket_error_event ec)) s"
| "transport_push (TrMessage msg) s =
     add_fsm_event MessageReceived (Some (create_websocket_event\<lparr>event_type := WS_MESSAGE, ev_message := msg\<rparr>)) s"

datatype wsm_op =
    NewClient nat
  | ReleaseClient nat
  | OnEvent bool WebSocketClient
  | SetConfig "WebSocketConfig option" "cb option" WebSocketClient
  | Connect "cb option" WebSocketClient
  | Disconnect "cb option" WebSocketClient
  | SubmitMessage string int "cb option" WebSocketClient
  | SubmitClose int string "cb option" WebSocketClient
  | ReceiveEvents WebSocketClient
  | ReceiveEvent WebSocketClient
  | Transport nat transport_event
  | Sent nat error_code "cb option"

fun wsm_exec :: "wsm_op \<Rightarrow> WebSocketManager \<Rightarrow> WebSocketManager \<times> bool" where
  "wsm_exec (NewClient p) m = (if p \<in> set (m_client_list m) then m else snd (WebSocketClient_new p m), False)"
| "wsm_exec (ReleaseClient p) m = (release_client p m, False)"
| "wsm_exec (OnEvent b c) m = (wsc_on_event b c m, False)"
| "wsm_exec (SetConfig cfg f c) m = wsc_set_config cfg f c m"
| "wsm_exec (Connect f c) m = wsc_connect f c m"
| "wsm_exec (Disconnect f c) m = wsc_disconnect f c m"
| "wsm_exec (SubmitMessage msg i f c) m = (fst (wsc_submit_message msg i f c m), False)"
| "wsm_exec (SubmitClose st r f c) m = (fst (wsc_submit_close st r f c m), False)"
| "wsm_exec (ReceiveEvents c) m = (fst (wsc_receive_events c m), False)"
| "wsm_exec (ReceiveEvent c) m = (fst (wsc_receive_event c m), False)"
| "wsm_exec (Transport p e) m = (on_client p (transport_push e) m, True)"
| "wsm_exec (Sent p ec f) m = (on_client p (add_send_callback ec f) m, False)"

definition wsm_inv :: "WebSocketManager \<Rightarrow> bool" where
  "wsm_inv m = (\<forall>p s. ws_clients m p = Some s \<longrightarrow> ws_reachable s)"

lemma on_client_inv: "wsm_inv m \<Longrightarrow> (\<And>s. ws_reachable s \<Longrightarrow> ws_reachable (f s)) \<Longrightarrow> wsm_inv (on_client p f m)"
  by (auto simp: wsm_inv_def on_client_def)

lemma on_client_inv_step: "wsm_inv m \<Longrightarrow> (\<And>s. ws_step s (f s)) \<Longrightarrow> wsm_inv (on_client p f m)"
  by (rule on_client_inv) (auto intro: ws_next)

lemma transport_push_step: "ws_step s (transport_push e s)"
  by (cases e) (auto intro!: step_transport
      simp: event_ok_def data_kind_def create_websocket_event_def create_websocket_close_event_def create_websocket_error_event_def)

text \<open>Every operation on a client is a change of that client alone.\<close>

lemma on_client_none: "ws_clients m p = None \<Longrightarrow> on_client p f m = m"
  by (simp add: on_client_def fun_upd_idem)

lemma wsc_on_client:
  "fst (wsc_submit_message msg i f c m) = on_client (f_client c) (\<lambda>s. fst (submit_message msg i f s)) m"
  "fst (wsc_submit_close st r f c m) = on_client (f_client c) (\<lambda>s. fst (submit_close st r f s)) m"
  "fst (wsc_receive_events c m) = on_client (f_client c) (\<lambda>s. fst (receive_events s)) m"
  "fst (wsc_receive_event c m) = on_client (f_client c) (\<lambda>s. fst (receive_event s)) m"
  by (auto simp: wsc_submit_message_def wsc_submit_close_def wsc_receive_events_def wsc_receive_event_def
      on_client_none split: option.splits prod.splits) (auto simp: on_client_def)

lemmas wsc_client_defs = wsc_on_client wsc_on_event_def wsc_set_config_def wsc_disconnect_def

lemma push_deferred_config_inv: "wsm_inv m \<Longrightarrow> wsm_inv (push_deferred_config c m)"
  by (auto simp: push_deferred_config_def split: option.splits intro: on_client_inv_step step_set_config)

lemma wsm_exec_inv:
  assumes "wsm_inv m"
  shows "wsm_inv (fst (wsm_exec x m))"
  using assms push_deferred_config_inv
  by (cases x)
    (auto simp: wsc_client_defs wsc_connect_def
      intro!: on_client_inv_step step_handler step_set_config step_connect step_disconnect step_submit_message
        step_submit_close step_receive_events step_receive_event transport_push_step step_sent,
      auto simp: WebSocketClient_new_def create_client_def release_client_def wsm_inv_def intro: ws_start)

lemma process_clients_inv:
  "(\<And>p s. cl p = Some s \<Longrightarrow> ws_reachable s) \<Longrightarrow> (\<And>p. list_all event_ok (arrivals (envs p))) \<Longrightarrow>
   process_clients envs ps cl = (cl', ok) \<Longrightarrow> cl' p = Some s \<Longrightarrow> ws_reachable s"
proof (induction envs ps cl arbitrary: p s rule: process_clients.induct)
  case (2 envs q ps cl)
  show ?case
  proof (cases "cl q")
    case None
    with 2 show ?thesis by auto
  next
    case (Some s0)
    obtain s1 ok1 where s1: "ws_process (envs q) s0 = (s1, ok1)" by fastforce
    have "ws_reachable s1" using ws_next [OF 2(3) [OF Some] step_process [OF 2(4) [of q]]] s1 by simp
    then have r: "\<And>p s. (cl(q \<mapsto> s1)) p = Some s \<Longrightarrow> ws_reachable s" using 2(3) by (auto split: if_splits)
    show ?thesis
    proof (cases ok1)
      case True
      with 2(5) Some s1 have "process_clients envs ps (cl(q \<mapsto> s1)) = (cl', ok)" by simp
      from 2(2) [OF Some s1 [symmetric] refl True r 2(4) this 2(6)] show ?thesis .
    next
      case False
      with 2(5) Some s1 have "cl' = cl(q \<mapsto> s1)" by simp
      with r 2(6) show ?thesis by blast
    qed
  qed
qed simp

lemma wsm_process_inv:
  assumes "wsm_inv m" "\<And>p. list_all event_ok (arrivals (envs p))"
  shows "wsm_inv (fst (wsm_process envs m))"
proof -
  obtain cl ok where c: "process_clients envs (m_client_list m) (ws_clients m) = (cl, ok)" by fastforce
  have "ws_reachable s" if "cl p = Some s" for p s
    using process_clients_inv [OF _ assms(2) c that] assms(1) by (simp add: wsm_inv_def)
  then show ?thesis by (simp add: wsm_process_def c wsm_inv_def)
qed

section \<open>Loaded managers\<close>

lemma wsm_is_loaded_iff: "wsm_is_loaded m \<longleftrightarrow> (\<exists>p s. p \<in> set (m_client_list m) \<and> ws_clients m p = Some s \<and> ws_is_running s)"
  by (auto simp: wsm_is_loaded_def list_ex_iff split: option.splits)

lemma on_client_loaded:
  "(\<And>s. ws_is_running (f s) = ws_is_running s) \<Longrightarrow> wsm_is_loaded (on_client p f m) = wsm_is_loaded m"
  unfolding wsm_is_loaded_def on_client_def by (rule list_ex_cong) (auto split: option.splits)

text \<open>An operation that does not notify the worker does not make the manager loaded.\<close>

lemma quiet_running:
  "ws_is_running (s\<lparr>m_on_event := b\<rparr>) = ws_is_running s"
  "ws_is_running (fst (submit_message msg i f s)) = ws_is_running s"
  "ws_is_running (fst (submit_close st r f s)) = ws_is_running s"
  "ws_is_running (fst (receive_events s)) = ws_is_running s"
  "ws_is_running (fst (receive_event s)) = ws_is_running s"
  "ws_is_running (add_send_callback ec f s) = ws_is_running s"
  by (simp_all add: ws_is_running_def submit_message_def submit_close_def receive_events_def receive_event_def
      add_send_callback_def Let_def split: list.split)

lemma wsm_exec_quiet:
  assumes "wsm_exec x m = (m', False)" "wsm_is_loaded m'"
  shows "wsm_is_loaded m"
proof (cases x)
  case (NewClient p)
  have "\<not> ws_is_running BaseWebSocketClient_init"
    by (simp add: ws_is_running_def BaseWebSocketClient_init_def has_events_def)
  with NewClient assms show ?thesis
    by (auto simp: wsm_is_loaded_iff WebSocketClient_new_def create_client_def split: if_splits)
next
  case (ReleaseClient p)
  with assms show ?thesis by (auto simp: wsm_is_loaded_iff release_client_def split: if_splits)
qed (use assms in \<open>auto simp: wsc_client_defs on_client_loaded quiet_running wsc_connect_def\<close>)

text \<open>A manager that is not loaded has no client with an open connection or an unanswered request.\<close>

definition wsm_settled :: "WebSocketManager \<Rightarrow> bool" where
  "wsm_settled m =
     list_all (\<lambda>p. case ws_clients m p of
         None \<Rightarrow> True
       | Some s \<Rightarrow> \<not> is_connected s \<and> \<not> has_events (m_fsm_event_queue s) \<and> m_fsm_state s \<in> {INIT, STOPPED})
       (m_client_list m)"

lemma wsm_idle_settled:
  assumes "wsm_inv m" "\<not> wsm_is_loaded m"
  shows "wsm_settled m"
proof -
  have "\<not> is_connected s \<and> \<not> has_events (m_fsm_event_queue s) \<and> m_fsm_state s \<in> {INIT, STOPPED}"
    if "p \<in> set (m_client_list m)" "ws_clients m p = Some s" for p s
  proof -
    have r: "ws_reachable s" "\<not> ws_is_running s" using that assms by (auto simp: wsm_inv_def wsm_is_loaded_iff)
    with ws_reachable_inv [OF r(1)] show ?thesis
      by (cases "m_fsm_state s") (auto simp: ws_inv_def active_state_def is_connected_def ws_is_running_def)
  qed
  then show ?thesis by (auto simp: wsm_settled_def list_all_iff split: option.split)
qed

section \<open>Connecting through the facade\<close>

lemma facade_client:
  assumes "ws_clients m (f_client c) = Some s" "f_config c = Some cfg"
  shows "ws_clients (fst (wsc_connect f c m)) (f_client c) = Some (ws_connect f (set_config (Some cfg) None s))"
  using assms by (simp add: wsc_connect_def push_deferred_config_def on_client_def)

lemma connect_round1:
  assumes "m_fsm_event_queue s = []" "m_message_queue s = []" "m_send_callback_queue s = []"
    and "arrivals env = []" "\<And>x. init_websocket_ok env x" "m_fsm_state s = INIT \<or> m_fsm_state s = STOPPED"
    and "ws_process env (ws_connect f (set_config (Some cfg) None s)) = (s1, ok)"
  shows "ok \<and> m_fsm_event_queue s1 = [fsm_request RequestConnect None f] \<and> m_config s1 = Some cfg \<and>
    m_message_queue s1 = [] \<and> m_send_callback_queue s1 = [] \<and>
    (if m_fsm_state s = INIT then m_fsm_state s1 = INIT \<and> ws_log s1 = ws_log s
     else m_fsm_state s1 = CONNECTING \<and> ws_log s1 = ws_log s @ [ActInit True])"
  using assms
  by (auto simp: ws_process_def push_arrivals_def process_message_queue_def process_send_callback_queue_def
      process_fsm_state_def process_state_init_def process_state_stopped_def ws_connect_def set_config_def push_fsm_event_def
      push_event_def pop_event_def fsm_request_def call_callback_def apply_config_def update_config_def init_websocket_def
      log_act_def goto_def Let_def split: option.splits)

lemma connect_round2:
  assumes "m_fsm_event_queue s = [fsm_request RequestConnect None (Some f)]" "m_config s = Some cfg"
    and "m_message_queue s = []" "m_send_callback_queue s = []" "arrivals env = []" "\<And>x. init_websocket_ok env x"
    and "m_fsm_state s = INIT \<or> m_fsm_state s = CONNECTING" "ws_process env s = (s1, ok)"
  shows "ok \<and> m_fsm_event_queue s1 = [] \<and> m_config s1 = Some cfg \<and> m_fsm_state s1 = CONNECTING \<and>
    ws_log s1 = ws_log s @ (if m_fsm_state s = INIT then [ActInit True, ActCallback f True] else [ActCallback f False])"
  using assms
  by (auto simp: ws_process_def push_arrivals_def process_message_queue_def process_send_callback_queue_def
      process_fsm_state_def process_state_init_def process_state_connecting_def request_connect_def pop_event_def
      fsm_request_def call_callback_def init_websocket_def log_act_def goto_def Let_def)

section \<open>Blocking calls\<close>

text \<open>\<open>connect_and_wait\<close> and \<open>disconnect_and_wait\<close> block in \<open>future.get()\<close> while the worker calls \<open>process\<close> of the
  client; the value is the one the callback set, \<open>None\<close> means that the caller still blocks after these calls.\<close>

fun promise_value :: "cb \<Rightarrow> ws_action list \<Rightarrow> bool option" where
  "promise_value f [] = None"
| "promise_value f (ActCallback g b # as) = (if g = f then Some b else promise_value f as)"
| "promise_value f (_ # as) = promise_value f as"

fun bool_future_get :: "cb \<Rightarrow> ws_env list \<Rightarrow> BaseWebSocketClient \<Rightarrow> bool option" where
  "bool_future_get f [] s = promise_value f (ws_log s)"
| "bool_future_get f (env # envs) s =
     (case promise_value f (ws_log s) of
        Some b \<Rightarrow> Some b
      | None \<Rightarrow> bool_future_get f envs (fst (ws_process env s)))"

definition wsc_connect_and_wait :: "cb \<Rightarrow> ws_env list \<Rightarrow> WebSocketClient \<Rightarrow> WebSocketManager \<Rightarrow> bool option" where
  "wsc_connect_and_wait promise envs c m =
     Option.bind (ws_clients (fst (wsc_connect_future promise c m)) (f_client c)) (bool_future_get promise envs)"

definition wsc_disconnect_and_wait :: "cb \<Rightarrow> ws_env list \<Rightarrow> WebSocketClient \<Rightarrow> WebSocketManager \<Rightarrow> bool option" where
  "wsc_disconnect_and_wait promise envs c m =
     Option.bind (ws_clients (fst (wsc_disconnect_future promise c m)) (f_client c)) (bool_future_get promise envs)"

lemma promise_value_append:
  "promise_value f (as @ bs) = (case promise_value f as of None \<Rightarrow> promise_value f bs | Some b \<Rightarrow> Some b)"
  by (induction f as rule: promise_value.induct) simp_all

lemma promise_value_calls: "promise_value f (ws_log s) = None \<longleftrightarrow> calls f s = 0"
proof -
  have "promise_value f as = None \<longleftrightarrow> filter (\<lambda>a. \<exists>b. a = ActCallback f b) as = []" for as
    by (induction f as rule: promise_value.induct) simp_all
  then show ?thesis by (simp add: calls_def)
qed

lemma bool_future_get_none: "bool_future_get f envs s = None \<Longrightarrow> promise_value f (ws_log (ws_run envs s)) = None"
  by (induction envs arbitrary: s) (auto split: option.splits)

text \<open>Every call of \<open>process\<close> takes at least one event from the queue, and those that arrive are put behind.\<close>

lemma working_loop_pops: "es \<noteq> [] \<Longrightarrow> \<exists>k. 0 < k \<and> k \<le> length es \<and> m_fsm_event_queue (working_loop env es s) = drop k es"
proof (cases es)
  case (Cons e r)
  let ?s1 = "handle_message_event (fe_event_data e) (s\<lparr>m_fsm_event_queue := r\<rparr>)"
  obtain k where "k \<le> length r" "m_fsm_event_queue (working_loop env r ?s1) = drop k r"
    using working_loop_queue by blast
  then have "\<exists>k. 0 < k \<and> k \<le> length es \<and> m_fsm_event_queue (working_loop env r ?s1) = drop k es"
    using Cons by (intro exI [of _ "Suc k"]) simp
  moreover have "\<exists>k. 0 < k \<and> k \<le> length es \<and> r = drop k es" using Cons by (intro exI [of _ 1]) simp
  ultimately show ?thesis using Cons by (cases "fe_type e") (auto simp: Let_def)
qed simp

lemma fsm_pops:
  assumes "m_fsm_event_queue s \<noteq> []"
  shows "\<exists>k. 0 < k \<and> k \<le> length (m_fsm_event_queue s) \<and> m_fsm_event_queue (process_fsm_state env s) = drop k (m_fsm_event_queue s)"
proof (cases "m_fsm_state s = WORKING")
  case True
  then show ?thesis
    using working_loop_pops [OF assms] by (simp add: process_fsm_state_def process_state_working_def)
next
  case False
  obtain e r where q: "m_fsm_event_queue s = e # r" "pop_event (m_fsm_event_queue s) = Some (e, r)"
    using assms by (cases rule: pop_event_cases [of "m_fsm_event_queue s"]) auto
  with False have "m_fsm_event_queue (process_fsm_state env s) = r"
    by (cases "m_fsm_state s"; cases "fe_type e")
      (simp_all add: process_fsm_state_def process_state_init_def process_state_connecting_def
        process_state_reconnecting_def reconnecting_event_def process_state_stopped_def Let_def split: option.split)
  with q(1) show ?thesis by (intro exI [of _ 1]) simp
qed

lemma process_pops:
  "\<exists>k \<le> length (m_fsm_event_queue s @ arrivals env). (m_fsm_event_queue s \<noteq> [] \<longrightarrow> 0 < k) \<and>
     m_fsm_event_queue (fst (ws_process env s)) = drop k (m_fsm_event_queue s @ arrivals env)"
proof -
  have q: "m_fsm_event_queue (push_arrivals env s) = m_fsm_event_queue s @ arrivals env" by simp
  have p: "m_fsm_event_queue (fst (ws_process env s)) = m_fsm_event_queue (process_fsm_state env (push_arrivals env s))"
    by (simp add: ws_process_def)
  show ?thesis
  proof (cases "m_fsm_event_queue s @ arrivals env = []")
    case True
    with process_fsm_state_queue [of "push_arrivals env s" env] show ?thesis by (auto simp: p q)
  next
    case False
    with fsm_pops [of "push_arrivals env s" env] show ?thesis by (auto simp: p q)
  qed
qed

lemma drop_drop_append: "k \<le> length xs \<Longrightarrow> drop j (drop k xs @ ys) = drop (k + j) (xs @ ys)"
  by (metis add.commute append_take_drop_id append.assoc append_eq_conv_conj drop_drop length_take min.absorb2)

lemma run_pops:
  "\<exists>k \<le> length (m_fsm_event_queue s @ concat (map arrivals envs)). min (length envs) (length (m_fsm_event_queue s)) \<le> k \<and>
     m_fsm_event_queue (ws_run envs s) = drop k (m_fsm_event_queue s @ concat (map arrivals envs))"
proof (induction envs arbitrary: s)
  case (Cons env envs)
  let ?s = "fst (ws_process env s)" and ?q = "m_fsm_event_queue s @ arrivals env"
  obtain k where k: "k \<le> length ?q" "m_fsm_event_queue s \<noteq> [] \<longrightarrow> 0 < k" "m_fsm_event_queue ?s = drop k ?q"
    using process_pops [of s env] by blast
  obtain j where j: "j \<le> length (m_fsm_event_queue ?s @ concat (map arrivals envs))"
    "min (length envs) (length (m_fsm_event_queue ?s)) \<le> j"
    "m_fsm_event_queue (ws_run envs ?s) = drop j (m_fsm_event_queue ?s @ concat (map arrivals envs))"
    using Cons.IH [of ?s] by blast
  have "m_fsm_event_queue (ws_run (env # envs) s) = drop (k + j) (?q @ concat (map arrivals envs))"
    using j(3) k(3) drop_drop_append [OF k(1)] by simp
  moreover have "min (length (env # envs)) (length (m_fsm_event_queue s)) \<le> k + j"
    using j(2) k by (cases "m_fsm_event_queue s = []") auto
  moreover have "k + j \<le> length (?q @ concat (map arrivals envs))" using j(1) k(1,3) by simp
  ultimately show ?case by (intro exI [of _ "k + j"]) simp
qed (auto intro: exI [of _ 0])

text \<open>A caller whose request is in the event queue gets its answer after at most as many calls of \<open>process\<close> as there
  are events in the queue.\<close>

lemma bool_future_get_returns:
  assumes "ws_reachable s" "\<forall>env \<in> set envs. list_all (\<lambda>e. event_ok e \<and> carries f e = 0) (arrivals env)"
    "length (m_fsm_event_queue s) \<le> length envs" "0 < pending f s"
  shows "bool_future_get f envs s \<noteq> None"
proof
  assume "bool_future_get f envs s = None"
  then have c: "calls f (ws_run envs s) = 0" using bool_future_get_none promise_value_calls by blast
  have e: "\<forall>env \<in> set envs. list_all event_ok (arrivals env)" using assms(2) by (auto simp: list_all_iff)
  let ?A = "concat (map arrivals envs)"
  obtain k where "length (m_fsm_event_queue s) \<le> k" "m_fsm_event_queue (ws_run envs s) = drop k (m_fsm_event_queue s @ ?A)"
    using run_pops [of s envs] assms(3) by auto
  then have "set (m_fsm_event_queue (ws_run envs s)) \<subseteq> set ?A" using set_drop_subset by fastforce
  moreover have "\<forall>x \<in> set ?A. carries f x = 0" using assms(2) by (auto simp: list_all_iff)
  ultimately have "pending f (ws_run envs s) = 0" unfolding pending_def by (auto simp: sum_list_eq_0_iff)
  with c owed_run [OF assms(1) e, of f] assms(4) show False by (simp add: owed_def)
qed

lemma promise_value_log [simp]:
  "promise_value f (ws_log (log_act a s)) =
     (case promise_value f (ws_log s) of None \<Rightarrow> promise_value f [a] | Some b \<Rightarrow> Some b)"
  by (simp add: log_act_def promise_value_append)

lemma promise_value_close: "promise_value f (ws_log (handle_close_event d s)) = promise_value f (ws_log s)"
  by (simp add: handle_close_event_def deliver_event_def Let_def split: option.split)

lemma disconnect_value:
  assumes "m_fsm_state s = CONNECTING \<or> m_fsm_state s = WORKING" "m_fsm_event_queue s = []" "arrivals env = []"
    "promise_value p (ws_log s) = None"
  shows "promise_value p (ws_log (process_fsm_state env (push_arrivals env (ws_disconnect (Some p) s)))) = Some True"
  using assms
  by (auto simp: push_arrivals_none ws_disconnect_def push_fsm_event_def push_event_def fsm_request_def process_fsm_state_def
      process_state_connecting_def process_state_working_def request_disconnect_def pop_event_def call_callback_def
      goto_def deinit_websocket_def promise_value_close Let_def)

lemma future_client:
  assumes "ws_clients m (f_client c) = Some s" "ws_reachable s"
  shows "\<exists>s1. ws_clients (fst (wsc_connect_future p c m)) (f_client c) = Some s1 \<and> ws_reachable s1 \<and>
      length (m_fsm_event_queue s1) \<le> length (m_fsm_event_queue s) + 2 \<and> 0 < pending p s1"
    "ws_clients (fst (wsc_disconnect_future p c m)) (f_client c) = Some (ws_disconnect (Some p) s)"
    "ws_reachable (ws_disconnect (Some p) s)" "0 < pending p (ws_disconnect (Some p) s)"
    "length (m_fsm_event_queue (ws_disconnect (Some p) s)) = length (m_fsm_event_queue s) + 1"
proof -
  let ?s = "case f_config c of None \<Rightarrow> s | Some cfg \<Rightarrow> set_config (Some cfg) None s"
  have "ws_reachable ?s" using assms(2) ws_next [OF _ step_set_config] by (simp split: option.split)
  then have "ws_reachable (ws_connect (Some p) ?s)" by (rule ws_next [OF _ step_connect])
  moreover have "ws_clients (fst (wsc_connect_future p c m)) (f_client c) = Some (ws_connect (Some p) ?s)"
    using assms(1) by (simp add: wsc_connect_future_def push_deferred_config_def on_client_def split: option.split)
  moreover have "length (m_fsm_event_queue (ws_connect (Some p) ?s)) \<le> length (m_fsm_event_queue s) + 2"
    "0 < pending p (ws_connect (Some p) ?s)"
    by (simp_all add: ws_connect_def set_config_def push_fsm_event_def push_event_def pending_def carries_def fsm_request_def
        split: option.split)
  ultimately show "\<exists>s1. ws_clients (fst (wsc_connect_future p c m)) (f_client c) = Some s1 \<and> ws_reachable s1 \<and>
      length (m_fsm_event_queue s1) \<le> length (m_fsm_event_queue s) + 2 \<and> 0 < pending p s1" by blast
  show "ws_clients (fst (wsc_disconnect_future p c m)) (f_client c) = Some (ws_disconnect (Some p) s)"
    using assms(1) by (simp add: wsc_disconnect_future_def on_client_def)
  show "ws_reachable (ws_disconnect (Some p) s)" by (rule ws_next [OF assms(2) step_disconnect])
  show "0 < pending p (ws_disconnect (Some p) s)"
    "length (m_fsm_event_queue (ws_disconnect (Some p) s)) = length (m_fsm_event_queue s) + 1"
    by (simp_all add: ws_disconnect_def push_fsm_event_def push_event_def pending_def carries_def fsm_request_def)
qed




definition wit_facade :: WebSocketClient where
  "wit_facade = wsc_set_url ''wss://host'' ''/x'' [] \<lparr>f_client = 3, f_config = None\<rparr>"


end
