(* ===== verification/Network_Worker.thy ===== *)
theory Network_Worker
  imports Kurlyk_Prelude
begin

text \<open>
  \<^verbatim>\<open>core/NetworkWorker.hpp\<close> and \<^verbatim>\<open>core/INetworkTaskManager.hpp\<close>: the worker that drives the
  network managers and runs the tasks the other threads hand it.

  A manager is an object at an address; the pointers \<open>m_managers\<close> are addresses, and what the virtual
  functions of the interface do is the record \<open>manager_ops\<close>, an argument of every definition that
  calls them. Its functions take what the manager reads from the outside (clock, libcurl, transport).
  A task is a number. Tasks, \<open>process\<close> and \<open>shutdown\<close> can throw: the Boolean of a result is \<open>False\<close>
  when an exception left the call, and a call of \<open>shutdown\<close> that does not return is \<open>None\<close>.

  The first part has the member functions as they run on one thread, which is the synchronous mode.
  The second part is the asynchronous mode: the body of the worker thread cut at its accesses to the
  shared members, interleaved with the calls of the other threads.
\<close>

section \<open>The worker and its operations\<close>

type_synonym task = nat
type_synonym address = nat

record ('i, 'o, 'm) manager_ops =
  mt_process :: "'i \<Rightarrow> 'm \<Rightarrow> 'm \<times> bool"
  mt_shutdown :: "'i \<Rightarrow> 'm \<Rightarrow> ('m \<times> bool) option"
  mt_is_loaded :: "'m \<Rightarrow> bool"
  mt_client :: "'o \<Rightarrow> 'm \<Rightarrow> 'm \<times> bool"

datatype exception_ptr = StdException string | OtherException

record 'm NetworkWorker =
  nw_future :: bool
  nw_shutdown :: bool
  nw_notify :: bool
  nw_is_worker_started :: bool
  nw_tasks_list :: "task list"
  nw_managers :: "address list"
  nw_error_handlers :: "cb list"
  nw_heap :: "address \<Rightarrow> 'm"
  nw_executed :: "task list"
  nw_error_log :: "(cb \<times> string \<times> string) list"

definition NetworkWorker_init :: "(address \<Rightarrow> 'm) \<Rightarrow> 'm NetworkWorker" where
  "NetworkWorker_init h =
     \<lparr>nw_future = False, nw_shutdown = False, nw_notify = False, nw_is_worker_started = False,
      nw_tasks_list = [], nw_managers = [], nw_error_handlers = [], nw_heap = h, nw_executed = [],
      nw_error_log = []\<rparr>"

definition add_error_handler :: "cb \<Rightarrow> 'm NetworkWorker \<Rightarrow> 'm NetworkWorker" where
  "add_error_handler handler w = w\<lparr>nw_error_handlers := nw_error_handlers w @ [handler]\<rparr>"

text \<open>The handlers are called one after the other, on a copy of the list; what one of them throws is
  swallowed, so that the next is called all the same.\<close>

fun call_handlers :: "cb list \<Rightarrow> string \<Rightarrow> string \<Rightarrow> 'm NetworkWorker \<Rightarrow> 'm NetworkWorker" where
  "call_handlers [] e msg w = w"
| "call_handlers (h # hs) e msg w =
     call_handlers hs e msg (w\<lparr>nw_error_log := nw_error_log w @ [(h, e, msg)]\<rparr>)"

definition handle_error :: "string \<Rightarrow> string \<Rightarrow> 'm NetworkWorker \<Rightarrow> 'm NetworkWorker" where
  "handle_error e msg w =
     (if nw_error_handlers w = [] then w else call_handlers (nw_error_handlers w) e msg w)"

definition handle_error_ptr :: "exception_ptr option \<Rightarrow> string \<Rightarrow> 'm NetworkWorker \<Rightarrow> 'm NetworkWorker" where
  "handle_error_ptr eptr msg w =
     (case eptr of
        None \<Rightarrow> w
      | Some (StdException e) \<Rightarrow> handle_error e msg w
      | Some OtherException \<Rightarrow> handle_error ''Unknown non-std::exception'' msg w)"

definition notify :: "'m NetworkWorker \<Rightarrow> 'm NetworkWorker" where
  "notify w = w\<lparr>nw_notify := True\<rparr>"

definition push_task :: "task \<Rightarrow> 'm NetworkWorker \<Rightarrow> 'm NetworkWorker" where
  "push_task t w = w\<lparr>nw_tasks_list := nw_tasks_list w @ [t]\<rparr>"

definition add_task :: "task \<Rightarrow> 'm NetworkWorker \<Rightarrow> 'm NetworkWorker" where
  "add_task t w = notify (push_task t w)"

definition register_manager :: "address \<Rightarrow> 'm NetworkWorker \<Rightarrow> 'm NetworkWorker" where
  "register_manager p w =
     (if p \<in> set (nw_managers w) then w else w\<lparr>nw_managers := nw_managers w @ [p]\<rparr>)"

definition process_manager ::
    "('i, 'o, 'm) manager_ops \<Rightarrow> 'i \<Rightarrow> address \<Rightarrow> 'm NetworkWorker \<Rightarrow> 'm NetworkWorker \<times> bool" where
  "process_manager ops i p w =
     (let (m, ok) = mt_process ops i (nw_heap w p) in (w\<lparr>nw_heap := (nw_heap w)(p := m)\<rparr>, ok))"

definition shutdown_manager ::
    "('i, 'o, 'm) manager_ops \<Rightarrow> 'i \<Rightarrow> address \<Rightarrow> 'm NetworkWorker \<Rightarrow> ('m NetworkWorker \<times> bool) option" where
  "shutdown_manager ops i p w =
     map_option (\<lambda>(m, ok). (w\<lparr>nw_heap := (nw_heap w)(p := m)\<rparr>, ok)) (mt_shutdown ops i (nw_heap w p))"

fun process_managers ::
    "('i, 'o, 'm) manager_ops \<Rightarrow> (address \<Rightarrow> 'i) \<Rightarrow> address list \<Rightarrow> 'm NetworkWorker \<Rightarrow> 'm NetworkWorker \<times> bool" where
  "process_managers ops inp [] w = (w, True)"
| "process_managers ops inp (p # ps) w =
     (let (w1, ok) = process_manager ops (inp p) p w
      in if ok then process_managers ops inp ps w1 else (w1, False))"

fun shutdown_managers ::
    "('i, 'o, 'm) manager_ops \<Rightarrow> (address \<Rightarrow> 'i) \<Rightarrow> address list \<Rightarrow> 'm NetworkWorker \<Rightarrow> ('m NetworkWorker \<times> bool) option" where
  "shutdown_managers ops inp [] w = Some (w, True)"
| "shutdown_managers ops inp (p # ps) w =
     (case shutdown_manager ops (inp p) p w of
        None \<Rightarrow> None
      | Some (w1, ok) \<Rightarrow> if ok then shutdown_managers ops inp ps w1 else Some (w1, False))"

text \<open>A task that throws ends the loop; the tasks after it in the local list are destroyed.\<close>

fun run_tasks :: "(task \<Rightarrow> bool) \<Rightarrow> task list \<Rightarrow> 'm NetworkWorker \<Rightarrow> 'm NetworkWorker \<times> bool" where
  "run_tasks throws [] w = (w, True)"
| "run_tasks throws (t # ts) w =
     (let w1 = w\<lparr>nw_executed := nw_executed w @ [t]\<rparr>
      in if throws t then (w1, False) else run_tasks throws ts w1)"

definition process_tasks :: "(task \<Rightarrow> bool) \<Rightarrow> 'm NetworkWorker \<Rightarrow> 'm NetworkWorker \<times> bool" where
  "process_tasks throws w =
     (if nw_tasks_list w = [] then (w, True)
      else run_tasks throws (nw_tasks_list w) (w\<lparr>nw_tasks_list := []\<rparr>))"

definition nw_process ::
    "('i, 'o, 'm) manager_ops \<Rightarrow> (address \<Rightarrow> 'i) \<Rightarrow> (task \<Rightarrow> bool) \<Rightarrow> 'm NetworkWorker \<Rightarrow> 'm NetworkWorker \<times> bool" where
  "nw_process ops inp throws w =
     (let (w1, ok) = process_managers ops inp (nw_managers w) w
      in if ok then process_tasks throws w1 else (w1, False))"

definition nw_do_shutdown ::
    "('i, 'o, 'm) manager_ops \<Rightarrow> (address \<Rightarrow> 'i) \<Rightarrow> (task \<Rightarrow> bool) \<Rightarrow> 'm NetworkWorker \<Rightarrow> ('m NetworkWorker \<times> bool) option" where
  "nw_do_shutdown ops inp throws w =
     (case shutdown_managers ops inp (nw_managers w) w of
        None \<Rightarrow> None
      | Some (w1, ok) \<Rightarrow> Some (if ok then process_tasks throws w1 else (w1, False)))"

definition has_pending_tasks :: "'m NetworkWorker \<Rightarrow> bool" where
  "has_pending_tasks w = (nw_tasks_list w \<noteq> [])"

definition managers_loaded :: "('i, 'o, 'm) manager_ops \<Rightarrow> 'm NetworkWorker \<Rightarrow> bool" where
  "managers_loaded ops w = list_ex (\<lambda>p. mt_is_loaded ops (nw_heap w p)) (nw_managers w)"

definition nw_is_loaded :: "('i, 'o, 'm) manager_ops \<Rightarrow> 'm NetworkWorker \<Rightarrow> bool" where
  "nw_is_loaded ops w = (managers_loaded ops w \<or> has_pending_tasks w)"

text \<open>Starting the asynchronous worker makes \<open>m_future\<close> valid; the thread is the second part.\<close>

definition nw_start :: "bool \<Rightarrow> 'm NetworkWorker \<Rightarrow> 'm NetworkWorker" where
  "nw_start use_async w =
     (if nw_is_worker_started w then w
      else let w1 = w\<lparr>nw_is_worker_started := True\<rparr>
           in if \<not> use_async then w1 else w1\<lparr>nw_future := True\<rparr>)"

text \<open>\<open>stop\<close> without a thread, the synchronous mode: the first call shuts down on the caller's thread.\<close>

definition nw_stop_sync ::
    "('i, 'o, 'm) manager_ops \<Rightarrow> (address \<Rightarrow> 'i) \<Rightarrow> (task \<Rightarrow> bool) \<Rightarrow> 'm NetworkWorker \<Rightarrow> ('m NetworkWorker \<times> bool) option" where
  "nw_stop_sync ops inp throws w =
     (if \<not> nw_is_worker_started w \<and> \<not> nw_future w then Some (w, True)
      else let was_shutdown = nw_shutdown w; w1 = w\<lparr>nw_shutdown := True\<rparr>
           in if \<not> was_shutdown then nw_do_shutdown ops inp throws w1 else Some (w1, True))"

section \<open>The worker thread\<close>

text \<open>
  The program counter of the thread: which statement of the lambda in \<open>start\<close> it is about to run. It
  holds \<open>m_managers_mutex\<close> in the states with the list of the managers that are still to be called.
\<close>

datatype worker_pc =
    PcNone
  | PcWait
  | PcCheckStart
  | PcLoadedManagers
  | PcLoadedTasks
  | PcProcessLock
  | PcProcess "address list"
  | PcTakeTasks
  | PcRunTasks "task list"
  | PcCheckProcess
  | PcWaitFor
  | PcCheckWait
  | PcCheckEnd
  | PcShutdownLock
  | PcShutdown "address list"
  | PcShutdownTakeTasks
  | PcShutdownRunTasks "task list"
  | PcReturned
  | PcFailed "task list"

text \<open>
  The system: the worker object, its thread, how many other threads have changed the state and have
  yet to call \<open>notify\<close>, and for the proofs all tasks ever added and the managers that were already loaded
  when they were registered, since the thread last asked all managers whether they are loaded.
\<close>

record 'm nw_system =
  sy_worker :: "'m NetworkWorker"
  sy_pc :: worker_pc
  sy_notifying :: nat
  sy_added :: "task list"
  sy_unseen :: "address set"

record 'i worker_input =
  wi_manager :: "address \<Rightarrow> 'i"
  wi_throws :: "task \<Rightarrow> bool"

definition jump :: "worker_pc \<Rightarrow> 'm nw_system \<Rightarrow> 'm nw_system" where
  "jump pc s = s\<lparr>sy_pc := pc\<rparr>"

definition on_worker :: "('m NetworkWorker \<Rightarrow> 'm NetworkWorker) \<Rightarrow> 'm nw_system \<Rightarrow> 'm nw_system" where
  "on_worker f s = s\<lparr>sy_worker := f (sy_worker s)\<rparr>"

definition check_shutdown :: "worker_pc \<Rightarrow> 'm nw_system \<Rightarrow> 'm nw_system" where
  "check_shutdown pc s =
     jump (if nw_shutdown (sy_worker s) then PcShutdownLock else pc) s"

definition clear_notify :: "'m NetworkWorker \<Rightarrow> 'm NetworkWorker" where
  "clear_notify w = w\<lparr>nw_notify := False\<rparr>"

definition execute_task :: "task \<Rightarrow> 'm NetworkWorker \<Rightarrow> 'm NetworkWorker" where
  "execute_task t w = w\<lparr>nw_executed := nw_executed w @ [t]\<rparr>"

definition clear_tasks :: "'m NetworkWorker \<Rightarrow> 'm NetworkWorker" where
  "clear_tasks w = w\<lparr>nw_tasks_list := []\<rparr>"

text \<open>One step of the thread; \<open>None\<close> when it is blocked or has ended. \<open>wait_for\<close> returns after its
  millisecond whatever the flags are.\<close>

fun worker_step :: "('i, 'o, 'm) manager_ops \<Rightarrow> 'i worker_input \<Rightarrow> 'm nw_system \<Rightarrow> worker_pc \<Rightarrow> 'm nw_system option" where
  "worker_step ops inp s PcNone = None"
| "worker_step ops inp s PcWait =
     (if nw_notify (sy_worker s) then Some (jump PcCheckStart (on_worker clear_notify s)) else None)"
| "worker_step ops inp s PcCheckStart = Some (check_shutdown PcLoadedManagers s)"
| "worker_step ops inp s PcLoadedManagers =
     Some (jump (if managers_loaded ops (sy_worker s) then PcProcessLock else PcLoadedTasks) (s\<lparr>sy_unseen := {}\<rparr>))"
| "worker_step ops inp s PcLoadedTasks =
     Some (jump (if has_pending_tasks (sy_worker s) then PcProcessLock else PcCheckEnd) s)"
| "worker_step ops inp s PcProcessLock = Some (jump (PcProcess (nw_managers (sy_worker s))) s)"
| "worker_step ops inp s (PcProcess []) = Some (jump PcTakeTasks s)"
| "worker_step ops inp s (PcProcess (p # ps)) =
     (let (w, ok) = process_manager ops (wi_manager inp p) p (sy_worker s)
      in Some (jump (if ok then PcProcess ps else PcFailed []) (s\<lparr>sy_worker := w\<rparr>)))"
| "worker_step ops inp s PcTakeTasks =
     Some (jump (PcRunTasks (nw_tasks_list (sy_worker s))) (on_worker clear_tasks s))"
| "worker_step ops inp s (PcRunTasks []) = Some (jump PcCheckProcess s)"
| "worker_step ops inp s (PcRunTasks (t # ts)) =
     Some (jump (if wi_throws inp t then PcFailed ts else PcRunTasks ts) (on_worker (execute_task t) s))"
| "worker_step ops inp s PcCheckProcess = Some (check_shutdown PcWaitFor s)"
| "worker_step ops inp s PcWaitFor = Some (jump PcCheckWait (on_worker clear_notify s))"
| "worker_step ops inp s PcCheckWait = Some (check_shutdown PcLoadedManagers s)"
| "worker_step ops inp s PcCheckEnd = Some (check_shutdown PcWait s)"
| "worker_step ops inp s PcShutdownLock = Some (jump (PcShutdown (nw_managers (sy_worker s))) s)"
| "worker_step ops inp s (PcShutdown []) = Some (jump PcShutdownTakeTasks s)"
| "worker_step ops inp s (PcShutdown (p # ps)) =
     map_option (\<lambda>(w, ok). jump (if ok then PcShutdown ps else PcFailed []) (s\<lparr>sy_worker := w\<rparr>))
       (shutdown_manager ops (wi_manager inp p) p (sy_worker s))"
| "worker_step ops inp s PcShutdownTakeTasks =
     Some (jump (PcShutdownRunTasks (nw_tasks_list (sy_worker s))) (on_worker clear_tasks s))"
| "worker_step ops inp s (PcShutdownRunTasks []) = Some (jump PcReturned s)"
| "worker_step ops inp s (PcShutdownRunTasks (t # ts)) =
     Some (jump (if wi_throws inp t then PcFailed ts else PcShutdownRunTasks ts) (on_worker (execute_task t) s))"
| "worker_step ops inp s PcReturned = None"
| "worker_step ops inp s (PcFailed ts) = None"

definition holds_managers_mutex :: "worker_pc \<Rightarrow> bool" where
  "holds_managers_mutex pc = (case pc of PcProcess _ \<Rightarrow> True | PcShutdown _ \<Rightarrow> True | _ \<Rightarrow> False)"

text \<open>What the other threads do, cut where they leave a critical section: \<open>add_task\<close> up to its
  unlock, the call of \<open>notify\<close> that ends every one of them, \<open>register_manager\<close>, \<open>start\<close>, \<open>stop\<close> up to
  its wait for the future, and the functions of a manager that its clients call; \<open>mt_client\<close> says
  whether the caller then notifies the worker.\<close>

datatype ('i, 'o) nw_action =
    ActWorker "'i worker_input"
  | ActAddTask task
  | ActNotifyWorker
  | ActRegister address
  | ActStart bool
  | ActStop
  | ActClient address 'o

fun nw_act :: "('i, 'o, 'm) manager_ops \<Rightarrow> ('i, 'o) nw_action \<Rightarrow> 'm nw_system \<Rightarrow> 'm nw_system option" where
  "nw_act ops (ActWorker inp) s = worker_step ops inp s (sy_pc s)"
| "nw_act ops (ActAddTask t) s =
     Some ((on_worker (push_task t) s)\<lparr>sy_added := sy_added s @ [t], sy_notifying := sy_notifying s + 1\<rparr>)"
| "nw_act ops ActNotifyWorker s =
     (if sy_notifying s = 0 then None
      else Some ((on_worker notify s)\<lparr>sy_notifying := sy_notifying s - 1\<rparr>))"
| "nw_act ops (ActRegister p) s =
     (if holds_managers_mutex (sy_pc s) then None
      else Some ((on_worker (register_manager p) s)
             \<lparr>sy_unseen := (if mt_is_loaded ops (nw_heap (sy_worker s) p) then insert p (sy_unseen s) else sy_unseen s)\<rparr>))"
| "nw_act ops (ActStart use_async) s =
     Some ((on_worker (nw_start use_async) s)
       \<lparr>sy_pc := (if \<not> nw_is_worker_started (sy_worker s) \<and> use_async then PcWait else sy_pc s)\<rparr>)"
| "nw_act ops ActStop s =
     (if nw_future (sy_worker s)
      then Some ((on_worker (\<lambda>w. w\<lparr>nw_shutdown := True\<rparr>) s)\<lparr>sy_notifying := sy_notifying s + 1\<rparr>)
      else None)"
| "nw_act ops (ActClient p x) s =
     (let (m, notifies) = mt_client ops x (nw_heap (sy_worker s) p)
      in Some ((on_worker (\<lambda>w. w\<lparr>nw_heap := (nw_heap w)(p := m)\<rparr>) s)
           \<lparr>sy_notifying := sy_notifying s + (if notifies then 1 else 0)\<rparr>))"

definition nw_system_init :: "(address \<Rightarrow> 'm) \<Rightarrow> 'm nw_system" where
  "nw_system_init h =
     \<lparr>sy_worker = NetworkWorker_init h, sy_pc = PcNone, sy_notifying = 0, sy_added = [], sy_unseen = {}\<rparr>"

text \<open>A run of the system as the list of its actions; an action that is not enabled ends it with \<open>None\<close>.\<close>

fun nw_run :: "('i, 'o, 'm) manager_ops \<Rightarrow> ('i, 'o) nw_action list \<Rightarrow> 'm nw_system \<Rightarrow> 'm nw_system option" where
  "nw_run ops [] s = Some s"
| "nw_run ops (a # as) s = (case nw_act ops a s of None \<Rightarrow> None | Some s' \<Rightarrow> nw_run ops as s')"

inductive nw_reachable :: "('i, 'o, 'm) manager_ops \<Rightarrow> (address \<Rightarrow> 'm) \<Rightarrow> 'm nw_system \<Rightarrow> bool"
  for ops h where
  nw_reach_init: "nw_reachable ops h (nw_system_init h)"
| nw_reach_act: "nw_reachable ops h s \<Longrightarrow> nw_act ops a s = Some s' \<Longrightarrow> nw_reachable ops h s'"

end
