(* ===== verification/Refinement.thy ===== *)
theory Refinement
  imports Main
begin

text \<open>
  The contract of a refinement: a transition system with an invariant, an abstract transition system,
  and a map of states under which every step is an abstract step or changes nothing that the map
  shows. The lemmas carry runs and abstract invariants over to the detailed system once and for all;
  refinements compose. The request manager, the task queue of the network worker, the WebSocket client and the WebSocket
  client on its transport adapter are instances.
\<close>

locale refinement =
  fixes step :: "'s \<Rightarrow> 's \<Rightarrow> bool"
    and inv :: "'s \<Rightarrow> bool"
    and astep :: "'a \<Rightarrow> 'a \<Rightarrow> bool"
    and abs :: "'s \<Rightarrow> 'a"
  assumes inv_step: "inv s \<Longrightarrow> step s s' \<Longrightarrow> inv s'"
    and simulates: "inv s \<Longrightarrow> step s s' \<Longrightarrow> abs s' = abs s \<or> astep (abs s) (abs s')"
begin

lemma run_inv: "step\<^sup>*\<^sup>* s s' \<Longrightarrow> inv s \<Longrightarrow> inv s'"
  by (induction rule: rtranclp_induct) (auto intro: inv_step)

lemma run_refines: "step\<^sup>*\<^sup>* s s' \<Longrightarrow> inv s \<Longrightarrow> astep\<^sup>*\<^sup>* (abs s) (abs s')"
proof (induction rule: rtranclp_induct)
  case (step y z)
  then have "abs z = abs y \<or> astep (abs y) (abs z)" using simulates run_inv by blast
  then show ?case using step by (metis rtranclp.rtrancl_into_rtrancl)
qed simp

text \<open>What the abstract steps keep, the detailed runs keep.\<close>

lemma run_keeps:
  assumes "\<And>x y. astep x y \<Longrightarrow> P x \<Longrightarrow> P y" "step\<^sup>*\<^sup>* s s'" "inv s" "P (abs s)"
  shows "P (abs s')"
  using run_refines [OF assms(2,3)] assms(1,4) by (induction rule: rtranclp_induct) auto

end

text \<open>Two refinements on top of each other.\<close>

locale refinement_chain =
  lower: refinement step inv mstep mabs + upper: refinement mstep minv astep abs
  for step :: "'s \<Rightarrow> 's \<Rightarrow> bool" and inv and mstep :: "'m \<Rightarrow> 'm \<Rightarrow> bool" and mabs and minv
    and astep :: "'a \<Rightarrow> 'a \<Rightarrow> bool" and abs +
  assumes inv_abs: "inv s \<Longrightarrow> minv (mabs s)"

sublocale refinement_chain \<subseteq> whole: refinement step inv astep "\<lambda>s. abs (mabs s)"
proof
  show "inv s'" if "inv s" "step s s'" for s s' using that by (rule lower.inv_step)
  show "abs (mabs s') = abs (mabs s) \<or> astep (abs (mabs s)) (abs (mabs s'))" if "inv s" "step s s'" for s s'
    using lower.simulates [OF that] upper.simulates [OF inv_abs [OF that(1)]] by fastforce
qed

end
