(* ===== verification/Network_Worker_Props.thy ===== *)
theory Network_Worker_Props
  imports Network_Worker Refinement
begin

text \<open>
  What the worker relies on in a manager, as the locale \<open>task_manager\<close>, and what it guarantees in
  return: no wake-up is lost, tasks are run in order and at most once, \<open>stop\<close> ends the thread. The
  guarantees are proved for any managers with these laws and for every interleaving.
\<close>

lemmas nw_simps = jump_def on_worker_def check_shutdown_def clear_notify_def execute_task_def clear_tasks_def
  process_manager_def shutdown_manager_def notify_def push_task_def Let_def

lemma register_manager_fields [simp]:
  "nw_managers (register_manager p w) = (if p \<in> set (nw_managers w) then nw_managers w else nw_managers w @ [p])"
  "nw_heap (register_manager p w) = nw_heap w" "nw_notify (register_manager p w) = nw_notify w"
  "nw_tasks_list (register_manager p w) = nw_tasks_list w" "nw_shutdown (register_manager p w) = nw_shutdown w"
  "nw_executed (register_manager p w) = nw_executed w"
  by (simp_all add: register_manager_def)

section \<open>Threads and flags\<close>

text \<open>The thread exists exactly when \<open>m_future\<close> is valid, and only a started worker has one.\<close>

definition thread_inv :: "'m nw_system \<Rightarrow> bool" where
  "thread_inv s =
     ((sy_pc s = PcNone \<longleftrightarrow> \<not> nw_future (sy_worker s)) \<and>
      (nw_future (sy_worker s) \<longrightarrow> nw_is_worker_started (sy_worker s)) \<and>
      (nw_shutdown (sy_worker s) \<longrightarrow> nw_future (sy_worker s)))"

lemma worker_step_flags:
  assumes "worker_step ops inp s pc = Some s'"
  shows "nw_future (sy_worker s') = nw_future (sy_worker s) \<and> nw_shutdown (sy_worker s') = nw_shutdown (sy_worker s) \<and>
    nw_is_worker_started (sy_worker s') = nw_is_worker_started (sy_worker s) \<and>
    nw_managers (sy_worker s') = nw_managers (sy_worker s) \<and> sy_notifying s' = sy_notifying s \<and>
    sy_added s' = sy_added s \<and> sy_pc s' \<noteq> PcNone \<and> pc \<noteq> PcNone"
  using assms
  by (cases "(ops, inp, s, pc)" rule: worker_step.cases) (auto simp: nw_simps split: prod.splits if_splits)

lemma thread_inv_act: "thread_inv s \<Longrightarrow> nw_act ops a s = Some s' \<Longrightarrow> thread_inv s'"
  using worker_step_flags [of ops _ s "sy_pc s" s']
  by (cases "(ops, a, s)" rule: nw_act.cases)
    (auto simp: thread_inv_def nw_simps nw_start_def register_manager_def split: prod.splits if_splits)

text \<open>A set \<open>m_notify\<close>, or a thread about to set it.\<close>

definition woken :: "'m nw_system \<Rightarrow> bool" where
  "woken s = (nw_notify (sy_worker s) \<or> sy_notifying s > 0)"

lemma start_cases:
  assumes "thread_inv s" "nw_act ops (ActStart b) s = Some s'"
  obtains "s' = s"
  | "sy_pc s = PcNone" "\<not> nw_shutdown (sy_worker s)" "sy_pc s' = PcWait \<or> sy_pc s' = PcNone"
    "nw_shutdown (sy_worker s') = nw_shutdown (sy_worker s)" "nw_tasks_list (sy_worker s') = nw_tasks_list (sy_worker s)"
    "nw_managers (sy_worker s') = nw_managers (sy_worker s)" "nw_heap (sy_worker s') = nw_heap (sy_worker s)"
    "sy_unseen s' = sy_unseen s" "woken s' = woken s" "sy_added s' = sy_added s"
proof (cases "nw_is_worker_started (sy_worker s)")
  case True
  then have "s' = s" using assms(2) by (simp add: on_worker_def nw_start_def)
  then show thesis by (rule that(1))
next
  case False
  let ?w = "if b then (sy_worker s)\<lparr>nw_is_worker_started := True, nw_future := True\<rparr>
    else (sy_worker s)\<lparr>nw_is_worker_started := True\<rparr>"
  have pc: "sy_pc s = PcNone" "\<not> nw_shutdown (sy_worker s)" using False assms(1) by (auto simp: thread_inv_def)
  have s': "s' = s\<lparr>sy_worker := ?w, sy_pc := (if b then PcWait else sy_pc s)\<rparr>"
    using False assms(2) by (cases b) (auto simp: on_worker_def nw_start_def Let_def)
  show thesis by (rule that(2)) (simp_all add: s' pc woken_def split: if_split)
qed

lemma thread_inv_reachable: "nw_reachable ops h s \<Longrightarrow> thread_inv s"
proof (induction rule: nw_reachable.induct)
  case nw_reach_init
  show ?case by (simp add: thread_inv_def nw_system_init_def NetworkWorker_init_def)
qed (rule thread_inv_act)

section \<open>Tasks\<close>

text \<open>
  The specification of the task queue: a serial executor, which accepts tasks and runs them one at a
  time in the order of acceptance. Its state is what waits and what has been run.
\<close>

inductive serial_step :: "task list \<times> task list \<Rightarrow> task list \<times> task list \<Rightarrow> bool" where
  serial_add: "serial_step (waiting, run) (waiting @ [t], run)"
| serial_run: "serial_step (t # waiting, run) (waiting, run @ [t])"

definition local_tasks :: "worker_pc \<Rightarrow> task list" where
  "local_tasks pc =
     (case pc of PcRunTasks ts \<Rightarrow> ts | PcShutdownRunTasks ts \<Rightarrow> ts | PcFailed ts \<Rightarrow> ts | _ \<Rightarrow> [])"

definition abs_tasks :: "'m nw_system \<Rightarrow> task list \<times> task list" where
  "abs_tasks s = (local_tasks (sy_pc s) @ nw_tasks_list (sy_worker s), nw_executed (sy_worker s))"

lemma worker_step_tasks:
  assumes "worker_step ops inp s (sy_pc s) = Some s'"
  shows "abs_tasks s' = abs_tasks s \<or>
    (\<exists>t w. abs_tasks s = (t # w, nw_executed (sy_worker s)) \<and> abs_tasks s' = (w, nw_executed (sy_worker s) @ [t]))"
  using assms
  by (cases "(ops, inp, s, sy_pc s)" rule: worker_step.cases)
    (auto simp: nw_simps abs_tasks_def local_tasks_def split: prod.splits if_splits)

lemma act_refines_serial:
  assumes "thread_inv s" "nw_act ops a s = Some s'"
  shows "abs_tasks s' = abs_tasks s \<or> serial_step (abs_tasks s) (abs_tasks s')"
proof (cases a)
  case (ActWorker inp)
  with assms(2) worker_step_tasks [of ops inp s s'] show ?thesis
    by (metis nw_act.simps(1) serial_run)
next
  case (ActAddTask t)
  with assms(2) have "abs_tasks s' = (fst (abs_tasks s) @ [t], snd (abs_tasks s))"
    by (auto simp: abs_tasks_def nw_simps)
  then show ?thesis using serial_add [of "fst (abs_tasks s)" "snd (abs_tasks s)" t] by simp
qed (use assms in \<open>auto simp: abs_tasks_def nw_simps register_manager_def nw_start_def thread_inv_def local_tasks_def
      split: if_splits prod.splits\<close>)

interpretation serial: refinement "\<lambda>s s'. \<exists>a. nw_act ops a s = Some s'" thread_inv serial_step abs_tasks for ops
  by unfold_locales (use thread_inv_act act_refines_serial in blast)+

lemma nw_reachable_run: "nw_reachable ops h s \<Longrightarrow> (\<lambda>s s'. \<exists>a. nw_act ops a s = Some s')\<^sup>*\<^sup>* (nw_system_init h) s"
  by (induction rule: nw_reachable.induct) (auto intro: rtranclp.rtrancl_into_rtrancl)

lemma nw_reachable_serial: "nw_reachable ops h s \<Longrightarrow> serial_step\<^sup>*\<^sup>* ([], []) (abs_tasks s)"
  using serial.run_refines [OF nw_reachable_run thread_inv_reachable [OF nw_reach_init]]
  by (simp add: abs_tasks_def nw_system_init_def NetworkWorker_init_def local_tasks_def)

lemma added_tasks:
  assumes "thread_inv s" "nw_act ops a s = Some s'"
    and "snd (abs_tasks s) @ fst (abs_tasks s) = sy_added s"
  shows "snd (abs_tasks s') @ fst (abs_tasks s') = sy_added s'"
proof (cases a)
  case (ActWorker inp)
  with assms worker_step_tasks [of ops inp s s'] worker_step_flags [of ops inp s "sy_pc s" s'] show ?thesis
    by (auto simp: abs_tasks_def)
qed (use assms in \<open>auto simp: abs_tasks_def nw_simps register_manager_def nw_start_def thread_inv_def local_tasks_def
      split: if_splits prod.splits\<close>)

lemma reachable_tasks: "nw_reachable ops h s \<Longrightarrow> snd (abs_tasks s) @ fst (abs_tasks s) = sy_added s"
proof (induction rule: nw_reachable.induct)
  case nw_reach_init
  show ?case by (simp add: abs_tasks_def nw_system_init_def NetworkWorker_init_def local_tasks_def)
next
  case (nw_reach_act s a s')
  then show ?case using added_tasks thread_inv_reachable by blast
qed

section \<open>Stopping\<close>

text \<open>An upper bound on the steps the thread still takes once \<open>m_shutdown\<close> is set.\<close>

definition todo :: "'m nw_system \<Rightarrow> nat" where
  "todo s =
     (let n = length (nw_managers (sy_worker s)); k = length (nw_tasks_list (sy_worker s))
      in case sy_pc s of
           PcLoadedManagers \<Rightarrow> 11 + 2 * n + k
         | PcLoadedTasks \<Rightarrow> 10 + 2 * n + k
         | PcProcessLock \<Rightarrow> 9 + 2 * n + k
         | PcProcess ps \<Rightarrow> 8 + length ps + n + k
         | PcTakeTasks \<Rightarrow> 7 + n + k
         | PcRunTasks ts \<Rightarrow> 6 + length ts + n + k
         | PcWait \<Rightarrow> 6 + n + k
         | PcWaitFor \<Rightarrow> 6 + n + k
         | PcCheckStart \<Rightarrow> 5 + n + k
         | PcCheckProcess \<Rightarrow> 5 + n + k
         | PcCheckWait \<Rightarrow> 5 + n + k
         | PcCheckEnd \<Rightarrow> 5 + n + k
         | PcShutdownLock \<Rightarrow> 4 + n + k
         | PcShutdown ps \<Rightarrow> 3 + length ps + k
         | PcShutdownTakeTasks \<Rightarrow> 2 + k
         | PcShutdownRunTasks ts \<Rightarrow> 1 + length ts
         | _ \<Rightarrow> 0)"

lemma worker_step_todo:
  assumes "worker_step ops inp s (sy_pc s) = Some s'" "nw_shutdown (sy_worker s)"
  shows "todo s' < todo s"
  using assms
  by (cases "(ops, inp, s, sy_pc s)" rule: worker_step.cases)
    (auto simp: nw_simps todo_def split: prod.splits if_splits)

fun cost :: "('i, 'o) nw_action \<Rightarrow> nat" where
  "cost (ActAddTask t) = 1"
| "cost (ActRegister p) = 2"
| "cost _ = 0"

fun is_worker_act :: "('i, 'o) nw_action \<Rightarrow> bool" where
  "is_worker_act (ActWorker inp) = True"
| "is_worker_act _ = False"

lemma act_todo:
  assumes "nw_act ops a s = Some s'" "nw_shutdown (sy_worker s)" "thread_inv s"
  shows "todo s' + of_bool (is_worker_act a) \<le> todo s + cost a \<and> nw_shutdown (sy_worker s')"
proof (cases a)
  case (ActWorker inp)
  with assms worker_step_todo [of ops inp s s'] worker_step_flags [of ops inp s "sy_pc s" s'] show ?thesis by simp
next
  case (ActStart b)
  with assms have "s' = s" by (auto simp: thread_inv_def nw_start_def on_worker_def)
  with ActStart assms show ?thesis by simp
next
  case (ActRegister p)
  with assms show ?thesis
    by (cases "sy_pc s") (auto simp: todo_def on_worker_def register_manager_def holds_managers_mutex_def split: if_splits)
qed (use assms in \<open>cases "sy_pc s"; auto simp: todo_def nw_simps split: prod.splits if_splits\<close>)+

lemma run_todo:
  assumes "nw_run ops as s = Some s'" "nw_shutdown (sy_worker s)" "thread_inv s"
  shows "todo s' + length (filter is_worker_act as) \<le> todo s + sum_list (map cost as) \<and> nw_shutdown (sy_worker s') \<and> thread_inv s'"
  using assms
proof (induction as arbitrary: s)
  case (Cons a as)
  then obtain s1 where s1: "nw_act ops a s = Some s1" "nw_run ops as s1 = Some s'" by (auto split: option.splits)
  from act_todo [OF s1(1) Cons.prems(2,3)] Cons.IH [OF s1(2)] thread_inv_act [OF Cons.prems(3) s1(1)] show ?case
    by (cases "is_worker_act a") auto
qed auto

text \<open>Where the thread can be blocked: only in the wait for a notification, or in a manager's shutdown
  that does not return.\<close>

lemma worker_step_enabled:
  assumes "\<And>i m. mt_shutdown ops i m \<noteq> None" "sy_pc s \<notin> {PcNone, PcReturned}" "\<And>ts. sy_pc s \<noteq> PcFailed ts"
    and "sy_pc s = PcWait \<Longrightarrow> nw_notify (sy_worker s)"
  shows "worker_step ops inp s (sy_pc s) \<noteq> None"
  using assms
  by (cases "(ops, inp, s, sy_pc s)" rule: worker_step.cases)
    (auto simp: shutdown_manager_def simp del: not_None_eq split: prod.splits)

text \<open>The tasks that were there before the shutdown began have all been run when the thread returns.\<close>

definition finishing :: "nat \<Rightarrow> 'm nw_system \<Rightarrow> bool" where
  "finishing n s =
     (sy_pc s = PcReturned \<or> (\<exists>ts. sy_pc s = PcShutdownRunTasks ts) \<longrightarrow>
        n \<le> length (nw_executed (sy_worker s)) + length (local_tasks (sy_pc s)))"

lemma finishing_act:
  assumes "nw_reachable ops h s" "nw_act ops a s = Some s'" "finishing n s" "n \<le> length (sy_added s)"
  shows "finishing n s' \<and> n \<le> length (sy_added s')"
proof (cases a)
  case (ActWorker inp)
  have "length (nw_executed (sy_worker s)) + length (local_tasks (sy_pc s)) + length (nw_tasks_list (sy_worker s)) =
      length (sy_added s)"
    using arg_cong [OF reachable_tasks [OF assms(1)], of length] by (simp add: abs_tasks_def)
  with assms(2-4) ActWorker show ?thesis
    by (cases "(ops, inp, s, sy_pc s)" rule: worker_step.cases)
      (auto simp: finishing_def nw_simps local_tasks_def split: prod.splits if_splits)
next
  case (ActStart b)
  from assms(2) [unfolded ActStart] show ?thesis
    by (rule start_cases [OF thread_inv_reachable [OF assms(1)]]) (use assms(3,4) in \<open>auto simp: finishing_def\<close>)
qed (use assms(2-4) in \<open>auto simp: finishing_def nw_simps split: prod.splits if_splits\<close>)

lemma finishing_run:
  assumes "nw_reachable ops h s" "nw_run ops as s = Some s'" "finishing n s" "n \<le> length (sy_added s)"
  shows "finishing n s'"
  using assms
proof (induction as arbitrary: s)
  case (Cons a as)
  then obtain s1 where s1: "nw_act ops a s = Some s1" "nw_run ops as s1 = Some s'" by (auto split: option.splits)
  with finishing_act [OF Cons.prems(1) s1(1) Cons.prems(3,4)] Cons.IH [OF nw_reach_act [OF Cons.prems(1) s1(1)] s1(2)]
  show ?case by blast
qed auto

section \<open>Waking up\<close>

lemma woken_act:
  assumes "nw_act ops a s = Some s'" "(\<exists>t. a = ActAddTask t) \<or> a = ActNotifyWorker \<or> a = ActStop"
  shows "woken s'"
  using assms by (auto simp: woken_def nw_simps split: if_splits)

definition winding_down :: "worker_pc \<Rightarrow> bool" where
  "winding_down pc =
     (case pc of PcShutdown _ \<Rightarrow> True | PcShutdownTakeTasks \<Rightarrow> True | PcShutdownRunTasks _ \<Rightarrow> True
      | PcReturned \<Rightarrow> True | PcFailed _ \<Rightarrow> True | _ \<Rightarrow> False)"

definition tasks_inv :: "'m nw_system \<Rightarrow> bool" where
  "tasks_inv s =
     ((sy_pc s \<in> {PcNone, PcWait, PcCheckEnd} \<longrightarrow> has_pending_tasks (sy_worker s) \<longrightarrow> woken s) \<and>
      (sy_pc s = PcWait \<longrightarrow> nw_shutdown (sy_worker s) \<longrightarrow> woken s))"

lemma tasks_inv_worker:
  assumes "tasks_inv s" "worker_step ops inp s (sy_pc s) = Some s'"
  shows "tasks_inv s'"
  using assms
  by (cases "(ops, inp, s, sy_pc s)" rule: worker_step.cases)
    (auto simp: tasks_inv_def nw_simps woken_def has_pending_tasks_def split: prod.splits if_splits)

lemma tasks_inv_act:
  assumes "tasks_inv s" "thread_inv s" "nw_act ops a s = Some s'"
  shows "tasks_inv s'"
proof (cases a)
  case (ActWorker inp)
  with assms tasks_inv_worker show ?thesis by auto
next
  case (ActStart b)
  note st = assms(3) [unfolded ActStart]
  show ?thesis
    by (rule start_cases [OF assms(2) st]) (use assms(1) in \<open>simp_all add: tasks_inv_def has_pending_tasks_def\<close>)
next
  case (ActClient p x)
  obtain m' b where c: "mt_client ops x (nw_heap (sy_worker s) p) = (m', b)" by fastforce
  have "sy_pc s' = sy_pc s" "woken s' = (b \<or> woken s)" "nw_tasks_list (sy_worker s') = nw_tasks_list (sy_worker s)"
    "nw_shutdown (sy_worker s') = nw_shutdown (sy_worker s)"
    using assms(3) ActClient c by (auto simp: on_worker_def woken_def)
  with assms(1) show ?thesis by (simp add: tasks_inv_def has_pending_tasks_def)
next
  case (ActRegister p)
  with assms(3) have "sy_pc s' = sy_pc s" "woken s' = woken s" "nw_tasks_list (sy_worker s') = nw_tasks_list (sy_worker s)"
    "nw_shutdown (sy_worker s') = nw_shutdown (sy_worker s)"
    by (auto simp: on_worker_def woken_def split: if_splits)
  with assms(1) show ?thesis by (simp add: tasks_inv_def has_pending_tasks_def)
qed (use assms(3) woken_act [of ops a s s'] in \<open>simp_all add: tasks_inv_def\<close>)

lemma reachable_tasks_inv: "nw_reachable ops h s \<Longrightarrow> tasks_inv s"
proof (induction rule: nw_reachable.induct)
  case nw_reach_init
  show ?case by (simp add: tasks_inv_def nw_system_init_def NetworkWorker_init_def has_pending_tasks_def)
qed (use tasks_inv_act thread_inv_reachable in blast)

text \<open>
  The interface of a manager, \<^verbatim>\<open>INetworkTaskManager\<close>: its invariant is kept by \<open>process\<close> and by its
  clients; a client that makes an idle manager loaded notifies the worker; and a manager that is not
  loaded is settled, whatever that means for it.
\<close>

locale task_manager =
  fixes ops :: "('i, 'o, 'm) manager_ops" and minv :: "'m \<Rightarrow> bool" and settled :: "'m \<Rightarrow> bool"
  assumes process_inv: "minv m \<Longrightarrow> minv (fst (mt_process ops i m))"
    and client_inv: "minv m \<Longrightarrow> minv (fst (mt_client ops x m))"
    and client_quiet: "minv m \<Longrightarrow> mt_client ops x m = (m', False) \<Longrightarrow> mt_is_loaded ops m' \<Longrightarrow> mt_is_loaded ops m"
    and idle_settled: "minv m \<Longrightarrow> \<not> mt_is_loaded ops m \<Longrightarrow> settled m"
begin

definition heap_inv :: "'m nw_system \<Rightarrow> bool" where
  "heap_inv s = (\<not> winding_down (sy_pc s) \<longrightarrow> (\<forall>p. minv (nw_heap (sy_worker s) p)))"

definition managers_inv :: "'m nw_system \<Rightarrow> bool" where
  "managers_inv s =
     (sy_pc s \<in> {PcNone, PcWait, PcLoadedTasks, PcCheckEnd} \<longrightarrow>
        (\<forall>p \<in> set (nw_managers (sy_worker s)) - sy_unseen s. mt_is_loaded ops (nw_heap (sy_worker s) p) \<longrightarrow> woken s))"

lemma heap_inv_worker:
  assumes "heap_inv s" "worker_step ops inp s (sy_pc s) = Some s'"
  shows "heap_inv s'"
proof -
  have p: "mt_process ops i m = (m', ok) \<Longrightarrow> minv m \<Longrightarrow> minv m'" for i m m' ok
    using process_inv [of m i] by simp
  show ?thesis
    using assms
    by (cases "(ops, inp, s, sy_pc s)" rule: worker_step.cases,
        auto simp: heap_inv_def nw_simps winding_down_def split: prod.splits if_splits) (metis p)
qed

lemma managers_inv_worker:
  assumes "managers_inv s" "worker_step ops inp s (sy_pc s) = Some s'"
  shows "managers_inv s'"
  using assms
  by (cases "(ops, inp, s, sy_pc s)" rule: worker_step.cases)
    (auto simp: managers_inv_def nw_simps woken_def managers_loaded_def list_ex_iff split: prod.splits if_splits)

lemma quiet_client:
  "heap_inv s \<Longrightarrow> \<not> winding_down (sy_pc s) \<Longrightarrow> mt_client ops x (nw_heap (sy_worker s) p) = (m', False) \<Longrightarrow>
   mt_is_loaded ops m' \<Longrightarrow> mt_is_loaded ops (nw_heap (sy_worker s) p)"
  using client_quiet by (auto simp: heap_inv_def)

lemma heap_inv_act:
  assumes "heap_inv s" "thread_inv s" "nw_act ops a s = Some s'"
  shows "heap_inv s'"
proof (cases a)
  case (ActWorker inp)
  with assms heap_inv_worker show ?thesis by auto
next
  case (ActClient p x)
  obtain m' b where c: "mt_client ops x (nw_heap (sy_worker s) p) = (m', b)" by fastforce
  have "minv (nw_heap (sy_worker s) p) \<Longrightarrow> minv m'" using client_inv [of "nw_heap (sy_worker s) p" x] c by simp
  with ActClient c assms show ?thesis by (auto simp: heap_inv_def nw_simps)
qed (use assms in \<open>auto simp: heap_inv_def nw_simps thread_inv_def winding_down_def register_manager_def nw_start_def
      split: if_splits\<close>)

lemma managers_inv_client:
  assumes "managers_inv s" "heap_inv s" "nw_act ops (ActClient p x) s = Some s'"
  shows "managers_inv s'"
proof -
  obtain m' b where c: "mt_client ops x (nw_heap (sy_worker s) p) = (m', b)" by fastforce
  have q: "b \<or> (mt_is_loaded ops m' \<longrightarrow> mt_is_loaded ops (nw_heap (sy_worker s) p))" if "\<not> winding_down (sy_pc s)"
    using quiet_client [OF assms(2) that, of x p m'] c by (cases b) auto
  have s': "sy_worker s' = (sy_worker s)\<lparr>nw_heap := (nw_heap (sy_worker s))(p := m')\<rparr>" "sy_pc s' = sy_pc s"
    "sy_notifying s' = sy_notifying s + (if b then 1 else 0)" "sy_unseen s' = sy_unseen s"
    using assms(3) c by (auto simp: on_worker_def)
  have w: "woken s' = (b \<or> woken s)" by (simp add: woken_def s')
  show ?thesis
    unfolding managers_inv_def
  proof (intro impI ballI)
    fix p'
    assume pc: "sy_pc s' \<in> {PcNone, PcWait, PcLoadedTasks, PcCheckEnd}"
      and p': "p' \<in> set (nw_managers (sy_worker s')) - sy_unseen s'" "mt_is_loaded ops (nw_heap (sy_worker s') p')"
    from pc have "\<not> winding_down (sy_pc s)" by (auto simp: s' winding_down_def)
    with q p'(2) have "b \<or> mt_is_loaded ops (nw_heap (sy_worker s) p')" by (auto simp: s' split: if_splits)
    with assms(1) pc p'(1) show "woken s'" unfolding w managers_inv_def by (auto simp: s')
  qed
qed

lemma managers_inv_register:
  assumes "managers_inv s" "nw_act ops (ActRegister p) s = Some s'"
  shows "managers_inv s'"
proof -
  from assms(2) have s': "sy_pc s' = sy_pc s" "woken s' = woken s" "nw_heap (sy_worker s') = nw_heap (sy_worker s)"
    "set (nw_managers (sy_worker s')) = insert p (set (nw_managers (sy_worker s)))"
    "sy_unseen s' = (if mt_is_loaded ops (nw_heap (sy_worker s) p) then insert p (sy_unseen s) else sy_unseen s)"
    by (auto simp: on_worker_def woken_def split: if_splits)
  show ?thesis
    unfolding managers_inv_def
  proof (intro impI ballI)
    fix p'
    assume pc: "sy_pc s' \<in> {PcNone, PcWait, PcLoadedTasks, PcCheckEnd}"
      and p': "p' \<in> set (nw_managers (sy_worker s')) - sy_unseen s'" "mt_is_loaded ops (nw_heap (sy_worker s') p')"
    then have "p' \<noteq> p" by (auto simp: s' split: if_splits)
    with p' have "p' \<in> set (nw_managers (sy_worker s)) - sy_unseen s" "mt_is_loaded ops (nw_heap (sy_worker s) p')"
      by (auto simp: s' split: if_splits)
    with assms(1) pc show "woken s'" unfolding managers_inv_def s' by blast
  qed
qed

lemma managers_inv_act:
  assumes "managers_inv s" "heap_inv s" "thread_inv s" "nw_act ops a s = Some s'"
  shows "managers_inv s'"
proof (cases a)
  case (ActWorker inp)
  with assms managers_inv_worker show ?thesis by auto
next
  case (ActStart b)
  note st = assms(4) [unfolded ActStart]
  show ?thesis by (rule start_cases [OF assms(3) st]) (use assms(1) in \<open>simp_all add: managers_inv_def\<close>)
next
  case (ActClient p x)
  with assms managers_inv_client show ?thesis by blast
next
  case (ActRegister p)
  with assms managers_inv_register show ?thesis by blast
qed (use assms(1,4) woken_act [of ops a s s'] in \<open>simp_all add: managers_inv_def\<close>)

lemma reachable_wake:
  assumes "nw_reachable ops h s" "\<And>p. minv (h p)"
  shows "heap_inv s \<and> managers_inv s"
  using assms(1)
proof (induction rule: nw_reachable.induct)
  case nw_reach_init
  show ?case using assms(2)
    by (simp add: heap_inv_def managers_inv_def nw_system_init_def NetworkWorker_init_def)
next
  case (nw_reach_act s a s')
  with thread_inv_reachable [OF nw_reach_act(1)] heap_inv_act managers_inv_act show ?case by blast
qed

text \<open>A thread that sleeps with nobody about to wake it has nothing left to do.\<close>

lemma asleep_settled:
  assumes "nw_reachable ops h s" "\<And>p. minv (h p)"
    and "sy_pc s = PcWait" "\<not> nw_notify (sy_worker s)" "sy_notifying s = 0"
  shows "nw_tasks_list (sy_worker s) = [] \<and> nw_executed (sy_worker s) = sy_added s \<and> \<not> nw_shutdown (sy_worker s) \<and>
    (\<forall>p \<in> set (nw_managers (sy_worker s)) - sy_unseen s.
       \<not> mt_is_loaded ops (nw_heap (sy_worker s) p) \<and> settled (nw_heap (sy_worker s) p))"
proof -
  note r = reachable_wake [OF assms(1,2)]
  have n: "\<not> woken s" using assms(4,5) by (simp add: woken_def)
  from reachable_tasks_inv [OF assms(1)] n assms(3) have t: "nw_tasks_list (sy_worker s) = []" "\<not> nw_shutdown (sy_worker s)"
    by (auto simp: tasks_inv_def has_pending_tasks_def)
  with reachable_tasks [OF assms(1)] assms(3) have "nw_executed (sy_worker s) = sy_added s"
    by (simp add: abs_tasks_def local_tasks_def)
  moreover have l: "\<not> mt_is_loaded ops (nw_heap (sy_worker s) p)"
    if "p \<in> set (nw_managers (sy_worker s)) - sy_unseen s" for p
    using r n assms(3) that by (auto simp: managers_inv_def)
  moreover have "minv (nw_heap (sy_worker s) p)" for p
    using r assms(3) by (simp add: heap_inv_def winding_down_def)
  ultimately show ?thesis using t idle_settled by blast
qed

end

section \<open>Guarantees\<close>

definition demo_manager :: "(nat, nat, nat) manager_ops" where
  "demo_manager =
     \<lparr>mt_process = (\<lambda>i m. (m - i, True)), mt_shutdown = (\<lambda>i m. Some (0, True)), mt_is_loaded = (\<lambda>m. m > 0),
      mt_client = (\<lambda>x m. (m + x, True))\<rparr>"

definition demo_input :: "nat worker_input" where
  "demo_input = \<lparr>wi_manager = (\<lambda>_. 1), wi_throws = (\<lambda>_. False)\<rparr>"

definition demo_run :: "(nat, nat) nw_action list" where
  "demo_run = [ActRegister 0, ActStart True, ActAddTask 4, ActNotifyWorker, ActAddTask 5] @ replicate 8 (ActWorker demo_input)"

definition demo_state :: "nat nw_system" where
  "demo_state = (case nw_run demo_manager demo_run (nw_system_init (\<lambda>_. 0)) of None \<Rightarrow> nw_system_init (\<lambda>_. 0) | Some s \<Rightarrow> s)"

lemma nw_run_reachable:
  "nw_reachable ops h s \<Longrightarrow> nw_run ops as s = Some s' \<Longrightarrow> nw_reachable ops h s'"
  by (induction as arbitrary: s) (auto split: option.splits intro: nw_reach_act)

lemma demo_state_facts:
  "nw_run demo_manager demo_run (nw_system_init (\<lambda>_. 0)) = Some demo_state"
  "sy_pc demo_state = PcRunTasks [4, 5]" "sy_added demo_state = [4, 5]" "nw_shutdown (sy_worker demo_state) = False"
proof -
  have "\<not> Option.is_none (nw_run demo_manager demo_run (nw_system_init (\<lambda>_. 0)))" by code_simp
  then show "nw_run demo_manager demo_run (nw_system_init (\<lambda>_. 0)) = Some demo_state"
    by (auto simp: demo_state_def Option.is_none_def)
  have "case sy_pc demo_state of PcRunTasks ts \<Rightarrow> ts = [4, 5] | _ \<Rightarrow> False" by code_simp
  then show "sy_pc demo_state = PcRunTasks [4, 5]" by (simp split: worker_pc.splits)
  show "sy_added demo_state = [4, 5]" by code_simp
  have "nw_shutdown (sy_worker demo_state) \<longleftrightarrow> False" by code_simp
  then show "nw_shutdown (sy_worker demo_state) = False" .
qed

text \<open>
  C9: The task queue of the worker refines a serial executor. Seen through the tasks that wait, in the
  shared list or in the thread's local list, and those that were run, every run of the worker is a run
  of the executor, every action of every thread is a step of it or changes nothing, and in every
  reachable state the tasks that were run followed by those that wait are the tasks ever added, in
  order: none is lost, run twice or overtaken.
\<close>

theorem worker_refines_serial:
  assumes "nw_reachable ops h s" "nw_act ops a s = Some s'"
  shows "serial_step\<^sup>*\<^sup>* ([], []) (abs_tasks s) \<and> (abs_tasks s' = abs_tasks s \<or> serial_step (abs_tasks s) (abs_tasks s')) \<and>
    snd (abs_tasks s') @ fst (abs_tasks s') = sy_added s'"
  using nw_reachable_serial [OF assms(1)] serial.simulates [OF thread_inv_reachable [OF assms(1)], of ops s'] assms(2)
    reachable_tasks [OF nw_reach_act [OF assms]] by blast

theorem worker_refines_serial_witness:
  "\<exists>s'. nw_act demo_manager (ActWorker demo_input) demo_state = Some s' \<and> snd (abs_tasks s') @ fst (abs_tasks s') = [4, 5]"
proof -
  have r: "nw_reachable demo_manager (\<lambda>_. 0) demo_state"
    using nw_run_reachable [OF nw_reach_init] demo_state_facts(1) by blast
  have "nw_act demo_manager (ActWorker demo_input) demo_state \<noteq> None" using demo_state_facts(2) by simp
  then obtain s' where s': "nw_act demo_manager (ActWorker demo_input) demo_state = Some s'" by blast
  moreover have "sy_added s' = [4, 5]"
    using s' demo_state_facts(2,3) by (auto simp: nw_simps split: if_splits)
  ultimately show ?thesis using worker_refines_serial [OF r s'] by simp
qed

text \<open>
  C10: \<open>stop\<close> ends the worker thread. Once \<open>m_shutdown\<close> is set, the thread takes at most \<open>todo\<close> more steps,
  plus one for each task and two for each manager that other threads add meanwhile, whatever the
  interleaving; it is never blocked as long as the notifications were delivered and the managers'
  \<open>shutdown\<close> functions return; and when it returns, every task added before the shutdown began has
  been run.
\<close>

theorem worker_stops:
  assumes "nw_reachable ops h s" "nw_shutdown (sy_worker s)" "nw_run ops as s = Some s'"
  shows "length (filter is_worker_act as) \<le> todo s + sum_list (map cost as) \<and>
    ((\<forall>i m. mt_shutdown ops i m \<noteq> None) \<and> sy_notifying s' = 0 \<and> (\<forall>ts. sy_pc s' \<noteq> PcFailed ts) \<longrightarrow>
      sy_pc s' = PcReturned \<or> (\<forall>inp. nw_act ops (ActWorker inp) s' \<noteq> None)) \<and>
    (\<not> winding_down (sy_pc s) \<and> sy_pc s' = PcReturned \<longrightarrow>
      take (length (sy_added s)) (nw_executed (sy_worker s')) = take (length (sy_added s)) (sy_added s') \<and>
      length (sy_added s) \<le> length (nw_executed (sy_worker s')))"
proof (intro conjI impI)
  note t = thread_inv_reachable [OF assms(1)]
  have r: "nw_reachable ops h s'" using nw_run_reachable [OF assms(1,3)] .
  note todo = run_todo [OF assms(3,2) t]
  then show "length (filter is_worker_act as) \<le> todo s + sum_list (map cost as)" by simp
  have pc: "sy_pc s' \<noteq> PcNone" "nw_shutdown (sy_worker s')" using todo by (auto simp: thread_inv_def)
  show "sy_pc s' = PcReturned \<or> (\<forall>inp. nw_act ops (ActWorker inp) s' \<noteq> None)"
    if "(\<forall>i m. mt_shutdown ops i m \<noteq> None) \<and> sy_notifying s' = 0 \<and> (\<forall>ts. sy_pc s' \<noteq> PcFailed ts)"
    using worker_step_enabled [of ops s'] that pc reachable_tasks_inv [OF r]
    by (auto simp: tasks_inv_def woken_def simp del: not_None_eq)
  assume w: "\<not> winding_down (sy_pc s) \<and> sy_pc s' = PcReturned"
  have "finishing (length (sy_added s)) s" using w by (auto simp: finishing_def winding_down_def)
  from finishing_run [OF assms(1,3) this] w show "length (sy_added s) \<le> length (nw_executed (sy_worker s'))"
    by (simp add: finishing_def local_tasks_def)
  with reachable_tasks [OF r]
  show "take (length (sy_added s)) (nw_executed (sy_worker s')) = take (length (sy_added s)) (sy_added s')"
    by (metis abs_tasks_def snd_conv take_append diff_is_0_eq take_0 append_Nil2)
qed

definition demo_stop :: "(nat, nat) nw_action list" where
  "demo_stop = ActNotifyWorker # ActNotifyWorker # replicate 9 (ActWorker demo_input)"

definition demo_stopping :: "nat nw_system" where
  "demo_stopping = (case nw_act demo_manager ActStop demo_state of None \<Rightarrow> demo_state | Some s \<Rightarrow> s)"

theorem worker_stops_witness:
  "\<exists>s'. nw_run demo_manager demo_stop demo_stopping = Some s' \<and> sy_pc s' = PcReturned \<and>
     2 \<le> length (nw_executed (sy_worker s')) \<and> length (filter is_worker_act demo_stop) \<le> todo demo_stopping"
proof -
  have "nw_future (sy_worker demo_state)" by code_simp
  then have a: "nw_act demo_manager ActStop demo_state = Some demo_stopping" by (simp add: demo_stopping_def)
  have r: "nw_reachable demo_manager (\<lambda>_. 0) demo_stopping"
    using nw_reach_act [OF nw_run_reachable [OF nw_reach_init] a] demo_state_facts(1) by blast
  have f: "nw_shutdown (sy_worker demo_stopping)" "\<not> winding_down (sy_pc demo_stopping)" "sum_list (map cost demo_stop) = 0"
    "length (sy_added demo_stopping) = 2"
    by code_simp+
  have "case nw_run demo_manager demo_stop demo_stopping of None \<Rightarrow> False
    | Some s \<Rightarrow> (case sy_pc s of PcReturned \<Rightarrow> True | _ \<Rightarrow> False)" by code_simp
  then obtain s' where s': "nw_run demo_manager demo_stop demo_stopping = Some s'" "sy_pc s' = PcReturned"
    by (auto split: option.splits worker_pc.splits)
  with worker_stops [OF r f(1) s'(1)] f show ?thesis by simp
qed

end
