(* ===== verification/Kurlyk_Runtime.thy ===== *)
theory Kurlyk_Runtime
  imports Http_Client_Props Web_Socket_Facade_Props Network_Worker_Props
begin

text \<open>
  The whole library: the network worker with its two managers, \<^verbatim>\<open>HttpRequestManager\<close> and
  \<^verbatim>\<open>WebSocketManager\<close>, which implement \<^verbatim>\<open>INetworkTaskManager\<close>, and the functions of
  \<^verbatim>\<open>startup/runtime.hpp\<close> and \<^verbatim>\<open>startup/AutoInitializer.hpp\<close> that set it up.
\<close>

declare map_of_eq_Some_iff [simp del] Some_eq_map_of_iff [simp del]

section \<open>The managers behind their interface\<close>

datatype network_manager = HttpManager HttpRequestManager | WsManager WebSocketManager

text \<open>What a manager reads from the outside in one call; the number bounds the iterations of the
  WebSocket clients' shutdown loops. Events of the transport come from other threads, as operations of
  their own.\<close>

record manager_input =
  mi_http :: http_env
  mi_ws :: "nat \<Rightarrow> ws_env"
  mi_ws_shutdown :: "nat \<Rightarrow> nat \<Rightarrow> ws_env"
  mi_fuel :: nat

datatype manager_op = HttpOp http_op | WsOp wsm_op

fun manager_process :: "manager_input \<Rightarrow> network_manager \<Rightarrow> network_manager \<times> bool" where
  "manager_process i (HttpManager m) = (HttpManager (http_process (mi_http i) m), True)"
| "manager_process i (WsManager m) =
     (let (m', ok) = wsm_process (\<lambda>p. (mi_ws i p)\<lparr>arrivals := []\<rparr>) m in (WsManager m', ok))"

fun manager_shutdown :: "manager_input \<Rightarrow> network_manager \<Rightarrow> (network_manager \<times> bool) option" where
  "manager_shutdown i (HttpManager m) = Some (HttpManager (http_shutdown m), True)"
| "manager_shutdown i (WsManager m) =
     map_option (\<lambda>(m', ok). (WsManager m', ok)) (wsm_shutdown (mi_fuel i) (mi_ws_shutdown i) m)"

fun manager_is_loaded :: "network_manager \<Rightarrow> bool" where
  "manager_is_loaded (HttpManager m) = http_is_loaded m"
| "manager_is_loaded (WsManager m) = wsm_is_loaded m"

text \<open>Whether the functions of \<^verbatim>\<open>http/utils.hpp\<close> and \<^verbatim>\<open>HttpClient\<close> notify the worker after the operation of
  the manager: submissions that were accepted, cancellations and waits do.\<close>

fun http_client_exec :: "http_op \<Rightarrow> HttpRequestManager \<Rightarrow> HttpRequestManager \<times> bool" where
  "http_client_exec (Submit push_ok rq f) m =
     (let (m', r, n) = submit_http_request push_ok rq f m in (m', n))"
| "http_client_exec (CancelRequest i f) m = hu_cancel_request_by_id i f m"
| "http_client_exec (CancelGroup g f) m = hu_cancel_requests_by_group_id g f m"
| "http_client_exec (WaitGroup g f) m = (fst (wait_requests_by_group_id g f m), True)"
| "http_client_exec x m = (fst (http_exec x m), False)"

fun manager_client :: "manager_op \<Rightarrow> network_manager \<Rightarrow> network_manager \<times> bool" where
  "manager_client (HttpOp x) (HttpManager m) = (let (m', n) = http_client_exec x m in (HttpManager m', n))"
| "manager_client (WsOp x) (WsManager m) = (let (m', n) = wsm_exec x m in (WsManager m', n))"
| "manager_client _ m = (m, False)"

definition kurlyk_ops :: "(manager_input, manager_op, network_manager) manager_ops" where
  "kurlyk_ops =
     \<lparr>mt_process = manager_process, mt_shutdown = manager_shutdown, mt_is_loaded = manager_is_loaded,
      mt_client = manager_client\<rparr>"

lemma kurlyk_ops_sel [simp]:
  "mt_process kurlyk_ops = manager_process" "mt_shutdown kurlyk_ops = manager_shutdown"
  "mt_is_loaded kurlyk_ops = manager_is_loaded" "mt_client kurlyk_ops = manager_client"
  by (simp_all add: kurlyk_ops_def)

definition http_address :: address where "http_address = 0"
definition ws_address :: address where "ws_address = 1"

text \<open>The singletons; no other address holds a manager that is ever registered.\<close>

definition kurlyk_heap :: "address \<Rightarrow> network_manager" where
  "kurlyk_heap p = (if p = http_address then HttpManager HttpRequestManager_init else WsManager WebSocketManager_init)"

section \<open>Start-up\<close>

definition kurlyk_init :: "bool \<Rightarrow> network_manager NetworkWorker \<Rightarrow> network_manager NetworkWorker" where
  "kurlyk_init use_async w = nw_start use_async (register_manager ws_address (register_manager http_address w))"

definition AutoInitializer_new :: "bool \<Rightarrow> network_manager NetworkWorker \<Rightarrow> network_manager NetworkWorker" where
  "AutoInitializer_new auto_init_use_async w =
     nw_start auto_init_use_async (register_manager ws_address (register_manager http_address w))"

text \<open>What the constructors of \<^verbatim>\<open>HttpClient\<close> and \<^verbatim>\<open>WebSocketClient\<close> do once: they start the worker, without
  registering the managers.\<close>

definition ensure_initialized :: "bool \<Rightarrow> network_manager NetworkWorker \<Rightarrow> network_manager NetworkWorker" where
  "ensure_initialized auto_init_use_async w = nw_start auto_init_use_async w"

definition kurlyk_process ::
    "(address \<Rightarrow> manager_input) \<Rightarrow> (task \<Rightarrow> bool) \<Rightarrow> network_manager NetworkWorker \<Rightarrow> network_manager NetworkWorker \<times> bool" where
  "kurlyk_process inp throws w = nw_process kurlyk_ops inp throws w"

definition kurlyk_shutdown ::
    "(address \<Rightarrow> manager_input) \<Rightarrow> (task \<Rightarrow> bool) \<Rightarrow> network_manager NetworkWorker \<Rightarrow> (network_manager NetworkWorker \<times> bool) option" where
  "kurlyk_shutdown inp throws w = nw_do_shutdown kurlyk_ops inp throws w"

definition kurlyk_deinit ::
    "(address \<Rightarrow> manager_input) \<Rightarrow> (task \<Rightarrow> bool) \<Rightarrow> network_manager NetworkWorker \<Rightarrow> (network_manager NetworkWorker \<times> bool) option" where
  "kurlyk_deinit inp throws w = nw_stop_sync kurlyk_ops inp throws w"

definition kurlyk_add_error_handler :: "cb \<Rightarrow> network_manager NetworkWorker \<Rightarrow> network_manager NetworkWorker" where
  "kurlyk_add_error_handler handler w = add_error_handler handler w"

section \<open>The managers keep the contract\<close>

definition http_minv :: "HttpRequestManager \<Rightarrow> bool" where
  "http_minv m = (\<exists>xs A. http_run xs HttpRequestManager_init = (m, A))"

definition http_settled :: "HttpRequestManager \<Rightarrow> bool" where
  "http_settled m =
     (contexts m = [] \<and> (\<forall>g. group_request_count g m = 0) \<and> (\<forall>c t. \<not> held_token (hm_rate_limiter m) c t))"

lemma http_minv_exec: "http_minv m \<Longrightarrow> http_minv (fst (http_exec x m))"
proof -
  assume "http_minv m"
  then obtain xs A where "http_run xs HttpRequestManager_init = (m, A)" by (auto simp: http_minv_def)
  then have "http_run (xs @ [x]) HttpRequestManager_init = (fst (http_exec x m), A @ snd (http_exec x m))"
    by (simp add: http_run_append split: prod.split)
  then show "http_minv (fst (http_exec x m))" unfolding http_minv_def by blast
qed

lemma http_minv_process: "http_minv m \<Longrightarrow> http_minv (http_process env m)"
  using http_minv_exec [of m "Process env"] by simp

lemma http_client_exec_fst: "fst (http_client_exec x m) = fst (http_exec x m)"
  by (cases x) (auto simp: submit_http_request_def hu_cancel_request_by_id_def hu_cancel_requests_by_group_id_def
      split: prod.splits)

lemma http_minv_settled:
  assumes "http_minv m" "\<not> http_is_loaded m"
  shows "http_settled m"
proof -
  from assms(1) obtain xs A where r: "http_run xs HttpRequestManager_init = (m, A)" by (auto simp: http_minv_def)
  note b = http_run_books [OF r]
  have c: "contexts m = []" "live m = {#}" using contexts_idle [OF assms(2)] by (simp_all add: live_contexts)
  with b have "\<forall>g. group_request_count g m = 0"
    by (simp add: hm_inv_def acct_def groups_ok_def group_request_count_def)
  moreover from c b have "limiter.justified (hm_rate_limiter m) {}" by (simp add: hm_inv_def acct_def)
  ultimately show ?thesis using c limiter.justified_empty unfolding http_settled_def by blast
qed

text \<open>The parts of the state that \<open>is_loaded\<close> reads.\<close>

lemma http_is_loaded_limiter [simp]: "http_is_loaded (m\<lparr>hm_rate_limiter := rl\<rparr>) = http_is_loaded m"
  by (simp add: http_is_loaded_def)

lemma http_is_loaded_drop [simp]:
  "http_is_loaded (drop_request r m) = http_is_loaded m" "http_is_loaded (drop_release_args a m) = http_is_loaded m"
  "http_is_loaded (destroy_context ctx m) = http_is_loaded m"
  by (simp_all add: drop_request_def drop_release_args_def destroy_context_def on_limiter_def split: option.split)

lemma http_idle_submit:
  assumes "submit_http_request p rq f m = (m', r, False)" "\<not> http_is_loaded m"
  shows "\<not> http_is_loaded m'"
proof -
  have s: "submit_request p rq f m = (m', r)" "case r of None \<Rightarrow> True | Some sr \<Rightarrow> \<not> accepted sr"
    using assms(1) by (auto simp: submit_http_request_def split: prod.splits option.splits)
  have e: "m_group_request_counts m = []" using assms(2) by (simp add: http_is_loaded_def)
  show ?thesis
    using s assms(2) e
    by (auto simp: submit_request_def Let_def group_request_count_unlocked_def split: if_splits option.splits)
      (auto simp: http_is_loaded_def)
qed

lemma http_idle_process: "\<not> http_is_loaded m \<Longrightarrow> \<not> http_is_loaded (http_process env m)"
  by (simp add: http_is_loaded_def http_process_def process_pending_requests_def process_active_requests_def
      process_retry_failed_requests_def process_cancel_requests_def notify_group_waiters_if_idle_def
      notify_all_group_waiters_def hm_logs_def Let_def)

lemma http_quiet_exec:
  assumes "http_client_exec x m = (m', False)" "http_is_loaded m'"
  shows "http_is_loaded m"
proof (cases x)
  case (Submit p rq f)
  with assms(1) obtain r where "submit_http_request p rq f m = (m', r, False)" by (auto split: prod.splits)
  with http_idle_submit assms(2) show ?thesis by blast
next
  case (Process env)
  with assms http_idle_process show ?thesis by auto
qed (use assms in \<open>auto simp: set_max_pending_requests_def create_rate_limit_def get_rate_limit_def hm_remove_limit_def
      hm_remove_limit_handle_def on_limiter_def http_is_loaded_def generate_request_id_def generate_group_id_def
      cancel_wait_requests_by_group_id_def hu_cancel_request_by_id_def hu_cancel_requests_by_group_id_def
      Let_def split: prod.splits option.splits if_splits\<close>)

fun manager_inv :: "network_manager \<Rightarrow> bool" where
  "manager_inv (HttpManager m) = http_minv m"
| "manager_inv (WsManager m) = wsm_inv m"

fun manager_settled :: "network_manager \<Rightarrow> bool" where
  "manager_settled (HttpManager m) = http_settled m"
| "manager_settled (WsManager m) = wsm_settled m"

lemma manager_process_inv: "manager_inv m \<Longrightarrow> manager_inv (fst (manager_process i m))"
proof (cases m)
  case (WsManager w)
  then show "manager_inv m \<Longrightarrow> ?thesis"
    using wsm_process_inv [of w "\<lambda>p. (mi_ws i p)\<lparr>arrivals := []\<rparr>"] by (auto split: prod.splits)
qed (simp add: http_minv_process)

lemma manager_client_inv: "manager_inv m \<Longrightarrow> manager_inv (fst (manager_client x m))"
proof (cases "(x, m)" rule: manager_client.cases)
  case (1 y h)
  then show "manager_inv m \<Longrightarrow> ?thesis"
    using http_minv_exec [of h y] http_client_exec_fst [of y h] by (auto split: prod.splits)
next
  case (2 y w)
  then show "manager_inv m \<Longrightarrow> ?thesis" using wsm_exec_inv [of w y] by (auto split: prod.splits)
qed simp_all

interpretation kurlyk: task_manager kurlyk_ops manager_inv manager_settled
proof unfold_locales
  fix m m' :: network_manager and i :: manager_input and x :: manager_op
  show "manager_inv m \<Longrightarrow> manager_inv (fst (mt_process kurlyk_ops i m))" by (simp add: manager_process_inv)
  show "manager_inv m \<Longrightarrow> manager_inv (fst (mt_client kurlyk_ops x m))" by (simp add: manager_client_inv)
  show "manager_inv m \<Longrightarrow> mt_client kurlyk_ops x m = (m', False) \<Longrightarrow> mt_is_loaded kurlyk_ops m' \<Longrightarrow> mt_is_loaded kurlyk_ops m"
    by (cases "(x, m)" rule: manager_client.cases) (auto split: prod.splits dest: http_quiet_exec wsm_exec_quiet)
  show "manager_inv m \<Longrightarrow> \<not> mt_is_loaded kurlyk_ops m \<Longrightarrow> manager_settled m"
    by (cases m) (auto simp: http_minv_settled wsm_idle_settled)
qed

lemma kurlyk_heap_inv: "manager_inv (kurlyk_heap p)"
proof -
  have "http_minv HttpRequestManager_init" unfolding http_minv_def by (rule exI [of _ "[]"]) simp
  then show ?thesis by (simp add: kurlyk_heap_def wsm_inv_def WebSocketManager_init_def)
qed

section \<open>Guarantees of the library\<close>


definition run_request :: HttpRequest where
  "run_request = HttpRequest_default\<lparr>request_id := 9, group_id := 5\<rparr>"

definition run_input :: "CURLMsg list \<Rightarrow> int \<Rightarrow> manager_input worker_input" where
  "run_input msgs running =
     \<lparr>wi_manager = (\<lambda>_. \<lparr>mi_http = demo_env msgs running, mi_ws = (\<lambda>_. wit_env []), mi_ws_shutdown = (\<lambda>_ _. wit_env []),
        mi_fuel = 5\<rparr>), wi_throws = (\<lambda>_. False)\<rparr>"

definition run_actions :: "(manager_input, manager_op) nw_action list" where
  "run_actions =
     [ActRegister http_address, ActRegister ws_address, ActStart True,
      ActClient http_address (HttpOp (Submit True (Some run_request) (Some 7))), ActNotifyWorker, ActAddTask 4, ActNotifyWorker] @
     replicate 13 (ActWorker (run_input [] 1)) @ replicate 13 (ActWorker (run_input [demo_message 0 200] 0))"

definition run_state :: "network_manager nw_system" where
  "run_state =
     (case nw_run kurlyk_ops run_actions (nw_system_init kurlyk_heap) of
        None \<Rightarrow> nw_system_init kurlyk_heap | Some s \<Rightarrow> s)"

lemma run_state_run: "nw_run kurlyk_ops run_actions (nw_system_init kurlyk_heap) = Some run_state"
proof -
  have "\<not> Option.is_none (nw_run kurlyk_ops run_actions (nw_system_init kurlyk_heap))" by code_simp
  then show ?thesis by (auto simp: run_state_def Option.is_none_def)
qed

definition pc_waits :: "'m nw_system \<Rightarrow> bool" where
  "pc_waits s =
     ((case sy_pc s of PcWait \<Rightarrow> True | _ \<Rightarrow> False) \<and> \<not> nw_notify (sy_worker s) \<and> sy_notifying s = 0)"

lemma pc_waitsD: "pc_waits s \<Longrightarrow> sy_pc s = PcWait \<and> \<not> nw_notify (sy_worker s) \<and> sy_notifying s = 0"
  by (auto simp: pc_waits_def split: worker_pc.splits)


section \<open>Two ways to miss a wake-up\<close>

text \<open>
  The two paths on which the code makes a manager loaded without notifying the worker. The constructor of
  \<^verbatim>\<open>WebSocketClient\<close> that takes a configuration queues it and returns: while the worker sleeps, the
  configuration is not applied and its callback is not called until something else wakes the worker.
\<close>

definition with_config :: "network_manager nw_system \<Rightarrow> network_manager nw_system" where
  "with_config s =
     on_worker (\<lambda>w. w\<lparr>nw_heap := (nw_heap w)(ws_address :=
       (case nw_heap w ws_address of
          WsManager m \<Rightarrow> WsManager (snd (WebSocketClient_with_config 3 (Some WebSocketConfig_default) (Some 9) m))
        | x \<Rightarrow> x))\<rparr>) s"

theorem constructor_config_unnoticed:
  "nw_reachable kurlyk_ops kurlyk_heap run_state \<and> nw_is_loaded kurlyk_ops (sy_worker (with_config run_state)) \<and>
   (\<forall>inp. nw_act kurlyk_ops (ActWorker inp) (with_config run_state) = None)"
proof (intro conjI allI)
  show "nw_reachable kurlyk_ops kurlyk_heap run_state" using nw_run_reachable [OF nw_reach_init run_state_run] .
  show "nw_is_loaded kurlyk_ops (sy_worker (with_config run_state))" by code_simp
  have "pc_waits (with_config run_state)" by code_simp
  then show "nw_act kurlyk_ops (ActWorker inp) (with_config run_state) = None" for inp
    using pc_waitsD by (metis nw_act.simps(1) worker_step.simps(2))
qed

text \<open>
  The constructors of the clients start the worker without registering the managers. A request
  submitted before another part of the program registers them is not processed when that happens:
  \<open>register_manager\<close> does not wake the worker either.
\<close>

definition late_actions :: "(manager_input, manager_op) nw_action list" where
  "late_actions =
     [ActStart True, ActClient http_address (HttpOp (Submit True (Some run_request) (Some 7))), ActNotifyWorker] @
     replicate 5 (ActWorker (run_input [] 1)) @ [ActRegister http_address, ActRegister ws_address, ActStart True]"

definition late_state :: "network_manager nw_system" where
  "late_state =
     (case nw_run kurlyk_ops late_actions (nw_system_init kurlyk_heap) of
        None \<Rightarrow> nw_system_init kurlyk_heap | Some s \<Rightarrow> s)"

theorem late_registration_unnoticed:
  "nw_reachable kurlyk_ops kurlyk_heap late_state \<and> nw_is_loaded kurlyk_ops (sy_worker late_state) \<and>
   nw_managers (sy_worker late_state) = [http_address, ws_address] \<and>
   (\<forall>inp. nw_act kurlyk_ops (ActWorker inp) late_state = None)"
proof (intro conjI allI)
  have "\<not> Option.is_none (nw_run kurlyk_ops late_actions (nw_system_init kurlyk_heap))" by code_simp
  then have "nw_run kurlyk_ops late_actions (nw_system_init kurlyk_heap) = Some late_state"
    by (auto simp: late_state_def Option.is_none_def)
  then show "nw_reachable kurlyk_ops kurlyk_heap late_state" by (rule nw_run_reachable [OF nw_reach_init])
  show "nw_is_loaded kurlyk_ops (sy_worker late_state)" "nw_managers (sy_worker late_state) = [http_address, ws_address]"
    by code_simp+
  have "pc_waits late_state" by code_simp
  then show "nw_act kurlyk_ops (ActWorker inp) late_state = None" for inp
    using pc_waitsD by (metis nw_act.simps(1) worker_step.simps(2))
qed

end
