(* ===== verification/Http_Client_Waiting.thy ===== *)
theory Http_Client_Waiting
  imports Http_Client_Props
begin

text \<open>
  The blocking functions of \<open>HttpClient\<close>: \<open>cancel_requests\<close>, \<open>wait_requests\<close>, \<open>wait_requests_for\<close> and the
  destructor. While a caller blocks in \<open>future.get()\<close>, the worker calls \<open>process\<close> and other threads use the manager; the
  operations they execute until the call returns, or until it is given up, are a parameter. What is shown is that the
  functions return when they should and only then.
\<close>

declare map_of_eq_Some_iff [simp del] Some_eq_map_of_iff [simp del]

section \<open>Blocking calls\<close>

text \<open>\<open>future.get()\<close>: the caller sleeps until the promise is set, looked at between the operations of other
  threads. \<open>None\<close> means that it still sleeps after all of them.\<close>

fun future_get :: "(http_log list \<Rightarrow> bool) \<Rightarrow> http_op list \<Rightarrow> HttpRequestManager \<Rightarrow> HttpRequestManager option" where
  "future_get is_set [] m = (if is_set (hm_log m) then Some m else None)"
| "future_get is_set (x # xs) m = (if is_set (hm_log m) then Some m else future_get is_set xs (fst (http_exec x m)))"

definition cancelled_set :: "cb \<Rightarrow> http_log list \<Rightarrow> bool" where
  "cancelled_set promise ls = (LogCancelled promise \<in> set ls)"

definition waiter_set :: "cb \<Rightarrow> http_log list \<Rightarrow> bool" where
  "waiter_set promise ls = (LogWaiter promise \<in> set ls)"

definition cancel_requests_blocking :: "cb \<Rightarrow> http_op list \<Rightarrow> HttpClient \<Rightarrow> HttpRequestManager \<Rightarrow> HttpRequestManager option" where
  "cancel_requests_blocking promise ops c m = future_get (cancelled_set promise) ops (fst (cancel_requests promise c m))"

datatype wait_error = WaitOnWorkerThread

definition wait_requests_blocking ::
    "bool \<Rightarrow> cb \<Rightarrow> http_op list \<Rightarrow> HttpClient \<Rightarrow> HttpRequestManager \<Rightarrow> wait_error + HttpRequestManager option" where
  "wait_requests_blocking on_worker promise ops c m =
     (case wait_requests on_worker promise c m of
        None \<Rightarrow> Inl WaitOnWorkerThread
      | Some (m1, _) \<Rightarrow> Inr (future_get (waiter_set promise) ops m1))"

text \<open>The operations here are those executed before the timeout.\<close>

definition wait_requests_for_blocking ::
    "bool \<Rightarrow> cb \<Rightarrow> http_op list \<Rightarrow> HttpClient \<Rightarrow> HttpRequestManager \<Rightarrow> HttpRequestManager \<times> bool" where
  "wait_requests_for_blocking on_worker promise ops c m =
     (case wait_requests_for_begin on_worker promise c m of
        (m1, None, _) \<Rightarrow> (m1, False)
      | (m1, Some waiter_id, _) \<Rightarrow>
          (case future_get (waiter_set promise) ops m1 of
             None \<Rightarrow> wait_requests_for_timeout waiter_id c (fst (http_run ops m1))
           | Some m2 \<Rightarrow> (m2, True)))"

definition HttpClient_destructor ::
    "cb \<Rightarrow> http_op list \<Rightarrow> HttpClient \<Rightarrow> HttpRequestManager \<Rightarrow> (HttpClient \<times> HttpRequestManager) option" where
  "HttpClient_destructor promise ops c m = map_option (HttpClient_destroy c) (cancel_requests_blocking promise ops c m)"

section \<open>Runs of the manager\<close>

definition managed :: "HttpRequestManager \<Rightarrow> bool" where
  "managed m \<longleftrightarrow> (\<exists>T. hm_inv m T) \<and> umap_distinct (m_group_waiters m) \<and> \<not> m_shutdown m"

lemma managed_run: "http_run xs HttpRequestManager_init = (m, A) \<Longrightarrow> managed m"
  using http_run_books [of xs m A] run_waiters_distinct [OF hm_inv_init, of xs m A] run_running [OF hm_inv_init, of xs m A]
  by (auto simp: managed_def HttpRequestManager_init_def)

lemma managed_exec:
  assumes "managed m"
  shows "managed (fst (http_exec x m))"
proof -
  from assms obtain T where T: "hm_inv m T" by (auto simp: managed_def)
  have e: "http_exec x m = (fst (http_exec x m), snd (http_exec x m))" by simp
  from http_exec_inv [OF T e] exec_waiters_distinct [OF T _ e] exec_running [OF T e] assms show ?thesis
    by (auto simp: managed_def)
qed

lemma process_busy_waiters: "(g, ws) \<in> set (m_group_waiters (http_process env m)) \<Longrightarrow> group_request_count g (http_process env m) \<noteq> 0"
  by (auto simp: http_process_def notify_group_waiters_if_idle_def notify_all_group_waiters_def hm_logs_def
      group_request_count_def group_request_count_unlocked_def Let_def split: if_splits)

text \<open>After a call of \<open>process\<close> the waiters are exactly those from before of the groups that still have requests.\<close>

lemma process_wakes: "managed m \<Longrightarrow> wakes m (http_process env m)"
  using http_process_inv [of m _ env] by (auto simp: managed_def frame_def)

lemma process_waiters_exact:
  assumes "managed m"
  shows "map_of (m_group_waiters (http_process env m)) g =
    (if group_request_count g (http_process env m) = 0 then None else map_of (m_group_waiters m) g)"
proof (cases "group_request_count g (http_process env m) = 0")
  case True
  then have "map_of (m_group_waiters (http_process env m)) g = None"
    using process_busy_waiters [OF map_of_SomeD] by (metis not_None_eq)
  with True show ?thesis by simp
next
  case False
  with process_wakes [OF assms, of env] show ?thesis by (auto simp: wakes_def group_request_count_def)
qed

lemma group_count_logs [simp]: "group_request_count g (hm_logs ls m) = group_request_count g m"
  by (simp add: group_request_count_def group_request_count_unlocked_def hm_logs_def)

section \<open>Waiting\<close>

lemma notified_iff: "p \<in># notified ls \<longleftrightarrow> LogWaiter p \<in> set ls"
proof -
  have "p \<in> set (notified_cb l) \<longleftrightarrow> l = LogWaiter p" for l by (cases l) auto
  then show ?thesis by (auto simp: notified_def)
qed

lemma waiting_iff:
  assumes "umap_distinct gs"
  shows "p \<in># waiting gs \<longleftrightarrow> (\<exists>g ws x. map_of gs g = Some ws \<and> x \<in> set ws \<and> gw_callback x = Some p)"
proof -
  have c: "p \<in> set (waiter_cbs ws) \<longleftrightarrow> (\<exists>x \<in> set ws. gw_callback x = Some p)" for ws
    by (force simp: waiter_cbs_def split: option.splits)
  have "p \<in># waiting gs \<longleftrightarrow> (\<exists>(g, ws) \<in> set gs. p \<in> set (waiter_cbs ws))" by (force simp: waiting_def)
  then show ?thesis unfolding c by (auto simp: map_of_eq_Some_iff_distinct [OF assms])
qed

lemma waiting_update:
  assumes "umap_distinct gs"
  shows "waiting (AList.update g ws gs) = mset (waiter_cbs ws) + waiting (AList.delete g gs)"
  using assms waiting_delete [of "AList.update g ws gs" g ws] by (simp add: delete_update_same)

lemma waiting_lookup:
  assumes "umap_distinct gs"
  shows "waiting gs = mset (waiter_cbs (case map_of gs g of None \<Rightarrow> [] | Some ws \<Rightarrow> ws)) + waiting (AList.delete g gs)"
proof (cases "map_of gs g")
  case None
  then have "AList.delete g gs = gs" by (simp add: delete_id map_of_eq_None_iff)
  with None show ?thesis by (simp add: waiter_cbs_def)
qed (simp add: waiting_delete [OF assms])

lemma remove_waiter_split:
  "remove_waiter i ws = Some ws' \<Longrightarrow> \<exists>a x b. ws = a @ x # b \<and> gw_id x = i \<and> ws' = a @ b"
proof (induction ws arbitrary: ws')
  case (Cons y ws)
  show ?case
  proof (cases "gw_id y = i")
    case True
    with Cons.prems show ?thesis by (intro exI [of _ "[]"]) auto
  next
    case False
    with Cons.prems obtain vs where "remove_waiter i ws = Some vs" "ws' = y # vs" by auto
    with Cons.IH show ?thesis by (metis append_Cons)
  qed
qed simp

text \<open>The promise \<open>p\<close> is in the hands of the manager: once, with the group \<open>g\<close> and the waiter id \<open>w\<close> as long as
  it is not set.\<close>

definition waits :: "cb \<Rightarrow> u64 \<Rightarrow> u64 \<Rightarrow> HttpRequestManager \<Rightarrow> bool" where
  "waits p w g m \<longleftrightarrow>
     count (waiting (m_group_waiters m) + notified (hm_log m)) p = 1 \<and>
     (\<forall>g' ws x. map_of (m_group_waiters m) g' = Some ws \<longrightarrow> x \<in> set ws \<longrightarrow> gw_callback x = Some p \<longrightarrow>
        g' = g \<and> gw_id x = w)"

text \<open>Other threads have promises and waiters of their own.\<close>

fun leaves :: "cb \<Rightarrow> u64 \<Rightarrow> http_op \<Rightarrow> bool" where
  "leaves p w (WaitGroup g f) = (f \<noteq> Some p)"
| "leaves p w (CancelWait g i) = (i \<noteq> w)"
| "leaves p w _ = True"

lemma waits_unset:
  assumes "waits p w g m" "\<not> waiter_set p (hm_log m)" "umap_distinct (m_group_waiters m)"
  shows "\<exists>ws x. map_of (m_group_waiters m) g = Some ws \<and> x \<in> set ws \<and> gw_callback x = Some p"
proof -
  have "count (notified (hm_log m)) p = 0" using assms(2) by (simp add: waiter_set_def notified_iff count_eq_zero_iff)
  with assms(1) have "p \<in># waiting (m_group_waiters m)" by (simp add: waits_def flip: count_greater_zero_iff)
  with assms(1,3) show ?thesis by (auto simp: waiting_iff waits_def)
qed

lemma waits_waiting:
  assumes "waits p w g m" "map_of (m_group_waiters m) g = Some ws" "x \<in> set ws" "gw_callback x = Some p"
    "umap_distinct (m_group_waiters m)"
  shows "\<not> waiter_set p (hm_log m)"
proof -
  have "p \<in># waiting (m_group_waiters m)" using assms by (auto simp: waiting_iff)
  with assms(1) have "count (notified (hm_log m)) p = 0" by (simp add: waits_def flip: count_greater_zero_iff)
  then show ?thesis by (simp add: waiter_set_def notified_iff count_eq_zero_iff)
qed

lemma process_waits:
  assumes "managed m" "waits p w g m" "\<not> waiter_set p (hm_log m)"
  shows "waits p w g (http_process env m)"
    "waiter_set p (hm_log (http_process env m)) \<longleftrightarrow> group_request_count g (http_process env m) = 0"
proof -
  let ?m = "http_process env m"
  have d: "umap_distinct (m_group_waiters m)" using assms(1) by (simp add: managed_def)
  have d': "umap_distinct (m_group_waiters ?m)" using managed_exec [OF assms(1), of "Process env"] by (simp add: managed_def)
  have "waiting (m_group_waiters ?m) + notified (hm_log ?m) = waiting (m_group_waiters m) + notified (hm_log m)"
    using assms(1) http_process_inv [of m _ env] by (auto simp: managed_def frame_def waiters_kept_def)
  with assms(2) show w: "waits p w g ?m"
    unfolding waits_def by (auto simp: process_waiters_exact [OF assms(1)] split: if_splits)
  obtain ws x where x: "map_of (m_group_waiters m) g = Some ws" "x \<in> set ws" "gw_callback x = Some p"
    using waits_unset [OF assms(2,3) d] by blast
  show "waiter_set p (hm_log ?m) \<longleftrightarrow> group_request_count g ?m = 0"
  proof (cases "group_request_count g ?m = 0")
    case True
    then have "map_of (m_group_waiters ?m) g = None" using process_waiters_exact [OF assms(1)] by simp
    with waits_unset [OF w _ d'] True show ?thesis by auto
  next
    case False
    with x(1) have "map_of (m_group_waiters ?m) g = Some ws" using process_waiters_exact [OF assms(1)] by simp
    with waits_waiting [OF w this x(2,3) d'] False show ?thesis by simp
  qed
qed

lemma submit_waiters:
  "m_group_waiters (fst (submit_request b rq f m)) = m_group_waiters m" "hm_log (fst (submit_request b rq f m)) = hm_log m"
  "m_waiter_id_counter (fst (submit_request b rq f m)) = m_waiter_id_counter m"
  by (simp_all add: submit_request_def drop_request_def destroy_context_def drop_release_args_def on_limiter_def Let_def
      split: option.split)

text \<open>The operations that have nothing to do with waiters.\<close>

lemma exec_waits_other:
  assumes "\<forall>env. x \<noteq> Process env" "\<forall>g f. x \<noteq> WaitGroup g f" "\<forall>g i. x \<noteq> CancelWait g i"
  shows "m_group_waiters (fst (http_exec x m)) = m_group_waiters m"
    "\<exists>ls. hm_log (fst (http_exec x m)) = hm_log m @ ls \<and> notified ls = {#}"
proof -
  have c: "notified (cancelled_log f) = {#}" for f by (cases f) (simp_all add: cancelled_log_def notified_def)
  show "m_group_waiters (fst (http_exec x m)) = m_group_waiters m"
    using assms by (cases x) (auto simp: http_op_defs submit_waiters)
  show "\<exists>ls. hm_log (fst (http_exec x m)) = hm_log m @ ls \<and> notified ls = {#}"
    using assms c by (cases x) (auto simp: http_op_defs submit_waiters)
qed

lemma exec_waits_wait:
  assumes "waits p w g m" "f \<noteq> Some p" "umap_distinct (m_group_waiters m)"
  shows "waits p w g (fst (wait_requests_by_group_id h f m))"
    "waiter_set p (hm_log (fst (wait_requests_by_group_id h f m))) = waiter_set p (hm_log m)"
proof -
  let ?c = "m_shutdown m \<or> h = 0 \<or> group_request_count_unlocked h m = 0"
  let ?ws = "case map_of (m_group_waiters m) h of None \<Rightarrow> [] | Some ws \<Rightarrow> ws"
  let ?us = "?ws @ [\<lparr>gw_id = m_waiter_id_counter m, gw_callback = f\<rparr>]"
  have "count (waiting (AList.update h ?us (m_group_waiters m))) p = count (waiting (m_group_waiters m)) p"
    using assms(2) unfolding waiting_update [OF assms(3)] waiting_lookup [OF assms(3), of h]
    by (simp add: waiter_cbs_def split: option.split)
  with assms show "waits p w g (fst (wait_requests_by_group_id h f m))"
    by (auto simp: waits_def wait_requests_by_group_id_def hm_logs_def notified_def Let_def split: option.splits if_splits)
  show "waiter_set p (hm_log (fst (wait_requests_by_group_id h f m))) = waiter_set p (hm_log m)"
    using assms(2) by (auto simp: waiter_set_def wait_requests_by_group_id_def hm_logs_def Let_def split: option.split)
qed

lemma exec_waits_cancel:
  assumes "waits p w g m" "i \<noteq> w" "umap_distinct (m_group_waiters m)"
  shows "waits p w g (fst (cancel_wait_requests_by_group_id h i m))"
    "hm_log (fst (cancel_wait_requests_by_group_id h i m)) = hm_log m"
proof -
  show "hm_log (fst (cancel_wait_requests_by_group_id h i m)) = hm_log m"
    by (simp add: cancel_wait_requests_by_group_id_def split: option.split)
  show "waits p w g (fst (cancel_wait_requests_by_group_id h i m))"
  proof (cases "map_of (m_group_waiters m) h")
    case (Some ws)
    show ?thesis
    proof (cases "h = 0 \<or> i = 0 \<or> remove_waiter i ws = None")
      case True
      with Some assms(1) show ?thesis by (auto simp: cancel_wait_requests_by_group_id_def)
    next
      case False
      then obtain vs where v: "remove_waiter i ws = Some vs" by auto
      then obtain a x b where x: "ws = a @ x # b" "gw_id x = i" "vs = a @ b" using remove_waiter_split by blast
      have k: "\<forall>y \<in> set ws. gw_callback y = Some p \<longrightarrow> h = g \<and> gw_id y = w" using assms(1) Some unfolding waits_def by blast
      then have "gw_callback x \<noteq> Some p" using assms(2) x by auto
      then have n: "count (mset (waiter_cbs vs)) p = count (mset (waiter_cbs ws)) p"
        by (auto simp: x waiter_cbs_def split: option.split)
      let ?gs = "if vs = [] then AList.delete h (m_group_waiters m) else AList.update h vs (m_group_waiters m)"
      have "count (waiting ?gs) p = count (waiting (m_group_waiters m)) p"
        using n Some unfolding waiting_update [OF assms(3)] waiting_lookup [OF assms(3), of h]
        by (auto simp: waiting_update [OF assms(3)] waiter_cbs_def)
      moreover have "fst (cancel_wait_requests_by_group_id h i m) = m\<lparr>m_group_waiters := ?gs\<rparr>"
        using False Some v by (simp add: cancel_wait_requests_by_group_id_def)
      moreover have "\<forall>y \<in> set vs. gw_callback y = Some p \<longrightarrow> h = g \<and> gw_id y = w" using k x by auto
      ultimately show ?thesis using assms(1) by (auto simp: waits_def split: if_splits)
    qed
  qed (use assms in \<open>simp add: cancel_wait_requests_by_group_id_def\<close>)
qed

text \<open>One operation of another thread: the promise stays where it is, or it is set because the group has become idle.\<close>

lemma exec_waits:
  assumes "managed m" "waits p w g m" "\<not> waiter_set p (hm_log m)" "leaves p w x"
  shows "waits p w g (fst (http_exec x m))"
    "waiter_set p (hm_log (fst (http_exec x m))) \<Longrightarrow> group_request_count g (fst (http_exec x m)) = 0"
    "x = Process env \<Longrightarrow> group_request_count g (fst (http_exec x m)) = 0 \<Longrightarrow> waiter_set p (hm_log (fst (http_exec x m)))"
proof -
  have d: "umap_distinct (m_group_waiters m)" using assms(1) by (simp add: managed_def)
  let ?m = "fst (http_exec x m)"
  have "waits p w g ?m \<and> (waiter_set p (hm_log ?m) \<longrightarrow> group_request_count g ?m = 0) \<and>
    ((\<exists>env. x = Process env) \<longrightarrow> group_request_count g ?m = 0 \<longrightarrow> waiter_set p (hm_log ?m))"
  proof (cases "(\<forall>env. x \<noteq> Process env) \<and> (\<forall>g f. x \<noteq> WaitGroup g f) \<and> (\<forall>g i. x \<noteq> CancelWait g i)")
    case True
    with exec_waits_other [of x m] obtain ls where "m_group_waiters ?m = m_group_waiters m" "hm_log ?m = hm_log m @ ls"
      "notified ls = {#}" by blast
    with assms(2,3) True show ?thesis by (auto simp: waits_def waiter_set_def simp flip: notified_iff)
  next
    case False
    then consider env where "x = Process env" | h f where "x = WaitGroup h f" | h i where "x = CancelWait h i" by blast
    then show ?thesis
    proof cases
      case 1
      with process_waits [OF assms(1-3)] show ?thesis by simp
    next
      case 2
      with exec_waits_wait [OF assms(2) _ d] assms(3,4) show ?thesis by simp
    next
      case 3
      with exec_waits_cancel [OF assms(2) _ d] assms(3,4) show ?thesis by simp
    qed
  qed
  then show "waits p w g ?m" "waiter_set p (hm_log ?m) \<Longrightarrow> group_request_count g ?m = 0"
    "x = Process env \<Longrightarrow> group_request_count g ?m = 0 \<Longrightarrow> waiter_set p (hm_log ?m)" by blast+
qed

section \<open>Waiter ids\<close>

text \<open>The ids of the waiters of a group are distinct, not zero and below the counter, as long as it has not wrapped.\<close>

definition ids_ok :: "nat \<Rightarrow> HttpRequestManager \<Rightarrow> bool" where
  "ids_ok n m \<longleftrightarrow> 0 < unat (m_waiter_id_counter m) \<and> unat (m_waiter_id_counter m) \<le> Suc n \<and>
     (\<forall>g ws. map_of (m_group_waiters m) g = Some ws \<longrightarrow> distinct (map gw_id ws) \<and>
        (\<forall>x \<in> set ws. 0 < unat (gw_id x) \<and> unat (gw_id x) < unat (m_waiter_id_counter m)))"

lemma remove_waiter_subseq: "remove_waiter i ws = Some vs \<Longrightarrow> subseq vs ws"
  using remove_waiter_split [of i ws vs] by (auto intro: list_emb_append_mono subseq_Cons')

lemma subseq_ids: "subseq xs ys \<Longrightarrow> set xs \<subseteq> set ys \<and> (distinct (map f ys) \<longrightarrow> distinct (map f xs))"
  by (induction rule: list_emb.induct) auto

lemma ids_ok_subset:
  assumes "ids_ok n m" "m_waiter_id_counter m' = m_waiter_id_counter m"
    "\<And>g ws. map_of (m_group_waiters m') g = Some ws \<Longrightarrow> \<exists>vs. map_of (m_group_waiters m) g = Some vs \<and> subseq ws vs"
  shows "ids_ok (Suc n) m'"
proof -
  have "distinct (map gw_id ws) \<and> (\<forall>x \<in> set ws. 0 < unat (gw_id x) \<and> unat (gw_id x) < unat (m_waiter_id_counter m))"
    if "map_of (m_group_waiters m') g = Some ws" for g ws
  proof -
    from assms(3) [OF that] obtain vs where v: "map_of (m_group_waiters m) g = Some vs" "subseq ws vs" by blast
    from v(1) assms(1) have "distinct (map gw_id vs)"
      "\<forall>x \<in> set vs. 0 < unat (gw_id x) \<and> unat (gw_id x) < unat (m_waiter_id_counter m)" by (auto simp: ids_ok_def)
    then show ?thesis using subseq_ids [OF v(2), of gw_id] by blast
  qed
  with assms(1,2) show ?thesis by (auto simp: ids_ok_def)
qed

lemma exec_ids:
  assumes "managed m" "ids_ok n m" "Suc (Suc n) < 2 ^ 64"
  shows "ids_ok (Suc n) (fst (http_exec x m))"
proof -
  let ?c = "m_waiter_id_counter m"
  have d: "umap_distinct (m_group_waiters m)" using assms(1) by (simp add: managed_def)
  consider env where "x = Process env" | h f where "x = WaitGroup h f" | h i where "x = CancelWait h i"
    | "\<forall>env. x \<noteq> Process env" "\<forall>g f. x \<noteq> WaitGroup g f" "\<forall>g i. x \<noteq> CancelWait g i" by blast
  then show ?thesis
  proof cases
    case 1
    have "m_waiter_id_counter (http_process env m) = ?c"
      using assms(1) http_process_inv [of m _ env] by (auto simp: managed_def frame_def)
    then have "ids_ok (Suc n) (http_process env m)"
      by (rule ids_ok_subset [OF assms(2)]) (auto simp: process_waiters_exact [OF assms(1)] split: if_splits)
    with 1 show ?thesis by simp
  next
    case 2
    have u: "unat (?c + 1) = Suc (unat ?c)"
      using assms(2,3) by (simp add: ids_ok_def unat_word_ariths)
    show ?thesis
      using assms(2) 2 u
      by (force simp: ids_ok_def wait_requests_by_group_id_def hm_logs_def Let_def split: option.splits if_splits)
  next
    case 3
    have "ids_ok (Suc n) (fst (cancel_wait_requests_by_group_id h i m))"
    proof (rule ids_ok_subset [OF assms(2)])
      fix g ws
      assume "map_of (m_group_waiters (fst (cancel_wait_requests_by_group_id h i m))) g = Some ws"
      then show "\<exists>vs. map_of (m_group_waiters m) g = Some vs \<and> subseq ws vs"
        by (auto simp: cancel_wait_requests_by_group_id_def dest: remove_waiter_subseq split: if_splits option.splits)
    qed (simp add: cancel_wait_requests_by_group_id_def split: option.split)
    with 3 show ?thesis by simp
  next
    case 4
    then have "m_waiter_id_counter (fst (http_exec x m)) = ?c"
      by (cases x) (auto simp: http_op_defs submit_waiters)
    then show ?thesis using exec_waits_other(1) [OF 4, of m] by (intro ids_ok_subset [OF assms(2)]) auto
  qed
qed

section \<open>Runs of other threads while a caller waits\<close>

lemma http_run_Cons: "fst (http_run (x # xs) m) = fst (http_run xs (fst (http_exec x m)))"
  by (simp add: case_prod_beta)

lemma run_ids:
  assumes "managed m" "ids_ok n m" "Suc (n + length xs) < 2 ^ 64"
  shows "ids_ok (n + length xs) (fst (http_run xs m))"
  using assms
proof (induction xs arbitrary: m n)
  case (Cons x xs)
  have "ids_ok (Suc n + length xs) (fst (http_run xs (fst (http_exec x m))))"
    using Cons.prems by (intro Cons.IH managed_exec exec_ids) simp_all
  then show ?case by (simp add: http_run_Cons del: http_run.simps)
qed simp

lemma future_get_set: "is_set (hm_log m) \<Longrightarrow> future_get is_set xs m = Some m"
  by (cases xs) simp_all

lemma future_get_waits:
  assumes "managed m" "waits p w g m" "\<not> waiter_set p (hm_log m)" "list_all (leaves p w) ops"
  shows "case future_get (waiter_set p) ops m of
      Some m' \<Rightarrow> group_request_count g m' = 0 \<and> waits p w g m' \<and> waiter_set p (hm_log m')
    | None \<Rightarrow> managed (fst (http_run ops m)) \<and> waits p w g (fst (http_run ops m)) \<and>
        \<not> waiter_set p (hm_log (fst (http_run ops m))) \<and>
        (\<forall>k env. k < length ops \<longrightarrow> ops ! k = Process env \<longrightarrow> group_request_count g (fst (http_run (take (Suc k) ops) m)) \<noteq> 0)"
  using assms
proof (induction ops arbitrary: m)
  case (Cons x xs)
  let ?m = "fst (http_exec x m)"
  note e = exec_waits [OF Cons.prems(1-3), of x]
  have x: "leaves p w x" "list_all (leaves p w) xs" using Cons.prems(4) by simp_all
  show ?case
  proof (cases "waiter_set p (hm_log ?m)")
    case True
    with e(1,2) [OF x(1)] Cons.prems(3) show ?thesis by (simp add: future_get_set)
  next
    case False
    have "group_request_count g ?m \<noteq> 0" if "x = Process env" for env using e(3) [OF x(1) that] False by blast
    with Cons.IH [OF managed_exec [OF Cons.prems(1)] e(1) [OF x(1)] False x(2)] Cons.prems(3)
    show ?thesis by (auto simp: http_run_Cons less_Suc_eq_0_disj simp del: http_run.simps(2) split: option.split)
  qed
qed simp

text \<open>A new promise, and how a wait begins.\<close>

definition fresh_promise :: "cb \<Rightarrow> HttpRequestManager \<Rightarrow> bool" where
  "fresh_promise p m \<longleftrightarrow> LogWaiter p \<notin> set (hm_log m) \<and>
     list_all (\<lambda>(_, ws). list_all (\<lambda>x. gw_callback x \<noteq> Some p) ws) (m_group_waiters m)"

lemma fresh_promise_count:
  assumes "fresh_promise p m" "umap_distinct (m_group_waiters m)"
  shows "count (waiting (m_group_waiters m) + notified (hm_log m)) p = 0"
proof -
  have "p \<notin># waiting (m_group_waiters m)"
    using assms by (auto simp: waiting_iff fresh_promise_def list_all_iff dest!: map_of_SomeD)
  moreover have "p \<notin># notified (hm_log m)" using assms(1) by (simp add: notified_iff fresh_promise_def)
  ultimately show ?thesis by (simp add: count_eq_zero_iff)
qed

lemma wait_begins:
  assumes "managed m" "fresh_promise p m" "make_wait_requests_future p c m = (m1, w)"
  defines "g \<equiv> group_id (hc_request c)"
  shows "managed m1" "group_request_count g m = 0 \<Longrightarrow> m1 = hm_logs [LogWaiter p] m"
    "group_request_count g m \<noteq> 0 \<Longrightarrow> waits p w g m1 \<and> \<not> waiter_set p (hm_log m1)"
proof -
  have f: "wait_requests_by_group_id g (Some p) m = (m1, w)" using assms(3) by (simp add: make_wait_requests_future_def g_def)
  then show "managed m1" using managed_exec [OF assms(1), of "WaitGroup g (Some p)"] by simp
  have d: "umap_distinct (m_group_waiters m)" "\<not> m_shutdown m" using assms(1) by (auto simp: managed_def)
  show "m1 = hm_logs [LogWaiter p] m" if "group_request_count g m = 0"
    using f that by (simp add: wait_requests_by_group_id_def group_request_count_def)
  assume n: "group_request_count g m \<noteq> 0"
  let ?ws = "case map_of (m_group_waiters m) g of None \<Rightarrow> [] | Some ws \<Rightarrow> ws"
  let ?us = "?ws @ [\<lparr>gw_id = w, gw_callback = Some p\<rparr>]"
  have m1: "w = m_waiter_id_counter m" "m_group_waiters m1 = AList.update g ?us (m_group_waiters m)" "hm_log m1 = hm_log m"
    using f n d(2) by (auto simp: wait_requests_by_group_id_def group_request_count_def group_request_count_unlocked_def Let_def
        split: if_splits)
  note z = fresh_promise_count [OF assms(2) d(1)]
  have "count (waiting (m_group_waiters m1)) p = Suc (count (waiting (m_group_waiters m)) p)"
    unfolding m1(2) waiting_update [OF d(1)] waiting_lookup [OF d(1), of g]
    by (simp add: waiter_cbs_def split: option.split)
  moreover have "gw_callback x \<noteq> Some p" if "map_of (m_group_waiters m) g' = Some ws" "x \<in> set ws" for g' ws x
    using assms(2) map_of_SomeD [OF that(1)] that(2) by (force simp: fresh_promise_def list_all_iff)
  ultimately show "waits p w g m1 \<and> \<not> waiter_set p (hm_log m1)"
    using z assms(2) by (fastforce simp: waits_def m1 waiter_set_def fresh_promise_def split: if_splits option.splits)
qed

text \<open>A wait that is given up withdraws its promise.\<close>

lemma wait_withdrawn:
  assumes "managed m" "waits p w g m" "\<not> waiter_set p (hm_log m)" "ids_ok n m" "g \<noteq> 0"
  shows "fresh_promise p (fst (cancel_wait_requests_by_group_id g w m))"
proof -
  let ?m = "fst (cancel_wait_requests_by_group_id g w m)"
  have d: "umap_distinct (m_group_waiters m)" using assms(1) by (simp add: managed_def)
  obtain ws x where x: "map_of (m_group_waiters m) g = Some ws" "x \<in> set ws" "gw_callback x = Some p"
    using waits_unset [OF assms(2,3) d] by blast
  then have i: "gw_id x = w" "distinct (map gw_id ws)" "w \<noteq> 0"
    using assms(2,4) unfolding waits_def ids_ok_def by (blast, blast, force)
  have "remove_waiter w ws \<noteq> None" using x(2) i(1) by (induction ws) auto
  then obtain vs where v: "remove_waiter w ws = Some vs" by blast
  then obtain a y b where y: "ws = a @ y # b" "gw_id y = w" "vs = a @ b" using remove_waiter_split by blast
  have "\<forall>z \<in> set ws. gw_callback z = Some p \<longrightarrow> gw_id z = w" using assms(2) x(1) unfolding waits_def by blast
  moreover have "w \<notin> gw_id ` set vs" "set vs \<subseteq> set ws" using i(2) y by auto
  ultimately have "\<forall>z \<in> set vs. gw_callback z \<noteq> Some p" by (metis image_eqI subsetD)
  moreover have "m_group_waiters ?m = (if vs = [] then AList.delete g (m_group_waiters m) else AList.update g vs (m_group_waiters m))"
    using x(1) v i(3) assms(5) by (simp add: cancel_wait_requests_by_group_id_def)
  moreover have "umap_distinct (m_group_waiters ?m)"
    using managed_exec [OF assms(1), of "CancelWait g w"] by (simp add: managed_def)
  moreover have "hm_log ?m = hm_log m" by (simp add: cancel_wait_requests_by_group_id_def split: option.split)
  ultimately show ?thesis
    using assms(2,3) unfolding fresh_promise_def waits_def list_all_iff
    by (auto simp: waiter_set_def map_of_eq_Some_iff_distinct [symmetric] split: if_splits)
qed

text \<open>
  C7: \<^verbatim>\<open>wait_requests\<close> returns when, and only when, the requests of the client have finished. On the worker thread it
  throws. On any other thread, whatever the worker and other threads do to the manager meanwhile: when it returns, the
  group of the client has no request left and the promise was set exactly once; as long as it blocks, the group had
  requests after every call of \<^verbatim>\<open>process\<close>. \<^verbatim>\<open>wait_requests_for\<close> returns true in the same cases; when the
  time is over it returns false and withdraws its promise, which is then nowhere in the manager.
\<close>

theorem client_wait_contract:
  assumes "http_run xs HttpRequestManager_init = (m, A)" "fresh_promise p m" "make_wait_requests_future p c m = (m1, w)"
    "list_all (leaves p w) ops" "length xs + length ops + 2 < 2 ^ 64"
  shows "wait_requests_blocking True p ops c m = Inl WaitOnWorkerThread \<and>
    (case wait_requests_blocking False p ops c m of
       Inl _ \<Rightarrow> False
     | Inr (Some m') \<Rightarrow> group_request_count (group_id (hc_request c)) m' = 0 \<and> count (notified (hm_log m')) p = 1 \<and>
         wait_requests_for_blocking False p ops c m = (m', True)
     | Inr None \<Rightarrow>
         (\<forall>k env. k < length ops \<and> ops ! k = Process env \<longrightarrow>
            group_request_count (group_id (hc_request c)) (fst (http_run (take (Suc k) ops) m1)) \<noteq> 0) \<and>
         (\<exists>m'. wait_requests_for_blocking False p ops c m = (m', False) \<and> fresh_promise p m'))"
proof -
  let ?g = "group_id (hc_request c)" and ?f = "future_get (waiter_set p) ops m1"
  have m: "managed m" by (rule managed_run [OF assms(1)])
  note b = wait_begins [OF m assms(2,3)]
  have t: "wait_requests_blocking True p ops c m = Inl WaitOnWorkerThread" "wait_requests_blocking False p ops c m = Inr ?f"
    "wait_requests_for_blocking False p ops c m =
       (case ?f of None \<Rightarrow> wait_requests_for_timeout w c (fst (http_run ops m1)) | Some m2 \<Rightarrow> (m2, True))"
    using assms(3) by (simp_all add: wait_requests_blocking_def wait_requests_def wait_requests_for_blocking_def
        wait_requests_for_begin_def)
  show ?thesis
  proof (cases "group_request_count ?g m = 0")
    case True
    then have "?f = Some m1" using b(2) by (intro future_get_set) (simp add: waiter_set_def hm_logs_def)
    moreover have "count (notified (hm_log m)) p = 0" "umap_distinct (m_group_waiters m)"
      using assms(2) m by (simp_all add: fresh_promise_def notified_iff count_eq_zero_iff managed_def)
    ultimately show ?thesis using True b(2) by (simp add: t) (simp add: hm_logs_def notified_def)
  next
    case False
    then have g: "?g \<noteq> 0" by (auto simp: group_request_count_def group_request_count_unlocked_def)
    have w: "waits p w ?g m1" "\<not> waiter_set p (hm_log m1)" using b(3) [OF False] by simp_all
    note r = future_get_waits [OF b(1) w assms(4)]
    show ?thesis
    proof (cases ?f)
      case None
      have "ids_ok (0 + length xs) (fst (http_run xs HttpRequestManager_init))"
        using assms(5) managed_run [of "[]"] by (intro run_ids) (simp_all add: ids_ok_def HttpRequestManager_init_def)
      then have "ids_ok (Suc (length xs)) (fst (http_exec (WaitGroup ?g (Some p)) m))"
        using m assms(1,5) by (intro exec_ids) simp_all
      then have "ids_ok (Suc (length xs) + length ops) (fst (http_run ops m1))"
        using b(1) assms(3,5) by (intro run_ids) (simp_all add: make_wait_requests_future_def)
      with r None g show ?thesis by (simp add: t wait_requests_for_timeout_def wait_withdrawn)
    next
      case (Some m')
      with r have "p \<in># notified (hm_log m')" "waits p w ?g m'" by (simp_all add: waiter_set_def notified_iff)
      then have "count (notified (hm_log m')) p = 1" by (simp add: waits_def flip: count_greater_zero_iff)
      with r Some show ?thesis by (simp add: t)
    qed
  qed
qed

definition demo_waiting_client :: HttpClient where
  "demo_waiting_client = demo_client\<lparr>hc_request := demo_request\<rparr>"

theorem client_wait_contract_witness:
  "\<exists>m'. wait_requests_blocking False 3 [Process (demo_env [demo_message 0 200] 0)] demo_waiting_client
       (fst (http_run demo_retry HttpRequestManager_init)) = Inr (Some m') \<and> group_request_count 5 m' = 0"
proof -
  let ?m = "fst (http_run demo_retry HttpRequestManager_init)" and ?ops = "[Process (demo_env [demo_message 0 200] 0)]"
  have f: "fresh_promise 3 ?m" "group_id (hc_request demo_waiting_client) = 5" by code_simp+
  obtain m1 w where m1: "make_wait_requests_future 3 demo_waiting_client ?m = (m1, w)" by fastforce
  have "group_request_count 5 (http_process (demo_env [demo_message 0 200] 0)
      (fst (make_wait_requests_future 3 demo_waiting_client ?m))) = 0" by code_simp
  then have n: "group_request_count 5 (http_process (demo_env [demo_message 0 200] 0) m1) = 0" using m1 by simp
  have "list_all (leaves 3 w) ?ops" "length demo_retry + length ?ops + 2 < 2 ^ 64"
    by (simp_all add: demo_retry_def demo_start_def)
  from client_wait_contract [OF surjective_pairing f(1) m1 this] n f(2) show ?thesis
    by (auto split: sum.splits option.splits)
qed

section \<open>Cancelling\<close>

definition awaits_cancel :: "cb \<Rightarrow> u64 \<Rightarrow> HttpRequestManager \<Rightarrow> bool" where
  "awaits_cancel p g m \<longleftrightarrow> (case map_of (m_groups_to_cancel m) g of None \<Rightarrow> False | Some fs \<Rightarrow> Some p \<in> set fs)"

fun cancels_other :: "cb \<Rightarrow> http_op \<Rightarrow> bool" where
  "cancels_other p (CancelRequest i f) = (f \<noteq> Some p)"
| "cancels_other p (CancelGroup g f) = (f \<noteq> Some p)"
| "cancels_other p _ = True"

definition in_group :: "u64 \<Rightarrow> HttpRequestContext \<Rightarrow> bool" where
  "in_group g c = (case request c of None \<Rightarrow> False | Some r \<Rightarrow> group_id r = g)"

lemma awaits_cancel_log: "awaits_cancel p g m \<Longrightarrow> LogCancelled p \<in> set (cancel_callbacks (m_groups_to_cancel m))"
  by (force simp: awaits_cancel_def cancel_callbacks_def cancelled_log_def split: option.splits dest!: map_of_SomeD)

text \<open>A call of \<open>process\<close> sets the promise and leaves of the group only the requests that wait for a retry inside a
  batch.\<close>

lemma process_cancels:
  fixes env :: http_env
  assumes "managed m" "awaits_cancel p g m" "g \<noteq> 0"
  defines "m' \<equiv> http_process env m"
  shows "cancelled_set p (hm_log m')" "filter (in_group g) (contexts m') = filter (in_group g) (batch_retries m')"
proof -
  let ?m3 = "process_retry_failed_requests env (process_active_requests env (process_pending_requests env m))"
  let ?m4 = "process_cancel_requests ?m3" and ?gs = "m_groups_to_cancel m"
  have c: "m_groups_to_cancel ?m3 = ?gs" using assms(1) http_stages_inv [of m _ env] by (auto simp: managed_def calm_def)
  have e: "m' = notify_group_waiters_if_idle ?m4" using assms(1) by (simp add: m'_def http_process_def managed_def)
  have g: "map_of ?gs g \<noteq> None" using assms(2) by (simp add: awaits_cancel_def split: option.splits)
  then have "m_requests_to_cancel_by_id ?m3 \<noteq> [] \<or> m_groups_to_cancel ?m3 \<noteq> []" using c by auto
  note st = process_cancel_stages [OF this, unfolded c]
  have "LogCancelled p \<in> set (hm_log ?m4)" using st(7) awaits_cancel_log [OF assms(2)] by auto
  then show "cancelled_set p (hm_log m')" by (simp add: e cancelled_set_def notify_group_waiters_if_idle_def hm_logs_def Let_def)
  have l: "m_pending_requests m' = m_pending_requests ?m4" "m_failed_requests m' = m_failed_requests ?m4"
    "m_active_request_batches m' = m_active_request_batches ?m4"
    by (simp_all add: e notify_group_waiters_if_idle_def hm_logs_def Let_def)
  have hit: "matches_cancel c rs ?gs" if "in_group g c" for c rs
    using that g assms(3) by (auto simp: in_group_def matches_cancel_def split: option.splits)
  have "\<not> in_group g c" if "\<not> handler_matches rs ?gs h" "c \<in> set (handler_contexts h)" for c h rs
    using that g assms(3)
    by (auto simp: in_group_def handler_matches_def handler_contexts_def get_group_id_def split: option.splits if_splits)
  then have h: "filter (in_group g) (concat (map handler_contexts (filter (\<lambda>h. \<not> handler_matches rs ?gs h) hs))) = []" for rs hs
    by (induction hs) (auto simp: filter_empty_conv)
  have "filter (in_group g) (concat (map batch_contexts (map (\<lambda>b. b\<lparr>m_handlers :=
      filter (\<lambda>h. \<not> handler_matches rs ?gs h) (m_handlers b)\<rparr>) bs))) =
    filter (in_group g) (concat (map b_failed_requests bs))" for rs bs
    by (induction bs) (simp_all add: batch_contexts_def h)
  then show "filter (in_group g) (contexts m') = filter (in_group g) (batch_retries m')"
    using hit by (simp add: contexts_def batch_retries_def l st(1-3) comp_def) (auto simp: filter_empty_conv)
qed

lemma exec_awaits:
  assumes "awaits_cancel p g m" "\<not> cancelled_set p (hm_log m)" "cancels_other p x" "\<forall>env. x \<noteq> Process env"
  shows "awaits_cancel p g (fst (http_exec x m))" "\<not> cancelled_set p (hm_log (fst (http_exec x m)))"
proof -
  have s: "m_groups_to_cancel (fst (submit_request b rq f m)) = m_groups_to_cancel m" for b rq f
    by (simp add: submit_request_def drop_request_def destroy_context_def drop_release_args_def on_limiter_def Let_def
        split: option.split)
  show "awaits_cancel p g (fst (http_exec x m))"
    using assms(1,4) s by (cases x) (auto simp: awaits_cancel_def http_op_defs push_cancel_def split: option.splits)
  show "\<not> cancelled_set p (hm_log (fst (http_exec x m)))"
    using assms(2-4)
    by (cases x) (auto simp: cancelled_set_def http_op_defs submit_waiters cancelled_log_def split: option.splits)
qed

lemma future_get_cancels:
  assumes "managed m" "awaits_cancel p g m" "\<not> cancelled_set p (hm_log m)" "list_all (cancels_other p) ops" "g \<noteq> 0"
  shows "case future_get (cancelled_set p) ops m of
      None \<Rightarrow> \<forall>env. Process env \<notin> set ops
    | Some m' \<Rightarrow> managed m' \<and> filter (in_group g) (contexts m') = filter (in_group g) (batch_retries m')"
  using assms
proof (induction ops arbitrary: m)
  case (Cons x xs)
  show ?case
  proof (cases "\<exists>env. x = Process env")
    case True
    then obtain env where x: "x = Process env" ..
    note c = process_cancels [OF Cons.prems(1,2,5), of env]
    have "managed (http_process env m)" using managed_exec [OF Cons.prems(1), of x] x by simp
    with c Cons.prems(3) x show ?thesis by (simp add: future_get_set)
  next
    case False
    then have e: "awaits_cancel p g (fst (http_exec x m))" "\<not> cancelled_set p (hm_log (fst (http_exec x m)))"
      using exec_awaits [OF Cons.prems(2,3), of x] Cons.prems(4) by auto
    from Cons.IH [OF managed_exec [OF Cons.prems(1)] e] Cons.prems(3-5) False show ?thesis
      by (auto split: option.split)
  qed
qed simp

text \<open>
  C8: \<^verbatim>\<open>cancel_requests\<close>, and so the destructor of a client, returns after the next call of \<^verbatim>\<open>process\<close>, whatever other
  threads do before it, and at once when the client has no requests. When it returns, the requests of the client that
  the manager still holds are exactly those that wait for a retry inside a batch whose other transfers still run: no
  other is pending, running or waiting, and the counter of the client's group counts exactly these.
\<close>

theorem client_cancel_contract:
  assumes "http_run xs HttpRequestManager_init = (m, A)" "LogCancelled p \<notin> set (hm_log m)" "list_all (cancels_other p) ops"
    "group_id (hc_request c) \<noteq> 0"
  shows "case cancel_requests_blocking p ops c m of
      None \<Rightarrow> group_request_count (group_id (hc_request c)) m \<noteq> 0 \<and> (\<forall>env. Process env \<notin> set ops) \<and>
        HttpClient_destructor p ops c m = None
    | Some m' \<Rightarrow> HttpClient_destructor p ops c m = Some (HttpClient_destroy c m') \<and>
        filter (in_group (group_id (hc_request c))) (contexts m') = filter (in_group (group_id (hc_request c))) (batch_retries m') \<and>
        group_request_count (group_id (hc_request c)) m' =
          length (filter (in_group (group_id (hc_request c))) (batch_retries m'))"
proof -
  let ?g = "group_id (hc_request c)" and ?m = "fst (cancel_requests p c m)"
  have m: "managed m" by (rule managed_run [OF assms(1)])
  have e: "?m = cancel_requests_by_group_id ?g (Some p) m" by (simp add: cancel_requests_def)
  have m1: "managed ?m" using managed_exec [OF m, of "CancelGroup ?g (Some p)"] by (simp add: e)
  have n: "group_request_count ?g x = length (filter (in_group ?g) (contexts x))" if "managed x" for x
  proof -
    from that obtain T where "hm_inv x T" by (auto simp: managed_def)
    from group_count_contexts [OF this assms(4)] show ?thesis by (simp add: in_group_def [abs_def])
  qed
  have "case future_get (cancelled_set p) ops ?m of
      None \<Rightarrow> group_request_count ?g m \<noteq> 0 \<and> (\<forall>env. Process env \<notin> set ops)
    | Some m' \<Rightarrow> managed m' \<and> filter (in_group ?g) (contexts m') = filter (in_group ?g) (batch_retries m')"
  proof (cases "group_request_count ?g m = 0")
    case True
    then have q: "?m = hm_logs [LogCancelled p] m"
      by (simp add: e cancel_requests_by_group_id_def cancelled_log_def group_request_count_def)
    have "filter (in_group ?g) (contexts ?m) = []" using n [OF m1] True by (simp add: q)
    then have "filter (in_group ?g) (batch_retries ?m) = []"
      by (auto simp: filter_empty_conv contexts_def batch_retries_def batch_contexts_def)
    moreover have "cancelled_set p (hm_log ?m)" by (simp add: q cancelled_set_def hm_logs_def)
    ultimately show ?thesis using m1 \<open>filter (in_group ?g) (contexts ?m) = []\<close> by (simp add: future_get_set)
  next
    case False
    then have q: "?m = m\<lparr>m_groups_to_cancel := push_cancel ?g (Some p) (m_groups_to_cancel m)\<rparr>"
      using m assms(4) by (simp add: e cancel_requests_by_group_id_def group_request_count_def managed_def)
    have "awaits_cancel p ?g ?m" by (simp add: q awaits_cancel_def push_cancel_def split: option.split)
    moreover have "\<not> cancelled_set p (hm_log ?m)" using assms(2) by (simp add: q cancelled_set_def)
    ultimately show ?thesis using future_get_cancels [OF m1 _ _ assms(3,4)] False by (auto split: option.splits)
  qed
  then show ?thesis by (auto simp: cancel_requests_blocking_def HttpClient_destructor_def n split: option.splits)
qed

theorem client_cancel_contract_witness:
  "\<exists>m'. HttpClient_destructor 3 [Process (demo_env [] 1)] demo_waiting_client
       (fst (http_run demo_start HttpRequestManager_init)) = Some (HttpClient_destroy demo_waiting_client m') \<and>
     group_request_count 5 m' = 0"
proof -
  let ?m = "fst (http_run demo_start HttpRequestManager_init)" and ?ops = "[Process (demo_env [] 1)]"
  have f: "\<not> cancelled_set 3 (hm_log ?m)" "group_id (hc_request demo_waiting_client) = 5" by code_simp+
  let ?m' = "http_process (demo_env [] 1) (fst (cancel_requests 3 demo_waiting_client ?m))"
  have "batch_retries ?m' = []" by code_simp
  moreover have "cancel_requests_blocking 3 ?ops demo_waiting_client ?m = Some ?m'"
  proof -
    have "cancelled_set 3 (hm_log ?m')" "\<not> cancelled_set 3 (hm_log (fst (cancel_requests 3 demo_waiting_client ?m)))"
      by code_simp+
    then show ?thesis by (simp add: cancel_requests_blocking_def)
  qed
  ultimately show ?thesis
    using client_cancel_contract [of demo_start ?m "snd (http_run demo_start HttpRequestManager_init)" 3 ?ops demo_waiting_client] f
    by (auto simp: cancelled_set_def)
qed

end
