(* ===== verification/Http_Request_Desk.thy ===== *)
theory Http_Request_Desk
  imports Http_Request_Control Refinement
begin

text \<open>
  What the request manager is to its users: a desk that takes requests and answers them. The
  specification is a transition system over the requests that are open and those that are answered;
  the manager, with its lists, batches, retries, limits, groups and cancellations, refines it.
\<close>

declare map_of_eq_Some_iff [simp del] Some_eq_map_of_iff [simp del]

section \<open>The desk\<close>

text \<open>A request is named by its token and its callback.\<close>

type_synonym request_key = "u64 \<times> cb option"

inductive desk_step :: "request_key multiset \<times> request_key multiset \<Rightarrow> request_key multiset \<times> request_key multiset \<Rightarrow> bool" where
  desk_accept: "desk_step (w, d) (add_mset k w, d)"
| desk_answer: "xs \<subseteq># w \<Longrightarrow> desk_step (w, d) (w - xs, d + xs)"

fun completion_key :: "http_log \<Rightarrow> request_key list" where
  "completion_key (LogComplete t f) = [(t, f)]"
| "completion_key _ = []"

definition answered_keys :: "http_log list \<Rightarrow> request_key multiset" where
  "answered_keys ls = mset (concat (map completion_key ls))"

definition desk :: "HttpRequestManager \<Rightarrow> request_key multiset \<times> request_key multiset" where
  "desk m = (mset (map (\<lambda>c. (in_flight_token c, callback c)) (contexts m)), answered_keys (hm_log m))"

section \<open>The books in terms of keys\<close>

lemma count_dues_of [simp]:
  "count (dues_of k) (Completion t f) = (if k = (t, f) then 1 else 0)"
  "count (dues_of k) (Final g t) = (if k = (t, Some g) then 1 else 0)"
  by (cases k; cases "snd k"; auto)+

lemma count_dues:
  "count (dues (ckeys cs)) (Completion t f) = count (mset (map (\<lambda>c. (in_flight_token c, callback c)) cs)) (t, f)"
  "count (dues (ckeys cs)) (Final g t) = count (mset (map (\<lambda>c. (in_flight_token c, callback c)) cs)) (t, Some g)"
  by (induction cs) (simp_all add: ckey_def)

lemma count_settled: "count (settled m) (Completion t f) = count (answered_keys (hm_log m)) (t, f)"
proof -
  have "count (mset (concat (map settles ls))) (Completion t f) = count (answered_keys ls) (t, f)" for ls
  proof (induction ls)
    case (Cons l ls)
    then show ?case by (cases l) (auto simp: answered_keys_def)
  qed (simp add: answered_keys_def)
  then show ?thesis by (simp add: settled_def)
qed

lemma count_total_dues:
  "count (total_dues A) (Completion t f) = count (mset A) (t, f)" "count (total_dues A) (Final g t) = count (mset A) (t, Some g)"
  by (induction A) simp_all

lemma books_keys:
  assumes "hm_inv m (total_dues A)"
  shows "fst (desk m) + snd (desk m) = mset A" "count (settled m) (Final g t) = count (snd (desk m)) (t, Some g)"
proof -
  have b: "dues (ckeys (contexts m)) + settled m = total_dues A" using assms by (simp add: hm_inv_def acct_def live_contexts)
  show k: "fst (desk m) + snd (desk m) = mset A"
  proof (rule multiset_eqI)
    fix x :: request_key
    show "count (fst (desk m) + snd (desk m)) x = count (mset A) x"
      using arg_cong [OF b, of "\<lambda>M. count M (Completion (fst x) (snd x))"]
      by (simp add: count_dues count_settled count_total_dues desk_def)
  qed
  show "count (settled m) (Final g t) = count (snd (desk m)) (t, Some g)"
    using arg_cong [OF b, of "\<lambda>M. count M (Final g t)"] arg_cong [OF k, of "\<lambda>M. count M (t, Some g)"]
    by (simp add: count_dues count_total_dues desk_def)
qed

section \<open>The refinement\<close>

definition desk_inv :: "HttpRequestManager \<Rightarrow> bool" where
  "desk_inv m \<longleftrightarrow> (\<exists>A. hm_inv m (total_dues A))"

lemma submit_log: "hm_log (fst (submit_request p rq f m)) = hm_log m"
  by (simp add: submit_request_def drop_request_def destroy_context_def drop_release_args_def on_limiter_def Let_def
      split: option.split)

lemma exec_log:
  assumes "hm_inv m T" "http_exec x m = (m', a)"
  shows "prefix (hm_log m) (hm_log m')" "a \<noteq> [] \<Longrightarrow> hm_log m' = hm_log m \<and> (\<exists>k. a = [k])"
proof -
  show "prefix (hm_log m) (hm_log m')"
  proof (cases x)
    case (Submit p rq f)
    with assms(2) submit_log [of p rq f m] show ?thesis by (auto simp: case_prod_beta)
  next
    case (Process env)
    with assms http_process_inv [OF assms(1), of env] show ?thesis by (auto simp: frame_def)
  qed (use assms(2) in \<open>auto simp: http_op_defs split: option.splits if_splits\<close>)
  show "a \<noteq> [] \<Longrightarrow> hm_log m' = hm_log m \<and> (\<exists>k. a = [k])"
    using assms(2) submit_log
    by (cases x) (auto simp: case_prod_beta Let_def split: option.splits if_splits)
qed

lemma exec_desk:
  assumes "hm_inv m (total_dues A)" "http_exec x m = (m', a)"
  shows "hm_inv m' (total_dues (A @ a))" "desk m' = desk m \<or> desk_step (desk m) (desk m')"
proof -
  show i: "hm_inv m' (total_dues (A @ a))" using http_exec_inv [OF assms] by simp
  obtain w d w' d' where e: "desk m = (w, d)" "desk m' = (w', d')" by fastforce
  from books_keys(1) [OF assms(1)] books_keys(1) [OF i] have s: "w' + d' = w + d + mset a" by (simp add: e)
  have "d \<subseteq># d'"
    using exec_log(1) [OF assms] e by (auto simp: desk_def answered_keys_def elim!: prefixE)
  then obtain xs where xs: "d' = d + xs" using mset_subset_eq_exists_conv by blast
  show "desk m' = desk m \<or> desk_step (desk m) (desk m')"
  proof (cases "a = []")
    case True
    then have "w = w' + xs" using s xs by (simp add: ac_simps)
    then show ?thesis using desk_answer [of xs w d] by (simp add: e xs)
  next
    case False
    from exec_log(2) [OF assms False] obtain k where "a = [k]" "d' = d" using e by (auto simp: desk_def)
    then have "w' = add_mset k w" using s by (simp add: ac_simps)
    then show ?thesis using desk_accept [of w d k] \<open>d' = d\<close> by (simp add: e)
  qed
qed

interpretation desk: refinement "\<lambda>m m'. \<exists>x. m' = fst (http_exec x m)" desk_inv desk_step desk
proof
  fix m m'
  assume "desk_inv m" "\<exists>x. m' = fst (http_exec x m)"
  then obtain A x a where A: "hm_inv m (total_dues A)" "http_exec x m = (m', a)" by (auto simp: desk_inv_def prod_eq_iff)
  from exec_desk(1) [OF A] show "desk_inv m'" unfolding desk_inv_def by blast
  from exec_desk(2) [OF A] show "desk m' = desk m \<or> desk_step (desk m) (desk m')" .
qed

lemma desk_init: "desk_inv HttpRequestManager_init" "desk HttpRequestManager_init = ({#}, {#})"
proof -
  have "hm_inv HttpRequestManager_init (total_dues [])" using hm_inv_init by simp
  then show "desk_inv HttpRequestManager_init" unfolding desk_inv_def by blast
qed (simp add: desk_def contexts_def answered_keys_def HttpRequestManager_init_def)

lemma run_exec:
  "http_run xs m = (m', A) \<Longrightarrow> (\<lambda>m m'. \<exists>x. m' = fst (http_exec x m))\<^sup>*\<^sup>* m m'"
proof (induction xs arbitrary: m A)
  case (Cons x xs)
  then have "(\<lambda>m m'. \<exists>x. m' = fst (http_exec x m))\<^sup>*\<^sup>* (fst (http_exec x m)) m'"
    by (auto simp: case_prod_beta prod_eq_iff)
  then show ?case by (rule converse_rtranclp_into_rtranclp [rotated]) blast
qed simp



end
