(* ===== verification/Http_Curl_Options.thy ===== *)
theory Http_Curl_Options
  imports Http_Request_Manager
begin

text \<open>
  What \<open>HttpRequestHandler::init_curl\<close> (\<^verbatim>\<open>HttpRequestHandler.hpp\<close>) asks of libcurl: the calls of
  \<open>curl_easy_setopt\<close> in order, as a list of options with their values. The pointers to the handler and
  to its buffers, which libcurl hands back to the callbacks, are left out of the options that carry
  them. Whether \<open>curl_slist_append\<close> succeeds on the header of a given position, and the bundle of certificates a
  build for Windows falls back to, are arguments.
\<close>

datatype curl_option =
    CURLOPT_URL string
  | CURLOPT_NOSIGNAL int
  | CURLOPT_CUSTOMREQUEST string
  | CURLOPT_NOBODY int
  | CURLOPT_HTTP_VERSION_2_0
  | CURLOPT_SSLCERT string
  | CURLOPT_SSLKEY string
  | CURLOPT_CAINFO string
  | CURLOPT_CAPATH string
  | CURLOPT_SSLVERSION_MAX_DEFAULT
  | CURLOPT_FOLLOWLOCATION bool
  | CURLOPT_MAXREDIRS int
  | CURLOPT_AUTOREFERER bool
  | CURLOPT_TIMEOUT int
  | CURLOPT_CONNECTTIMEOUT int
  | CURLOPT_USERAGENT string
  | CURLOPT_ACCEPT_ENCODING string
  | CURLOPT_HTTPHEADER "string list"
  | CURLOPT_PROXY string
  | CURLOPT_PROXYTYPE ProxyType
  | CURLOPT_HTTPPROXYTUNNEL bool
  | CURLOPT_PROXYUSERPWD string
  | CURLOPT_PROXYAUTH_ANY
  | CURLOPT_COOKIE string
  | CURLOPT_COOKIEFILE string
  | CURLOPT_COOKIEJAR string
  | CURLOPT_COOKIELIST string
  | CURLOPT_POSTFIELDS string
  | CURLOPT_POSTFIELDSIZE nat
  | CURLOPT_INTERFACE string
  | CURLOPT_VERBOSE bool
  | CURLOPT_HEADER bool
  | CURLOPT_ERRORBUFFER
  | CURLOPT_WRITEFUNCTION
  | CURLOPT_WRITEDATA
  | CURLOPT_HEADERDATA
  | CURLOPT_HEADERFUNCTION
  | CURLOPT_PRIVATE

definition headers_count :: "Headers \<Rightarrow> string \<Rightarrow> nat" where
  "headers_count hs key = length (filter (\<lambda>(k, _). case_insensitive_equal k key) hs)"

text \<open>\<open>bundle\<close> is the path that \<open>get_ca_file_path\<close> (\<open>System_Paths\<close>) gives in a build for Windows, and \<open>None\<close> in any
  other build, where the code does not ask for it.\<close>

definition set_ssl_options :: "string option \<Rightarrow> HttpRequest \<Rightarrow> curl_option list" where
  "set_ssl_options bundle r =
     (if rq_cert_file r \<noteq> [] then [CURLOPT_SSLCERT (rq_cert_file r)] else []) @
     (if rq_key_file r \<noteq> [] then [CURLOPT_SSLKEY (rq_key_file r)] else []) @
     (if rq_ca_file r \<noteq> [] then [CURLOPT_CAINFO (rq_ca_file r)]
      else case bundle of None \<Rightarrow> [] | Some path \<Rightarrow> [CURLOPT_CAINFO path]) @
     (if rq_ca_path r \<noteq> [] then [CURLOPT_CAPATH (rq_ca_path r)] else []) @
     [CURLOPT_SSLVERSION_MAX_DEFAULT]"

text \<open>The list of header lines, \<open>None\<close> for the null pointer: a failed append gives up all headers.\<close>

fun append_headers :: "(nat \<Rightarrow> bool) \<Rightarrow> nat \<Rightarrow> Headers \<Rightarrow> string list option \<Rightarrow> string list option" where
  "append_headers ok k [] acc = acc"
| "append_headers ok k ((name, value) # hs) acc =
     (if ok k
      then append_headers ok (k + 1) hs (Some ((case acc of None \<Rightarrow> [] | Some ls \<Rightarrow> ls) @ [name @ '': '' @ value]))
      else None)"

definition set_custom_headers :: "(nat \<Rightarrow> bool) \<Rightarrow> HttpRequest \<Rightarrow> curl_option list" where
  "set_custom_headers ok r =
     (if rq_user_agent r \<noteq> [] \<and> headers_count (rq_headers r) ''User-Agent'' = 0
      then [CURLOPT_USERAGENT (rq_user_agent r)] else []) @
     (if rq_accept_encoding r \<noteq> [] \<and> headers_count (rq_headers r) ''Accept-Encoding'' = 0
      then [CURLOPT_ACCEPT_ENCODING (rq_accept_encoding r)] else []) @
     (case append_headers ok 0 (rq_headers r) None of
        None \<Rightarrow> []
      | Some ls \<Rightarrow> [CURLOPT_HTTPHEADER ls])"

definition set_proxy_options :: "HttpRequest \<Rightarrow> curl_option list" where
  "set_proxy_options r =
     (if rq_proxy_server r \<noteq> []
      then [CURLOPT_PROXY (rq_proxy_server r), CURLOPT_PROXYTYPE (rq_proxy_type r),
            CURLOPT_HTTPPROXYTUNNEL (rq_proxy_tunnel r)] @
           (if rq_proxy_auth r \<noteq> [] then [CURLOPT_PROXYUSERPWD (rq_proxy_auth r), CURLOPT_PROXYAUTH_ANY] else [])
      else [])"

definition set_cookie_options :: "HttpRequest \<Rightarrow> curl_option list" where
  "set_cookie_options r =
     (if rq_cookie r \<noteq> [] \<and> headers_count (rq_headers r) ''Cookie'' = 0 then [CURLOPT_COOKIE (rq_cookie r)]
      else if rq_cookie_file r \<noteq> []
      then [CURLOPT_COOKIEFILE (rq_cookie_file r), CURLOPT_COOKIEJAR (rq_cookie_file r)] @
           (if rq_clear_cookie_file r then [CURLOPT_COOKIELIST ''ALL''] else [])
      else [])"

definition set_request_body :: "HttpRequest \<Rightarrow> curl_option list" where
  "set_request_body r =
     (if head_only r then []
      else if case_insensitive_equal (rq_method r) ''POST'' \<or> case_insensitive_equal (rq_method r) ''PUT'' \<or>
              case_insensitive_equal (rq_method r) ''PATCH'' \<or> case_insensitive_equal (rq_method r) ''DELETE''
      then [CURLOPT_POSTFIELDS (rq_content r), CURLOPT_POSTFIELDSIZE (length (rq_content r))]
      else [])"

definition set_request_options :: "(nat \<Rightarrow> bool) \<Rightarrow> HttpRequest \<Rightarrow> curl_option list" where
  "set_request_options ok r =
     [CURLOPT_FOLLOWLOCATION (rq_follow_location r), CURLOPT_MAXREDIRS (rq_max_redirects r),
      CURLOPT_AUTOREFERER (rq_auto_referer r), CURLOPT_TIMEOUT (rq_timeout r),
      CURLOPT_CONNECTTIMEOUT (rq_connect_timeout r)] @
     set_custom_headers ok r @ set_proxy_options r @ set_cookie_options r @ set_request_body r @
     (if rq_use_interface r \<and> rq_proxy_server r = [] then [CURLOPT_INTERFACE (rq_interface_name r)] else []) @
     [CURLOPT_VERBOSE (rq_verbose r), CURLOPT_HEADER (rq_debug_header r)]"

text \<open>\<open>easy_ok\<close> is the success of \<open>curl_easy_init\<close>.\<close>

definition init_curl :: "bool \<Rightarrow> (nat \<Rightarrow> bool) \<Rightarrow> string option \<Rightarrow> HttpRequest \<Rightarrow> curl_option list option" where
  "init_curl easy_ok ok bundle r =
     (if \<not> easy_ok then None
      else Some (
        [CURLOPT_URL (rq_url r), CURLOPT_NOSIGNAL 1, CURLOPT_CUSTOMREQUEST (rq_method r)] @
        (if head_only r then [CURLOPT_NOBODY 1] else []) @
        [CURLOPT_HTTP_VERSION_2_0] @
        set_ssl_options bundle r @ set_request_options ok r @
        [CURLOPT_ERRORBUFFER, CURLOPT_WRITEFUNCTION, CURLOPT_WRITEDATA, CURLOPT_HEADERDATA,
         CURLOPT_HEADERFUNCTION, CURLOPT_PRIVATE]))"

section \<open>Lemmas\<close>

lemmas curl_option_defs = set_ssl_options_def set_custom_headers_def set_proxy_options_def
  set_cookie_options_def set_request_body_def set_request_options_def

lemma append_headers_ok:
  "\<forall>k. ok k \<Longrightarrow> append_headers ok i hs acc =
     (if hs = [] then acc else Some ((case acc of None \<Rightarrow> [] | Some ls \<Rightarrow> ls) @ map (\<lambda>(k, v). k @ '': '' @ v) hs))"
  by (induction hs arbitrary: i acc) (auto split: option.split)

lemma append_headers_fail: "\<not> ok (i + n) \<Longrightarrow> n < length hs \<Longrightarrow> append_headers ok i hs acc = None"
proof (induction hs arbitrary: i n acc)
  case (Cons h hs)
  then show ?case by (cases h; cases n) auto
qed simp

fun option_of_header :: "curl_option \<Rightarrow> bool" where
  "option_of_header (CURLOPT_HTTPHEADER _) = True"
| "option_of_header _ = False"

lemma mem_if: "x \<in> set (if b then xs else ys) \<longleftrightarrow> (if b then x \<in> set xs else x \<in> set ys)"
  by simp

lemma filter_if: "filter P (if b then xs else ys) = (if b then filter P xs else filter P ys)"
  by simp

lemma header_options [simp]:
  "filter option_of_header (set_ssl_options bundle r) = []" "filter option_of_header (set_proxy_options r) = []"
  "filter option_of_header (set_cookie_options r) = []" "filter option_of_header (set_request_body r) = []"
  by (simp_all add: curl_option_defs split: option.split)




end
