(* ===== verification/Codecs.thy ===== *)
theory Codecs
  imports Http_Text
begin

text \<open>
  The two text codecs of the library, percent encoding (\<^verbatim>\<open>utils/percent_encoding.hpp\<close>, defined in
  \<open>Http_Text\<close>) and Base64url (\<^verbatim>\<open>utils/base64_url.hpp\<close>). The locale \<open>codec\<close> states what their users rely
  on, that decoding undoes encoding and that the encoded text stays within an alphabet, and both are
  interpretations of it.
\<close>

unbundle bit_operations_syntax

locale codec =
  fixes encode :: "'a list \<Rightarrow> string" and decode :: "string \<Rightarrow> 'a list" and alphabet :: "char set"
  assumes decode_encode: "decode (encode xs) = xs"
    and encode_alphabet: "set (encode xs) \<subseteq> alphabet"
begin

lemma encode_inject: "encode xs = encode ys \<longleftrightarrow> xs = ys"
  using decode_encode by metis

lemma encode_free_of: "c \<notin> alphabet \<Longrightarrow> c \<notin> set (encode xs)"
  using encode_alphabet by blast

lemma decode_surj: "\<exists>s. set s \<subseteq> alphabet \<and> decode s = xs"
  using decode_encode encode_alphabet by blast

end

section \<open>Percent encoding\<close>

definition percent_alphabet :: "char set" where
  "percent_alphabet = insert CHR ''%'' (Collect is_unreserved)"

lemma hex_chars_value:
  assumes "n < 16"
  shows "hex_value (hex_chars ! n) = Some n \<and> is_unreserved (hex_chars ! n) \<and>
    \<not> isspace (hex_chars ! n) \<and> hex_chars ! n \<noteq> CHR ''-'' \<and> hex_chars ! n \<noteq> CHR ''+''"
proof -
  have "list_all (\<lambda>n. hex_value (hex_chars ! n) = Some n \<and> is_unreserved (hex_chars ! n) \<and>
    \<not> isspace (hex_chars ! n) \<and> hex_chars ! n \<noteq> CHR ''-'' \<and> hex_chars ! n \<noteq> CHR ''+'') [0..<16]" by code_simp
  with assms show ?thesis by (simp add: list_all_iff del: upt_rec_numeral)
qed

lemma strtol16_pair:
  assumes "i < 16" "j < 16"
  shows "strtol16 [hex_chars ! i, hex_chars ! j] = int (16 * i + j)"
  using hex_chars_value [OF assms(1)] hex_chars_value [OF assms(2)] by (simp add: strtol16_def)

lemma percent_decode_char: "percent_decode (percent_encode_char c @ s) = c # percent_decode s"
proof (cases "is_unreserved c")
  case True
  then have "c \<noteq> CHR ''%''" "c \<noteq> CHR ''+''" by (auto simp: is_unreserved_def isalnum_def isalpha_def isdigit_def isupper_def islower_def)
  with True show ?thesis by (simp add: percent_encode_char_def)
next
  case False
  have "ord c div 16 < 16" by (rule less_mult_imp_div_less) simp
  then have "strtol16 [hex_chars ! (ord c div 16), hex_chars ! (ord c mod 16)] = int (ord c)"
    by (subst strtol16_pair) simp_all
  moreover have "nat (int (ord c) mod 256) = ord c" using ord_less [of c] by simp
  ultimately show ?thesis using False by (simp add: percent_encode_char_def)
qed

interpretation percent: codec percent_encode percent_decode percent_alphabet
proof
  fix xs :: string
  show "percent_decode (percent_encode xs) = xs"
    by (induction xs) (simp_all add: percent_encode_def percent_decode_char)
  have "ord c div 16 < 16" for c :: char by (rule less_mult_imp_div_less) simp
  then show "set (percent_encode xs) \<subseteq> percent_alphabet"
    using hex_chars_value by (auto simp: percent_encode_def percent_encode_char_def percent_alphabet_def split: if_splits)
qed


section \<open>Base64url\<close>

type_synonym u8 = "8 word"
type_synonym u32 = "32 word"

definition base64url_table :: string where
  "base64url_table = ''ABCDEFGHIJKLMNOPQRSTUVWXYZabcdefghijklmnopqrstuvwxyz0123456789-_''"

definition table_char :: "u32 \<Rightarrow> char" where
  "table_char i = base64url_table ! unat (i AND 0x3F)"

text \<open>The loop takes three bytes at a time; the last two clauses are the branches after it.\<close>

fun base64url_encode :: "u8 list \<Rightarrow> string" where
  "base64url_encode (d0 # d1 # d2 # rest) =
     (let b = push_bit 16 (ucast d0 :: u32) OR push_bit 8 (ucast d1) OR ucast d2
      in [table_char (drop_bit 18 b), table_char (drop_bit 12 b), table_char (drop_bit 6 b), table_char b] @
         base64url_encode rest)"
| "base64url_encode [d0] =
     (let b = push_bit 16 (ucast d0 :: u32)
      in [table_char (drop_bit 18 b), table_char (drop_bit 12 b)])"
| "base64url_encode [d0, d1] =
     (let b = push_bit 16 (ucast d0 :: u32) OR push_bit 8 (ucast d1)
      in [table_char (drop_bit 18 b), table_char (drop_bit 12 b), table_char (drop_bit 6 b)])"
| "base64url_encode [] = []"

definition bytes_of_string :: "string \<Rightarrow> u8 list" where
  "bytes_of_string s = map (\<lambda>c. word_of_nat (ord c)) s"

definition base64url_encode_string :: "string \<Rightarrow> string" where
  "base64url_encode_string value = base64url_encode (bytes_of_string value)"

definition decode_table :: "int list" where
  "decode_table =
     replicate 45 (- 1) @ [62] @ replicate 2 (- 1) @ [52..61] @ replicate 7 (- 1) @ [0..25] @
     replicate 4 (- 1) @ [63] @ replicate 1 (- 1) @ [26..51] @ replicate 133 (- 1)"

definition pad :: "string \<Rightarrow> string" where
  "pad value = value @ replicate ((4 - length value mod 4) mod 4) (CHR ''='')"

definition sextet :: "int \<Rightarrow> u32" where
  "sextet c = (if c \<ge> 0 then word_of_int c else 0)"

fun decode_groups :: "string \<Rightarrow> u8 list" where
  "decode_groups (p0 # p1 # p2 # p3 # rest) =
     (let c0 = decode_table ! ord p0; c1 = decode_table ! ord p1;
          c2 = decode_table ! ord p2; c3 = decode_table ! ord p3
      in if c0 < 0 \<or> c1 < 0 then []
         else if c2 < 0 \<and> p2 \<noteq> CHR ''='' then []
         else if c3 < 0 \<and> p3 \<noteq> CHR ''='' then []
         else
           let b = push_bit 18 (sextet c0) OR push_bit 12 (sextet c1) OR push_bit 6 (sextet c2) OR sextet c3
           in [ucast (drop_bit 16 b AND 0xFF)] @
              (if p2 \<noteq> CHR ''='' then [ucast (drop_bit 8 b AND 0xFF)] else []) @
              (if p3 \<noteq> CHR ''='' then [ucast (b AND 0xFF)] else []) @
              decode_groups rest)"
| "decode_groups _ = []"

definition base64url_decode :: "string \<Rightarrow> u8 list" where
  "base64url_decode value = decode_groups (pad value)"

definition base64url_alphabet :: "char set" where
  "base64url_alphabet = set base64url_table"

lemma table_decode:
  assumes "n < 64"
  shows "decode_table ! ord (base64url_table ! n) = int n \<and> base64url_table ! n \<noteq> CHR ''=''"
proof -
  have "list_all (\<lambda>n. decode_table ! ord (base64url_table ! n) = int n \<and> base64url_table ! n \<noteq> CHR ''='') [0..<64]"
    by code_simp
  with assms show ?thesis by (simp add: list_all_iff del: upt_rec_numeral)
qed

lemma and_mask6: "(w :: u32) AND 0x3F = take_bit 6 w"
  by (simp add: take_bit_eq_mask mask_numeral)

lemma and_mask8: "(w :: u32) AND 0xFF = take_bit 8 w"
  by (simp add: take_bit_eq_mask mask_numeral)

lemma sextet_less: "unat (take_bit 6 w :: u32) < 64"
  using take_bit_nat_less_exp [of 6 "unat w"] by (simp add: unsigned_take_bit_eq)

lemma table_char_decode [simp]:
  "decode_table ! ord (table_char w) = uint (take_bit 6 w)" "table_char w \<noteq> CHR ''=''"
  using table_decode [OF sextet_less] by (simp_all add: table_char_def and_mask6)

lemma sextet_table [simp]: "sextet (uint (w :: u32)) = w"
  by (simp add: sextet_def)

lemma join_bits: "push_bit m (take_bit k (drop_bit m b)) OR take_bit m b = take_bit (m + k) (b :: u32)"
  by (rule bit_word_eqI) (auto simp: bit_simps)

lemma join_sextets:
  "push_bit 18 (take_bit 6 (drop_bit 18 b)) OR push_bit 12 (take_bit 6 (drop_bit 12 b)) OR
   push_bit 6 (take_bit 6 (drop_bit 6 b)) OR take_bit 6 b = take_bit 24 (b :: u32)"
proof -
  have "push_bit 6 (take_bit 6 (drop_bit 6 b)) OR take_bit 6 b = take_bit 12 b"
    "push_bit 12 (take_bit 6 (drop_bit 12 b)) OR take_bit 12 b = take_bit 18 b"
    "push_bit 18 (take_bit 6 (drop_bit 18 b)) OR take_bit 18 b = take_bit 24 b"
    using join_bits [of 6 6 b] join_bits [of 12 6 b] join_bits [of 18 6 b] by simp_all
  then show ?thesis by (simp add: or.assoc)
qed

lemma byte_cases: "n < LENGTH(8) \<Longrightarrow> n \<in> {0, 1, 2, 3, 4, 5, 6, 7 :: nat}"
  by auto

lemma high_bit [simp]: "8 \<le> n \<Longrightarrow> \<not> bit (d :: u8) n"
  using bit_imp_le_length [of d n] by auto

lemma group_bytes:
  fixes d0 d1 d2 :: u8
  defines "b \<equiv> push_bit 16 (ucast d0 :: u32) OR push_bit 8 (ucast d1) OR ucast d2"
  shows "ucast (take_bit 8 (drop_bit 16 (take_bit 24 b))) = d0" "ucast (take_bit 8 (drop_bit 8 (take_bit 24 b))) = d1"
    "ucast (take_bit 8 (take_bit 24 b)) = d2"
  unfolding b_def by (rule bit_word_eqI, drule byte_cases, elim insertE emptyE; simp add: bit_simps)+

lemma table_char_alphabet: "table_char w \<in> base64url_alphabet"
proof -
  have "length base64url_table = 64" by code_simp
  with sextet_less [of w] show ?thesis by (simp add: table_char_def and_mask6 base64url_alphabet_def)
qed

lemma equals_sign [simp]: "decode_table ! 61 = - 1"
  by code_simp

lemma sextet_neg [simp]: "sextet (- 1) = 0"
  by (simp add: sextet_def)

lemma low_sextets:
  "take_bit 6 (push_bit 16 (ucast (d0 :: u8) :: u32)) = 0"
  "take_bit 6 (drop_bit 6 (push_bit 16 (ucast d0 :: u32))) = 0"
  "take_bit 6 (push_bit 16 (ucast d0 :: u32) OR push_bit 8 (ucast (d1 :: u8))) = 0"
  by (rule bit_word_eqI; auto simp: bit_simps)+

lemma pad_append: "length xs = 4 \<Longrightarrow> pad (xs @ s) = xs @ pad s"
  by (simp add: pad_def)

lemma pad_two: "pad [a, b] = [a, b, CHR ''='', CHR ''='']"
  by (simp add: pad_def numeral_2_eq_2)

interpretation base64url: codec base64url_encode base64url_decode base64url_alphabet
proof
  fix ds :: "u8 list"
  show "set (base64url_encode ds) \<subseteq> base64url_alphabet"
    by (induction ds rule: base64url_encode.induct) (simp_all add: Let_def table_char_alphabet)
  show "base64url_decode (base64url_encode ds) = ds"
  proof (induction ds rule: base64url_encode.induct)
    case (1 d0 d1 d2 rest)
    let ?b = "push_bit 16 (ucast d0 :: u32) OR push_bit 8 (ucast d1) OR ucast d2"
    let ?g = "[table_char (drop_bit 18 ?b), table_char (drop_bit 12 ?b), table_char (drop_bit 6 ?b), table_char ?b]"
    have "base64url_encode (d0 # d1 # d2 # rest) = ?g @ base64url_encode rest" by (simp add: Let_def)
    then have "base64url_decode (base64url_encode (d0 # d1 # d2 # rest)) = decode_groups (?g @ pad (base64url_encode rest))"
      by (simp only: base64url_decode_def pad_append [of ?g] length_Cons list.size)
    also have "\<dots> = [d0, d1, d2] @ decode_groups (pad (base64url_encode rest))"
      by (simp add: join_sextets group_bytes and_mask8 Let_def del: push_bit_or take_bit_or drop_bit_or take_bit_take_bit)
    finally show ?case using 1 by (simp add: base64url_decode_def)
  next
    case (2 d0)
    have "push_bit 18 (take_bit 6 (drop_bit 18 (push_bit 16 (ucast d0 :: u32)))) OR
        push_bit 12 (take_bit 6 (drop_bit 12 (push_bit 16 (ucast d0)))) = take_bit 24 (push_bit 16 (ucast d0))"
      using join_sextets [of "push_bit 16 (ucast d0)"] by (simp only: low_sextets) simp
    then show ?case using group_bytes(1) [of d0 0 0]
      by (simp add: base64url_decode_def pad_two and_mask8 Let_def
          del: push_bit_or take_bit_or drop_bit_or take_bit_take_bit)
  next
    case (3 d0 d1)
    let ?b = "push_bit 16 (ucast d0 :: u32) OR push_bit 8 (ucast d1)"
    have "push_bit 18 (take_bit 6 (drop_bit 18 ?b)) OR push_bit 12 (take_bit 6 (drop_bit 12 ?b)) OR
        push_bit 6 (take_bit 6 (drop_bit 6 ?b)) = take_bit 24 ?b"
      using join_sextets [of ?b] by (simp only: low_sextets) simp
    then show ?case using group_bytes(1,2) [of d0 d1 0]
      by (simp add: base64url_decode_def pad_def and_mask8 Let_def del: push_bit_or take_bit_or drop_bit_or take_bit_take_bit)
  next
    case 4
    show ?case by (simp add: base64url_decode_def pad_def)
  qed
qed


lemma length_base64url: "length (base64url_encode ds) = (4 * length ds + 2) div 3"
  by (induction ds rule: base64url_encode.induct) (simp_all add: Let_def)

text \<open>Percent decoding undoes percent encoding for every string, and the encoded string holds only
  unreserved characters and percent signs, so that it can stand in a query without changing its
  structure.\<close>

theorem percent_roundtrip:
  "percent_decode (percent_encode s) = s \<and> set (percent_encode s) \<subseteq> insert (CHR ''%'') (Collect is_unreserved)"
  using percent.decode_encode percent.encode_alphabet by (auto simp: percent_alphabet_def)

text \<open>Base64url decoding undoes encoding for every sequence of bytes; the encoded text has
  \<open>\<lceil>4 n / 3\<rceil>\<close> characters, all of the URL-safe alphabet, and no padding.\<close>

theorem base64url_roundtrip:
  "base64url_decode (base64url_encode ds) = ds \<and> set (base64url_encode ds) \<subseteq> set base64url_table \<and>
   length (base64url_encode ds) = (4 * length ds + 2) div 3 \<and> CHR ''='' \<notin> set (base64url_encode ds)"
proof -
  have "CHR ''='' \<notin> base64url_alphabet" by (simp add: base64url_alphabet_def base64url_table_def)
  then show ?thesis
    using base64url.decode_encode [of ds] base64url.encode_alphabet [of ds] base64url.encode_free_of length_base64url
    by (auto simp: base64url_alphabet_def)
qed

end
