(* ===== verification/Pkce.thy ===== *)
theory Pkce
  imports Codecs
begin

text \<open>
  \<^verbatim>\<open>utils/pkce.hpp\<close>: the PKCE verifier and its challenge. OpenSSL is the environment: \<open>rand_bytes k n\<close> is
  the outcome of the \<open>k\<close>-th call of \<open>RAND_bytes\<close> for \<open>n\<close> bytes, \<open>None\<close> for its failure, which the code
  turns into an exception; \<open>sha256\<close> is \<open>EVP_Digest\<close> with \<open>EVP_sha256\<close>, \<open>None\<close> for its failure. The
  rejection sampling may draw for ever, so the loop takes fuel, one unit for each call of \<open>RAND_bytes\<close>.
\<close>

datatype pkce_error = RandFailed | DigestFailed | OutOfFuel

definition int_max :: nat where "int_max = 2147483647"

definition random_bytes :: "(nat \<Rightarrow> nat \<Rightarrow> u8 list option) \<Rightarrow> nat \<Rightarrow> nat \<Rightarrow> pkce_error + u8 list" where
  "random_bytes rand_bytes k n =
     (if n > int_max then Inl RandFailed
      else case rand_bytes k n of None \<Rightarrow> Inl RandFailed | Some ds \<Rightarrow> Inr ds)"

definition pkce_allowed :: string where
  "pkce_allowed = ''ABCDEFGHIJKLMNOPQRSTUVWXYZabcdefghijklmnopqrstuvwxyz0123456789-_.~''"

definition allowed_count :: nat where "allowed_count = length pkce_allowed"
definition accepted_limit :: nat where "accepted_limit = 256 - 256 mod allowed_count"

definition clamp_length :: "nat \<Rightarrow> nat" where
  "clamp_length n = (let n1 = (if n < 43 then 43 else n) in if n1 > 128 then 128 else n1)"

fun take_accepted :: "nat \<Rightarrow> u8 list \<Rightarrow> string \<Rightarrow> string" where
  "take_accepted n [] verifier = verifier"
| "take_accepted n (d # ds) verifier =
     (if length verifier < n
      then (if unat d \<ge> accepted_limit then take_accepted n ds verifier
            else take_accepted n ds (verifier @ [pkce_allowed ! (unat d mod allowed_count)]))
      else verifier)"

fun verifier_loop ::
    "(nat \<Rightarrow> nat \<Rightarrow> u8 list option) \<Rightarrow> nat \<Rightarrow> nat \<Rightarrow> nat \<Rightarrow> string \<Rightarrow> pkce_error + string" where
  "verifier_loop rand_bytes n k 0 verifier = (if length verifier < n then Inl OutOfFuel else Inr verifier)"
| "verifier_loop rand_bytes n k (Suc fuel) verifier =
     (if length verifier < n
      then (case random_bytes rand_bytes k (n - length verifier) of
              Inl e \<Rightarrow> Inl e
            | Inr ds \<Rightarrow> verifier_loop rand_bytes n (k + 1) fuel (take_accepted n ds verifier))
      else Inr verifier)"

definition generate_code_verifier ::
    "(nat \<Rightarrow> nat \<Rightarrow> u8 list option) \<Rightarrow> nat \<Rightarrow> nat \<Rightarrow> pkce_error + string" where
  "generate_code_verifier rand_bytes fuel n = verifier_loop rand_bytes (clamp_length n) 0 fuel []"

definition make_s256_code_challenge :: "(u8 list \<Rightarrow> u8 list option) \<Rightarrow> string \<Rightarrow> pkce_error + string" where
  "make_s256_code_challenge sha256 verifier =
     (case sha256 (bytes_of_string verifier) of
        None \<Rightarrow> Inl DigestFailed
      | Some digest \<Rightarrow> Inr (base64url_encode digest))"

record PkcePair =
  code_verifier :: string
  code_challenge :: string
  code_challenge_method :: string

definition make_pkce_pair ::
    "(nat \<Rightarrow> nat \<Rightarrow> u8 list option) \<Rightarrow> (u8 list \<Rightarrow> u8 list option) \<Rightarrow> nat \<Rightarrow> pkce_error + PkcePair" where
  "make_pkce_pair rand_bytes sha256 fuel =
     (case generate_code_verifier rand_bytes fuel 64 of
        Inl e \<Rightarrow> Inl e
      | Inr v \<Rightarrow>
          (case make_s256_code_challenge sha256 v of
             Inl e \<Rightarrow> Inl e
           | Inr c \<Rightarrow> Inr \<lparr>code_verifier = v, code_challenge = c, code_challenge_method = ''S256''\<rparr>))"

section \<open>Lemmas\<close>

lemma allowed_count [simp]: "allowed_count = 66" "accepted_limit = 198" "length pkce_allowed = 66"
  by (simp_all add: allowed_count_def accepted_limit_def pkce_allowed_def)

lemma clamp_length_bounds: "43 \<le> clamp_length n" "clamp_length n \<le> 128" "43 \<le> n \<Longrightarrow> n \<le> 128 \<Longrightarrow> clamp_length n = n"
  by (auto simp: clamp_length_def Let_def)

lemma allowed_unreserved: "c \<in> set pkce_allowed \<Longrightarrow> is_unreserved c"
proof -
  have "list_all is_unreserved pkce_allowed" by code_simp
  then show "c \<in> set pkce_allowed \<Longrightarrow> is_unreserved c" by (simp add: list_all_iff)
qed

lemma take_accepted_ok:
  assumes "length v \<le> n" "set v \<subseteq> set pkce_allowed"
  shows "length (take_accepted n ds v) \<le> n \<and> set (take_accepted n ds v) \<subseteq> set pkce_allowed \<and>
    length v \<le> length (take_accepted n ds v)"
  using assms
proof (induction ds arbitrary: v)
  case (Cons d ds)
  have "pkce_allowed ! (unat d mod 66) \<in> set pkce_allowed" by (rule nth_mem) simp
  with Cons.prems Cons.IH [of v] Cons.IH [of "v @ [pkce_allowed ! (unat d mod 66)]"] show ?case by auto
qed simp

lemma take_accepted_progress:
  assumes "length v < n" "d \<in> set ds" "unat d < 198" "set v \<subseteq> set pkce_allowed"
  shows "length v < length (take_accepted n ds v)"
  using assms
proof (induction ds arbitrary: v)
  case (Cons x ds)
  have m: "pkce_allowed ! (unat x mod 66) \<in> set pkce_allowed" by (rule nth_mem) simp
  show ?case
  proof (cases "unat x < 198")
    case True
    with Cons.prems m take_accepted_ok [of "v @ [pkce_allowed ! (unat x mod 66)]" n ds] show ?thesis by auto
  next
    case False
    with Cons.prems have "d \<in> set ds" by auto
    with Cons False show ?thesis by auto
  qed
qed simp

lemma verifier_loop_ok:
  "length v \<le> n \<Longrightarrow> set v \<subseteq> set pkce_allowed \<Longrightarrow> verifier_loop r n k fuel v = Inr w \<Longrightarrow>
   length w = n \<and> set w \<subseteq> set pkce_allowed"
proof (induction fuel arbitrary: k v)
  case (Suc fuel)
  show ?case
  proof (cases "length v < n")
    case True
    with Suc.prems(3) obtain ds where "random_bytes r k (n - length v) = Inr ds"
      "verifier_loop r n (k + 1) fuel (take_accepted n ds v) = Inr w" by (auto split: sum.splits)
    with Suc.IH [of "take_accepted n ds v" "k + 1"] take_accepted_ok [OF Suc.prems(1,2), of ds] show ?thesis by auto
  qed (use Suc.prems in auto)
qed (auto split: if_splits)

lemma verifier_loop_returns:
  assumes "\<And>k m. 0 < m \<Longrightarrow> m \<le> 128 \<Longrightarrow> \<exists>ds. r k m = Some ds \<and> (\<exists>d \<in> set ds. unat d < 198)"
  shows "length v \<le> n \<Longrightarrow> n \<le> 128 \<Longrightarrow> set v \<subseteq> set pkce_allowed \<Longrightarrow> n - length v \<le> fuel \<Longrightarrow>
    \<exists>w. verifier_loop r n k fuel v = Inr w"
proof (induction fuel arbitrary: k v)
  case (Suc fuel)
  show ?case
  proof (cases "length v < n")
    case True
    then have "0 < n - length v" "n - length v \<le> 128" using Suc.prems(2) by simp_all
    from assms [OF this] obtain ds d where
      d: "r k (n - length v) = Some ds" "d \<in> set ds" "unat d < 198" by blast
    then have e: "random_bytes r k (n - length v) = Inr ds" using Suc.prems(2) by (simp add: random_bytes_def int_max_def)
    let ?v = "take_accepted n ds v"
    have "length v < length ?v" by (rule take_accepted_progress [OF True d(2,3) Suc.prems(3)])
    with Suc.IH [of ?v "k + 1"] take_accepted_ok [OF Suc.prems(1,3), of ds] Suc.prems True e show ?thesis by auto
  qed simp
qed simp

text \<open>Of the accepted byte values each allowed character comes from exactly three.\<close>

lemma accepted_uniform:
  assumes "i < 66"
  shows "{x :: nat. x < 198 \<and> x mod 66 = i} = {i, i + 66, i + 132}"
proof (intro equalityI subsetI)
  fix x :: nat
  assume x: "x \<in> {x. x < 198 \<and> x mod 66 = i}"
  then have "x div 66 < 3" by (intro less_mult_imp_div_less) simp
  then have "x div 66 \<in> {0, 1, 2}" by auto
  with x div_mult_mod_eq [of x 66] show "x \<in> {i, i + 66, i + 132}" by auto
qed (use assms mod_mult_self1 [of i 2 66] in auto)

text \<open>If every call of the random generator succeeds and gives at least one acceptable byte, then as
  many calls as the verifier has characters are enough to generate it. The verifier has the length
  asked for, clamped to 43 to 128 as RFC 7636 demands, and only unreserved characters; and each of the
  66 characters comes from exactly three of the accepted byte values, so that uniform bytes give
  uniform characters.\<close>

theorem code_verifier_generated:
  assumes "\<And>k m. 0 < m \<Longrightarrow> m \<le> 128 \<Longrightarrow> \<exists>ds. rand_bytes k m = Some ds \<and> (\<exists>d \<in> set ds. unat d < accepted_limit)"
    and "128 \<le> fuel"
  shows "(\<exists>v. generate_code_verifier rand_bytes fuel n = Inr v \<and> length v = clamp_length n \<and>
      43 \<le> length v \<and> length v \<le> 128 \<and> (\<forall>c \<in> set v. is_unreserved c)) \<and>
    (\<forall>i < allowed_count. card {x. x < accepted_limit \<and> x mod allowed_count = i} = 3)"
proof
  have "\<exists>v. generate_code_verifier rand_bytes fuel n = Inr v"
    unfolding generate_code_verifier_def
    by (rule verifier_loop_returns) (use assms clamp_length_bounds(2) [of n] in \<open>auto simp: le_trans\<close>)
  then obtain v where v: "generate_code_verifier rand_bytes fuel n = Inr v" by blast
  then have "length v = clamp_length n \<and> set v \<subseteq> set pkce_allowed"
    unfolding generate_code_verifier_def by (intro verifier_loop_ok) simp_all
  with v clamp_length_bounds(1,2) [of n] allowed_unreserved show
    "\<exists>v. generate_code_verifier rand_bytes fuel n = Inr v \<and> length v = clamp_length n \<and>
      43 \<le> length v \<and> length v \<le> 128 \<and> (\<forall>c \<in> set v. is_unreserved c)" by auto
  show "\<forall>i < allowed_count. card {x. x < accepted_limit \<and> x mod allowed_count = i} = 3"
    by (simp add: accepted_uniform)
qed

theorem code_verifier_generated_witness:
  "\<exists>v. generate_code_verifier (\<lambda>k m. Some (replicate m 5)) 128 64 = Inr v \<and> length v = 64"
  using code_verifier_generated [of "\<lambda>k m. Some (replicate m 5)" 128 64] clamp_length_bounds(3) [of 64] by auto

end
