(* ===== verification/Http_Auth.thy ===== *)
theory Http_Auth
  imports Http_Functions Pkce
begin

text \<open>
  \<^verbatim>\<open>http/auth/\<close>: the authentication providers a client can have, the data of OAuth 2, and the client of
  the authorization code flow with PKCE.

  nlohmann::json is the argument \<open>json_lib\<close>: the calls the code makes, \<open>Inl\<close> with the text of the
  exception where a call throws. A build without it uses the token parser of the user. Signed
  64-bit arithmetic is written with \<open>s64\<close>, the two's complement result; where it overflows the
  behaviour of C++ is undefined.

  \<open>exchange_code\<close> and \<open>refresh_access_token\<close> take a string by reference, and clear the result
  before they read it. A \<open>string_arg\<close> is therefore either a string of its own or a part of that result.
  They block in \<open>future::get\<close>; \<open>await\<close> is what the other threads do with the manager until the future is
  settled, with its outcome: an exception with its text, or the response pointer.
\<close>

declare map_of_eq_Some_iff [simp del] Some_eq_map_of_iff [simp del]

section \<open>Providers\<close>

record BearerTokenAuthProvider =
  m_token :: string

definition BearerTokenAuthProvider_new :: "string \<Rightarrow> BearerTokenAuthProvider" where
  "BearerTokenAuthProvider_new token = \<lparr>m_token = token\<rparr>"

definition set_token :: "string \<Rightarrow> BearerTokenAuthProvider \<Rightarrow> BearerTokenAuthProvider" where
  "set_token token p = p\<lparr>m_token := token\<rparr>"

definition bearer_authorize_request :: "BearerTokenAuthProvider \<Rightarrow> HttpRequest \<Rightarrow> HttpRequest \<times> bool" where
  "bearer_authorize_request p r =
     (if m_token p = [] then (r, False)
      else (r\<lparr>rq_headers := multimap_emplace ''Authorization'' (''Bearer '' @ m_token p)
                              (multimap_erase ''Authorization'' (rq_headers r))\<rparr>, True))"

definition bearer_authorize_headers :: "BearerTokenAuthProvider \<Rightarrow> Headers \<Rightarrow> Headers \<times> bool" where
  "bearer_authorize_headers p hs =
     (if m_token p = [] then (hs, False)
      else (multimap_emplace ''Authorization'' (''Bearer '' @ m_token p) (multimap_erase ''Authorization'' hs), True))"

datatype ApiKeyPlacement = KEY_HEADER | KEY_QUERY

record ApiKeyAuthProvider =
  m_key_name :: string
  m_key_value :: string
  m_placement :: ApiKeyPlacement

definition ApiKeyAuthProvider_new :: "string \<Rightarrow> string \<Rightarrow> ApiKeyPlacement \<Rightarrow> ApiKeyAuthProvider" where
  "ApiKeyAuthProvider_new name v placement = \<lparr>m_key_name = name, m_key_value = v, m_placement = placement\<rparr>"

definition set_key_value :: "string \<Rightarrow> ApiKeyAuthProvider \<Rightarrow> ApiKeyAuthProvider" where
  "set_key_value v p = p\<lparr>m_key_value := v\<rparr>"

definition api_key_param :: "ApiKeyAuthProvider \<Rightarrow> string" where
  "api_key_param p = percent_encode (m_key_name p) @ ''='' @ percent_encode (m_key_value p)"

definition api_key_authorize_request :: "ApiKeyAuthProvider \<Rightarrow> HttpRequest \<Rightarrow> HttpRequest \<times> bool" where
  "api_key_authorize_request p r =
     (if m_key_name p = [] \<or> m_key_value p = [] then (r, False)
      else if m_placement p = KEY_HEADER
      then (r\<lparr>rq_headers := multimap_emplace (m_key_name p) (m_key_value p)
                              (multimap_erase (m_key_name p) (rq_headers r))\<rparr>, True)
      else
        (case find_char (rq_url r) CHR ''?'' 0 of
           None \<Rightarrow> (r\<lparr>rq_url := rq_url r @ ''?'' @ api_key_param p\<rparr>, True)
         | Some _ \<Rightarrow> (r\<lparr>rq_url := rq_url r @ ''&'' @ api_key_param p\<rparr>, True)))"

definition api_key_authorize_headers :: "ApiKeyAuthProvider \<Rightarrow> Headers \<Rightarrow> Headers \<times> bool" where
  "api_key_authorize_headers p hs =
     (if m_key_name p = [] \<or> m_key_value p = [] then (hs, False)
      else if m_placement p \<noteq> KEY_HEADER then (hs, False)
      else (multimap_emplace (m_key_name p) (m_key_value p) (multimap_erase (m_key_name p) hs), True))"

section \<open>OAuth data\<close>

record OAuthConfig =
  client_id :: string
  client_secret :: string
  authorization_endpoint :: string
  token_endpoint :: string
  redirect_uri :: string
  oc_scope :: string
  use_pkce :: bool
  audience :: string
  prompt :: string
  access_type :: string

definition OAuthConfig_default :: OAuthConfig where
  "OAuthConfig_default =
     \<lparr>client_id = [], client_secret = [], authorization_endpoint = [], token_endpoint = [], redirect_uri = [],
      oc_scope = [], use_pkce = True, audience = [], prompt = [], access_type = []\<rparr>"

record OAuthToken =
  access_token :: string
  refresh_token :: string
  token_type :: string
  tk_scope :: string
  expires_at_ms :: int
  tk_raw_response :: string

definition OAuthToken_default :: OAuthToken where
  "OAuthToken_default =
     \<lparr>access_token = [], refresh_token = [], token_type = [], tk_scope = [], expires_at_ms = 0, tk_raw_response = []\<rparr>"

definition s64 :: "int \<Rightarrow> int" where "s64 i = signed_take_bit 63 i"

definition is_expired :: "int \<Rightarrow> int \<Rightarrow> OAuthToken \<Rightarrow> bool" where
  "is_expired skew_ms now_ms token =
     (if expires_at_ms token \<le> 0 then False else s64 (now_ms + skew_ms) \<ge> expires_at_ms token)"

datatype AuthError =
    AuthNone | InvalidConfig | HttpError | InvalidResponse | TokenExpired | UnsupportedFlow | StateMismatch

record AuthResult =
  auth_success :: bool
  auth_error :: AuthError
  auth_error_message :: string
  auth_token :: OAuthToken
  auth_raw_response :: string

definition AuthResult_default :: AuthResult where
  "AuthResult_default =
     \<lparr>auth_success = False, auth_error = AuthNone, auth_error_message = [], auth_token = OAuthToken_default,
      auth_raw_response = []\<rparr>"

section \<open>The OAuth client\<close>

type_synonym token_parser = "string \<Rightarrow> OAuthToken \<Rightarrow> string \<Rightarrow> bool \<times> OAuthToken \<times> string"

record OAuthPkceClient =
  m_config :: OAuthConfig
  m_code_verifier :: string
  m_code_challenge :: string
  m_state :: string
  m_token_parser :: "token_parser option"

definition OAuthPkceClient_new :: "OAuthConfig \<Rightarrow> OAuthPkceClient" where
  "OAuthPkceClient_new config =
     \<lparr>m_config = config, m_code_verifier = [], m_code_challenge = [], m_state = [], m_token_parser = None\<rparr>"

definition set_token_parser :: "token_parser option \<Rightarrow> OAuthPkceClient \<Rightarrow> OAuthPkceClient" where
  "set_token_parser parser c = c\<lparr>m_token_parser := parser\<rparr>"

definition emplace_if :: "bool \<Rightarrow> string \<Rightarrow> string \<Rightarrow> QueryParams \<Rightarrow> QueryParams" where
  "emplace_if b k v params = (if b then multimap_emplace k v params else params)"

definition authorization_params :: "OAuthConfig \<Rightarrow> string \<Rightarrow> PkcePair option \<Rightarrow> QueryParams" where
  "authorization_params cfg state pair =
     (let params = multimap_emplace ''response_type'' ''code'' [];
          params = multimap_emplace ''client_id'' (client_id cfg) params;
          params = multimap_emplace ''redirect_uri'' (redirect_uri cfg) params;
          params = emplace_if (oc_scope cfg \<noteq> []) ''scope'' (oc_scope cfg) params;
          params = multimap_emplace ''state'' state params;
          params = (case pair of
              None \<Rightarrow> params
            | Some p \<Rightarrow> multimap_emplace ''code_challenge_method'' (code_challenge_method p)
                         (multimap_emplace ''code_challenge'' (code_challenge p) params));
          params = emplace_if (audience cfg \<noteq> []) ''audience'' (audience cfg) params;
          params = emplace_if (prompt cfg \<noteq> []) ''prompt'' (prompt cfg) params
      in emplace_if (access_type cfg \<noteq> []) ''access_type'' (access_type cfg) params)"

text \<open>The two calls of the random generator draw from \<open>rand1\<close> and \<open>rand2\<close>. An exception leaves the members
  as they are at that point.\<close>

definition build_authorization_url ::
    "(QueryParams \<Rightarrow> string \<Rightarrow> string) \<Rightarrow> (nat \<Rightarrow> nat \<Rightarrow> u8 list option) \<Rightarrow> (nat \<Rightarrow> nat \<Rightarrow> u8 list option) \<Rightarrow>
     (u8 list \<Rightarrow> u8 list option) \<Rightarrow> nat \<Rightarrow> OAuthPkceClient \<Rightarrow> OAuthPkceClient \<times> (pkce_error + string)" where
  "build_authorization_url query_string rand1 rand2 sha256 fuel c =
     (let cfg = m_config c
      in if authorization_endpoint cfg = [] \<or> client_id cfg = [] \<or> redirect_uri cfg = [] then (c, Inr [])
         else
           case generate_code_verifier rand1 fuel 64 of
             Inl e \<Rightarrow> (c, Inl e)
           | Inr st \<Rightarrow>
               let c1 = c\<lparr>m_state := st\<rparr>
               in if use_pkce cfg
                  then
                    (case make_pkce_pair rand2 sha256 fuel of
                       Inl e \<Rightarrow> (c1, Inl e)
                     | Inr pair \<Rightarrow>
                         (c1\<lparr>m_code_verifier := code_verifier pair, m_code_challenge := code_challenge pair\<rparr>,
                          Inr (authorization_endpoint cfg @
                               query_string (authorization_params cfg st (Some pair)) ''?'')))
                  else (c1, Inr (authorization_endpoint cfg @
                                 query_string (authorization_params cfg st None) ''?'')))"

definition validate_state :: "string \<Rightarrow> OAuthPkceClient \<Rightarrow> bool" where
  "validate_state returned_state c = (m_state c \<noteq> [] \<and> m_state c = returned_state)"

definition get_code_verifier :: "OAuthPkceClient \<Rightarrow> string" where
  "get_code_verifier c = m_code_verifier c"

definition get_state :: "OAuthPkceClient \<Rightarrow> string" where
  "get_state c = m_state c"

subsection \<open>Token responses\<close>

record 'j json_lib =
  json_parse :: "string \<Rightarrow> string + 'j"
  json_contains :: "'j \<Rightarrow> string \<Rightarrow> bool"
  json_get_string :: "'j \<Rightarrow> string \<Rightarrow> string + string"
  json_get_int64 :: "'j \<Rightarrow> string \<Rightarrow> string + int"
  json_value :: "'j \<Rightarrow> string \<Rightarrow> string \<Rightarrow> string + string"

datatype 'j token_format = JsonSupport "'j json_lib" | NoJsonSupport

fun or_throw :: "'e + 'a \<Rightarrow> ('a \<Rightarrow> 'e + 'b) \<Rightarrow> 'e + 'b" where
  "or_throw (Inl e) f = Inl e"
| "or_throw (Inr x) f = f x"

definition json_string_or :: "'j json_lib \<Rightarrow> 'j \<Rightarrow> string \<Rightarrow> string \<Rightarrow> string + string" where
  "json_string_or lib j key v = (if json_contains lib j key then json_get_string lib j key else Inr v)"

definition json_expiry :: "'j json_lib \<Rightarrow> int \<Rightarrow> 'j \<Rightarrow> string + int" where
  "json_expiry lib now_ms j =
     (if json_contains lib j ''expires_in''
      then or_throw (json_get_int64 lib j ''expires_in'') (\<lambda>expires_in. Inr (s64 (now_ms + s64 (expires_in * 1000))))
      else Inr 0)"

definition json_token :: "'j json_lib \<Rightarrow> int \<Rightarrow> string \<Rightarrow> 'j \<Rightarrow> string + OAuthToken" where
  "json_token lib now_ms raw j =
     or_throw (json_string_or lib j ''access_token'' []) (\<lambda>acc.
     or_throw (json_string_or lib j ''refresh_token'' []) (\<lambda>rt.
     or_throw (json_string_or lib j ''token_type'' []) (\<lambda>tt.
     or_throw (json_string_or lib j ''scope'' []) (\<lambda>sc.
     or_throw (json_expiry lib now_ms j) (\<lambda>ex.
       Inr \<lparr>access_token = acc, refresh_token = rt, token_type = tt, tk_scope = sc, expires_at_ms = ex,
            tk_raw_response = raw\<rparr>)))))"

definition fail_with :: "AuthError \<Rightarrow> string \<Rightarrow> AuthResult \<Rightarrow> bool \<times> AuthResult" where
  "fail_with e msg r = (False, r\<lparr>auth_error := e, auth_error_message := msg\<rparr>)"

definition parse_json_response :: "'j json_lib \<Rightarrow> int \<Rightarrow> string \<Rightarrow> AuthResult \<Rightarrow> string + bool \<times> AuthResult" where
  "parse_json_response lib now_ms raw r =
     or_throw (json_parse lib raw) (\<lambda>j.
       if json_contains lib j ''error''
       then or_throw (json_value lib j ''error'' ''unknown error'') (\<lambda>dflt.
            or_throw (json_value lib j ''error_description'' dflt) (\<lambda>msg.
              Inr (fail_with InvalidResponse msg r)))
       else or_throw (json_token lib now_ms raw j) (\<lambda>token.
              Inr (if access_token token = [] then fail_with InvalidResponse ''access_token is missing in response'' r
                   else (True, r\<lparr>auth_token := token, auth_success := True\<rparr>))))"

definition parse_token_response ::
    "'j token_format \<Rightarrow> int \<Rightarrow> string \<Rightarrow> OAuthPkceClient \<Rightarrow> AuthResult \<Rightarrow> bool \<times> AuthResult" where
  "parse_token_response fmt now_ms raw c r =
     (case fmt of
        JsonSupport lib \<Rightarrow>
          (case parse_json_response lib now_ms raw r of
             Inl what \<Rightarrow> fail_with InvalidResponse (''JSON parse error: '' @ what) r
           | Inr x \<Rightarrow> x)
      | NoJsonSupport \<Rightarrow>
          (case m_token_parser c of
             Some parser \<Rightarrow>
               let (ok, token, error_msg) = parser raw (auth_token r) [];
                   r1 = r\<lparr>auth_token := token\<rparr>
               in if \<not> ok
                  then fail_with InvalidResponse (if error_msg = [] then ''custom token parser failed'' else error_msg) r1
                  else (True, r1\<lparr>auth_success := True\<rparr>)
           | None \<Rightarrow> fail_with UnsupportedFlow ''JSON support disabled and no custom token parser set'' r))"

subsection \<open>Token requests\<close>

datatype string_arg = OwnString string | OfResult "AuthResult \<Rightarrow> string"

fun read_arg :: "string_arg \<Rightarrow> AuthResult \<Rightarrow> string" where
  "read_arg (OwnString s) r = s"
| "read_arg (OfResult f) r = f r"

type_synonym future_await = "promise_state \<Rightarrow> HttpRequestManager \<Rightarrow> HttpRequestManager \<times> (string + HttpResponse option)"

definition code_params :: "OAuthPkceClient \<Rightarrow> string \<Rightarrow> QueryParams" where
  "code_params c code =
     (let cfg = m_config c;
          params = multimap_emplace ''grant_type'' ''authorization_code'' [];
          params = multimap_emplace ''code'' code params;
          params = multimap_emplace ''redirect_uri'' (redirect_uri cfg) params;
          params = multimap_emplace ''client_id'' (client_id cfg) params;
          params = emplace_if (client_secret cfg \<noteq> []) ''client_secret'' (client_secret cfg) params
      in emplace_if (use_pkce cfg \<and> m_code_verifier c \<noteq> []) ''code_verifier'' (m_code_verifier c) params)"

definition refresh_params :: "OAuthPkceClient \<Rightarrow> string \<Rightarrow> QueryParams" where
  "refresh_params c token =
     (let cfg = m_config c;
          params = multimap_emplace ''grant_type'' ''refresh_token'' [];
          params = multimap_emplace ''refresh_token'' token params;
          params = multimap_emplace ''client_id'' (client_id cfg) params
      in emplace_if (client_secret cfg \<noteq> []) ''client_secret'' (client_secret cfg) params)"

text \<open>The common end of the two operations, once the future is settled.\<close>

definition token_outcome ::
    "'j token_format \<Rightarrow> int \<Rightarrow> OAuthPkceClient \<Rightarrow> AuthResult \<Rightarrow> string + HttpResponse option \<Rightarrow> bool \<times> AuthResult" where
  "token_outcome fmt now_ms c r outcome =
     (case outcome of
        Inl what \<Rightarrow> fail_with HttpError (''HTTP request failed: '' @ what) r
      | Inr None \<Rightarrow> fail_with HttpError ''HTTP request returned null response'' r
      | Inr (Some response) \<Rightarrow>
          let r1 = r\<lparr>auth_raw_response := rs_content response\<rparr>
          in if status_code response < 200 \<or> status_code response \<ge> 300
             then fail_with HttpError (''Token endpoint returned HTTP '' @ to_string (status_code response)) r1
             else parse_token_response fmt now_ms (rs_content response) c r1)"

text \<open>The result is \<open>None\<close> where the submission throws and the exception leaves the operation.\<close>

definition token_request ::
    "(QueryParams \<Rightarrow> string \<Rightarrow> string) \<Rightarrow> bool \<Rightarrow> cb \<Rightarrow> future_await \<Rightarrow> 'j token_format \<Rightarrow> int \<Rightarrow> QueryParams \<Rightarrow>
     OAuthPkceClient \<Rightarrow> AuthResult \<Rightarrow> HttpRequestManager \<Rightarrow> HttpRequestManager \<times> (bool \<times> AuthResult) option \<times> bool" where
  "token_request query_string push_ok promise await fmt now_ms body_params c r m =
     (let body = query_string body_params [];
          headers = multimap_emplace ''Content-Type'' ''application/x-www-form-urlencoded'' [];
          (m1, p, n) = http_post_future query_string push_ok promise (token_endpoint (m_config c)) [] headers body m
      in case p of
           None \<Rightarrow> (m1, None, n)
         | Some (_, st) \<Rightarrow>
             let (m2, outcome) = await st m1 in (m2, Some (token_outcome fmt now_ms c r outcome), n))"

definition exchange_code ::
    "(QueryParams \<Rightarrow> string \<Rightarrow> string) \<Rightarrow> bool \<Rightarrow> cb \<Rightarrow> future_await \<Rightarrow> 'j token_format \<Rightarrow> int \<Rightarrow> string_arg \<Rightarrow>
     OAuthPkceClient \<Rightarrow> HttpRequestManager \<Rightarrow> HttpRequestManager \<times> (bool \<times> AuthResult) option \<times> bool" where
  "exchange_code query_string push_ok promise await fmt now_ms code_arg c m =
     (let r = AuthResult_default; code = read_arg code_arg r
      in if code = [] then (m, Some (fail_with InvalidConfig ''authorization code is empty'' r), False)
         else if token_endpoint (m_config c) = []
         then (m, Some (fail_with InvalidConfig ''token_endpoint is not configured'' r), False)
         else token_request query_string push_ok promise await fmt now_ms (code_params c code) c r m)"

definition refresh_access_token ::
    "(QueryParams \<Rightarrow> string \<Rightarrow> string) \<Rightarrow> bool \<Rightarrow> cb \<Rightarrow> future_await \<Rightarrow> 'j token_format \<Rightarrow> int \<Rightarrow> string_arg \<Rightarrow>
     OAuthPkceClient \<Rightarrow> HttpRequestManager \<Rightarrow> HttpRequestManager \<times> (bool \<times> AuthResult) option \<times> bool" where
  "refresh_access_token query_string push_ok promise await fmt now_ms token_arg c m =
     (let r = AuthResult_default; token = read_arg token_arg r
      in if token = [] then (m, Some (fail_with InvalidConfig ''refresh_token is empty'' r), False)
         else if token_endpoint (m_config c) = []
         then (m, Some (fail_with InvalidConfig ''token_endpoint is not configured'' r), False)
         else token_request query_string push_ok promise await fmt now_ms (refresh_params c token) c r m)"

end
