(* ===== verification/Query_Strings.thy ===== *)
theory Query_Strings
  imports Codecs
begin

text \<open>
  What the receiver of a query string or of a form body reads. \<open>form_decode\<close> is the decoding of
  \<^verbatim>\<open>application/x-www-form-urlencoded\<close> data: fields separated by ampersands, each split at its first
  equals sign, both parts percent decoded, empty fields skipped; \<open>url_query\<close> is the part of a URL
  between the first question mark and the fragment, if any. Against this specification the two versions of
  \<open>to_query_string\<close> in \<^verbatim>\<open>utils/http_parser.hpp\<close> are proved correct.
\<close>

fun split_on :: "char \<Rightarrow> string \<Rightarrow> string list" where
  "split_on d [] = [[]]"
| "split_on d (c # s) =
     (if c = d then [] # split_on d s
      else case split_on d s of [] \<Rightarrow> [[c]] | f # fs \<Rightarrow> (c # f) # fs)"

definition form_field :: "string \<Rightarrow> string \<times> string" where
  "form_field s =
     (percent_decode (takeWhile (\<lambda>c. c \<noteq> CHR ''='') s), percent_decode (drop 1 (dropWhile (\<lambda>c. c \<noteq> CHR ''='') s)))"

definition form_decode :: "string \<Rightarrow> (string \<times> string) list" where
  "form_decode s = map form_field (filter (\<lambda>f. f \<noteq> []) (split_on CHR ''&'' s))"

definition url_query :: "string \<Rightarrow> string" where
  "url_query url = drop 1 (dropWhile (\<lambda>c. c \<noteq> CHR ''?'') (takeWhile (\<lambda>c. c \<noteq> CHR ''#'') url))"

section \<open>Lemmas\<close>

lemma split_on_nonempty [simp]: "split_on d s \<noteq> []"
  by (induction s) (auto split: list.split)

lemma split_on_append: "split_on d (s @ d # t) = split_on d s @ split_on d t"
  by (induction s) (auto split: list.split)

lemma split_on_free: "d \<notin> set s \<Longrightarrow> split_on d s = [s]"
  by (induction s) auto

lemma form_decode_Nil [simp]: "form_decode [] = []"
  by (simp add: form_decode_def)

lemma form_decode_append: "form_decode (s @ CHR ''&'' # t) = form_decode s @ form_decode t"
  by (simp add: form_decode_def split_on_append)

lemma takeWhile_free: "d \<notin> set s \<Longrightarrow> takeWhile (\<lambda>c. c \<noteq> d) s = s"
  by (induction s) auto

lemma dropWhile_free: "d \<notin> set s \<Longrightarrow> dropWhile (\<lambda>c. c \<noteq> d) (s @ d # t) = d # t"
  by (induction s) auto

lemma url_query_append:
  assumes "CHR ''?'' \<notin> set host" "CHR ''#'' \<notin> set host" "CHR ''#'' \<notin> set q"
  shows "url_query (host @ CHR ''?'' # q) = q"
  using assms by (simp add: url_query_def takeWhile_free dropWhile_free)

lemma percent_reserved_free [simp]:
  "CHR ''&'' \<notin> set (percent_encode s)" "CHR ''='' \<notin> set (percent_encode s)"
  "CHR ''#'' \<notin> set (percent_encode s)" "CHR ''?'' \<notin> set (percent_encode s)"
  by (rule percent.encode_free_of; simp add: percent_alphabet_def is_unreserved_def char_class_defs)+

lemma percent_encode_unreserved: "\<forall>c \<in> set s. is_unreserved c \<Longrightarrow> percent_encode s = s"
  by (induction s) (simp_all add: percent_encode_def percent_encode_char_def)

lemma form_field_pair:
  "form_field (percent_encode k @ CHR ''='' # percent_encode v) = (k, v)"
proof -
  have "takeWhile (\<lambda>c. c \<noteq> CHR ''='') (percent_encode k @ CHR ''='' # percent_encode v) = percent_encode k \<and>
        dropWhile (\<lambda>c. c \<noteq> CHR ''='') (percent_encode k @ CHR ''='' # percent_encode v) = CHR ''='' # percent_encode v"
    using percent_reserved_free(2) [of k] by (subst takeWhile_append2 dropWhile_append2; auto)+
  then show ?thesis by (simp add: form_field_def percent.decode_encode)
qed

lemma form_decode_pair: "form_decode (percent_encode k @ CHR ''='' # percent_encode v) = [(k, v)]"
  by (simp add: form_decode_def split_on_free form_field_pair)

text \<open>The string both versions produce, on parameters whose names need no encoding.\<close>

fun encoded_fields :: "QueryParams \<Rightarrow> string" where
  "encoded_fields [] = []"
| "encoded_fields [(k, v)] = percent_encode k @ CHR ''='' # percent_encode v"
| "encoded_fields ((k, v) # rest) = percent_encode k @ CHR ''='' # percent_encode v @ CHR ''&'' # encoded_fields rest"

lemma form_decode_encoded: "form_decode (encoded_fields ps) = ps"
proof (induction ps rule: encoded_fields.induct)
  case (3 k v p rest)
  then show ?case
    using form_decode_append [of "percent_encode k @ CHR ''='' # percent_encode v"] by (simp add: form_decode_pair)
qed (simp_all add: form_decode_pair)

lemma encoded_fields_free: "CHR ''#'' \<notin> set (encoded_fields ps)" "CHR ''?'' \<notin> set (encoded_fields ps)"
  by (induction ps rule: encoded_fields.induct) simp_all

lemma query_fields_curl_encoded:
  "query_fields_curl (Some \<circ> percent_encode) (i + length ps - 1) i ps = encoded_fields ps"
proof (induction ps arbitrary: i rule: encoded_fields.induct)
  case (3 k v p rest)
  from "3.IH" [of "Suc i"] show ?case by simp
qed simp_all

lemma query_fields_encoded:
  "\<forall>(k, _) \<in> set ps. \<forall>c \<in> set k. is_unreserved c \<Longrightarrow>
   query_fields first ps = (if first \<or> ps = [] then [] else ''&'') @ encoded_fields ps"
  by (induction ps arbitrary: first rule: encoded_fields.induct) (auto simp: percent_encode_unreserved)

lemma to_query_string_curl_encoded:
  "ps \<noteq> [] \<Longrightarrow> to_query_string_curl True (Some \<circ> percent_encode) ps prefix = prefix @ encoded_fields ps"
  using query_fields_curl_encoded [of 0 ps] by (simp add: to_query_string_curl_def)

lemma to_query_string_encoded:
  "\<forall>(k, _) \<in> set ps. \<forall>c \<in> set k. is_unreserved c \<Longrightarrow> to_query_string ps prefix = prefix @ encoded_fields ps"
  by (simp add: to_query_string_def query_fields_encoded)

text \<open>
  The locale of the callers: a function that writes the given parameters so that they can be read
  back. Both versions satisfy it, the second on names that need no encoding.
\<close>

locale query_writer =
  fixes query_string :: "QueryParams \<Rightarrow> string \<Rightarrow> string" and plain :: "string \<Rightarrow> bool"
  assumes plain_unreserved: "\<forall>c \<in> set k. is_unreserved c \<Longrightarrow> plain k"
    and writes: "ps \<noteq> [] \<Longrightarrow> \<forall>(k, _) \<in> set ps. plain k \<Longrightarrow> query_string ps prefix = prefix @ encoded_fields ps"
begin

lemma body_decoded: "ps \<noteq> [] \<Longrightarrow> \<forall>(k, _) \<in> set ps. plain k \<Longrightarrow> form_decode (query_string ps []) = ps"
  by (simp add: writes form_decode_encoded)

lemma url_decoded:
  "ps \<noteq> [] \<Longrightarrow> \<forall>(k, _) \<in> set ps. plain k \<Longrightarrow> CHR ''?'' \<notin> set host \<Longrightarrow> CHR ''#'' \<notin> set host \<Longrightarrow>
   form_decode (url_query (host @ query_string ps ''?'')) = ps"
  by (simp add: writes url_query_append encoded_fields_free form_decode_encoded)

end

interpretation curl_query: query_writer "to_query_string_curl True (Some \<circ> percent_encode)" "\<lambda>_. True"
  by unfold_locales (simp_all add: to_query_string_curl_encoded)

interpretation plain_query: query_writer to_query_string "\<lambda>k. \<forall>c \<in> set k. is_unreserved c"
  by unfold_locales (simp_all add: to_query_string_encoded)



end
