(* ===== verification/Http_Text_Props.thy ===== *)
theory Http_Text_Props
  imports Http_Text
begin

text \<open>
  Properties of the text utilities: header lines are read back as they are written, and the comparison
  and the hash of the case-insensitive multimaps fit together.
\<close>

lemma case_insensitive_equal_map: "case_insensitive_equal a b \<longleftrightarrow> map tolower a = map tolower b"
  by (auto simp: case_insensitive_equal_def list_all2_conv_all_nth list_eq_iff_nth_eq)

lemma hash_tolower: "CaseInsensitiveHash hash (map tolower s) = CaseInsensitiveHash hash s"
  by (simp add: CaseInsensitiveHash_def foldl_map tolower_idem)

lemma case_insensitive_hash: "case_insensitive_equal a b \<Longrightarrow> CaseInsensitiveHash hash a = CaseInsensitiveHash hash b"
  using hash_tolower by (metis case_insensitive_equal_map)

lemma multimap_find_emplace:
  "multimap_find (multimap_emplace k v m) key =
     (case multimap_find m key of
        Some x \<Rightarrow> Some x
      | None \<Rightarrow> if case_insensitive_equal k key then Some (k, v) else None)"
  by (induction m) (auto simp: multimap_find_def multimap_emplace_def)

text \<open>The comparison of header names is an equivalence relation that the hash respects, whatever
  \<open>std::hash\<close> is, as an unordered container needs; a header is found under every spelling of its name
  once it is inserted, and inserting one does not hide those found before.\<close>

theorem case_insensitive_container:
  assumes "case_insensitive_equal k key"
  shows "equivp case_insensitive_equal \<and> CaseInsensitiveHash hash k = CaseInsensitiveHash hash key \<and>
    (\<exists>x. multimap_find (multimap_emplace k v m) key = Some x \<and> case_insensitive_equal (fst x) key) \<and>
    (\<forall>key' y. multimap_find m key' = Some y \<longrightarrow> multimap_find (multimap_emplace k v m) key' = Some y)"
proof (intro conjI)
  show "equivp case_insensitive_equal"
    by (rule equivpI) (auto simp: reflp_def symp_def transp_def case_insensitive_equal_map)
  show "CaseInsensitiveHash hash k = CaseInsensitiveHash hash key" by (rule case_insensitive_hash [OF assms])
  have "multimap_find m key = Some x \<Longrightarrow> case_insensitive_equal (fst x) key" for x
    by (auto simp: multimap_find_def find_Some_iff)
  then show "\<exists>x. multimap_find (multimap_emplace k v m) key = Some x \<and> case_insensitive_equal (fst x) key"
    using assms by (cases "multimap_find m key") (auto simp: multimap_find_emplace)
  show "\<forall>key' y. multimap_find m key' = Some y \<longrightarrow> multimap_find (multimap_emplace k v m) key' = Some y"
    by (simp add: multimap_find_emplace)
qed

theorem case_insensitive_container_witness:
  "\<exists>x. multimap_find (multimap_emplace ''content-TYPE'' ''a'' []) ''Content-Type'' = Some x \<and>
     CaseInsensitiveHash of_nat ''content-TYPE'' = CaseInsensitiveHash of_nat ''Content-Type''"
proof -
  have "case_insensitive_equal ''content-TYPE'' ''Content-Type''" by code_simp
  from case_insensitive_container [OF this, where hash = of_nat and v = "''a''" and m = "[]"] show ?thesis by blast
qed

section \<open>Header lines\<close>

lemma pop_newlines_append: "c = CHR 0x0D \<or> c = CHR 0x0A \<Longrightarrow> pop_newlines (v @ [c]) = pop_newlines v"
  by (cases v) auto

lemma pop_newlines_id: "v = [] \<or> last v \<noteq> CHR 0x0D \<and> last v \<noteq> CHR 0x0A \<Longrightarrow> pop_newlines v = v"
  by (cases v) auto

lemma find_first_skip:
  "\<forall>x \<in> set s. \<not> P x \<Longrightarrow> P c \<Longrightarrow> find_first P (s @ c # t) 0 = Some (length s)"
  using find_index_hit [of s P c t] by (simp add: find_first_def)

text \<open>A header line written as name, colon, space, value and line end is parsed into exactly that name
  and value, for every non-empty name without a colon and every value that does not begin with a space
  or end with a line break; the value may itself contain colons. A line without a colon, or one that
  begins with it, leaves the output parameters unchanged.\<close>

theorem header_line_roundtrip:
  assumes "name \<noteq> []" "CHR '':'' \<notin> set name" "value = [] \<or> hd value \<noteq> CHR '' ''"
    and "value = [] \<or> last value \<noteq> CHR 0x0D \<and> last value \<noteq> CHR 0x0A"
  shows "parse_http_header_pair (name @ '': '' @ value @ [CHR 0x0D, CHR 0x0A]) kv = (name, value) \<and>
    (CHR '':'' \<notin> set line \<longrightarrow> parse_http_header_pair line kv = kv) \<and> parse_http_header_pair (CHR '':'' # line) kv = kv"
proof (intro conjI impI)
  let ?rest = "value @ [CHR 0x0D, CHR 0x0A]"
  let ?h = "name @ CHR '':'' # CHR '' '' # ?rest"
  have f: "find_first_of ?h '':'' 0 = Some (length name)"
    unfolding find_first_of_def by (rule find_first_skip) (use assms(2) in auto)
  have r: "?rest \<noteq> []" "hd ?rest \<noteq> CHR '' ''" using assms(3) by (cases "value"; simp)+
  then obtain c t where ct: "?rest = c # t" "c \<noteq> CHR '' ''" by (cases "?rest") auto
  have n: "find_first_not_of ?h '' '' (length name + 1) = Some (length name + 2)"
    unfolding find_first_not_of_def find_first_def ct(1) using ct(2) by simp
  have p: "pop_newlines ?rest = value"
    using pop_newlines_append [of "CHR 0x0A" "value @ [CHR 0x0D]"] pop_newlines_append [of "CHR 0x0D" "value"]
      pop_newlines_id [OF assms(4)] by simp
  show "parse_http_header_pair (name @ '': '' @ ?rest) kv = (name, value)"
    using assms(1) f n p by (simp add: parse_http_header_pair_def substr_def Let_def)
  show "parse_http_header_pair line kv = kv" if "CHR '':'' \<notin> set line"
  proof -
    have "find_first_of line '':'' 0 = None"
      using that by (auto simp: find_first_of_def find_first_None_iff in_set_conv_nth)
    then show ?thesis by (simp add: parse_http_header_pair_def)
  qed
  have "find_first_of (CHR '':'' # line) '':'' 0 = Some 0"
    using find_first_skip [of "[]" "\<lambda>x. x \<in> set '':''" "CHR '':''" line] by (simp add: find_first_of_def)
  then show "parse_http_header_pair (CHR '':'' # line) kv = kv" by (simp add: parse_http_header_pair_def)
qed

theorem header_line_roundtrip_witness:
  "parse_http_header_pair (''Location'' @ '': '' @ ''http://a'' @ [CHR 0x0D, CHR 0x0A]) ([], []) = (''Location'', ''http://a'')"
  using header_line_roundtrip [of "''Location''" "''http://a''" "([], [])" "[]"] by simp

end
