(* ===== verification/Http_Auth_Props.thy ===== *)
theory Http_Auth_Props
  imports Http_Auth Query_Strings Http_Text_Props Http_Client_Props
begin

text \<open>
  Properties of the authentication layer. The locale \<open>auth_provider\<close> is the interface
  \<^verbatim>\<open>IAuthProvider\<close>: what a client relies on when it lets a provider change its requests. Both providers
  of the library are interpretations.
\<close>

declare map_of_eq_Some_iff [simp del] Some_eq_map_of_iff [simp del]

section \<open>Providers\<close>

locale auth_provider =
  fixes authorize_request :: "HttpRequest \<Rightarrow> HttpRequest \<times> bool" and authorize_headers :: "Headers \<Rightarrow> Headers \<times> bool"
  assumes request_refused: "\<not> snd (authorize_request r) \<Longrightarrow> fst (authorize_request r) = r"
    and headers_refused: "\<not> snd (authorize_headers hs) \<Longrightarrow> fst (authorize_headers hs) = hs"
    and only_url_and_headers: "\<exists>hs url. fst (authorize_request r) = r\<lparr>rq_headers := hs, rq_url := url\<rparr>"
    and headers_agree: "snd (authorize_headers (rq_headers r)) \<Longrightarrow>
      fst (authorize_request r) = r\<lparr>rq_headers := fst (authorize_headers (rq_headers r))\<rparr>"
begin

text \<open>What a client submits with the provider and without it.\<close>

lemma make_request_authorized:
  "make_request qs method path query headers content (set_auth_provider (Some (fst \<circ> authorize_request)) c) m =
     (let (r, m1) = make_request qs method path query headers content (clear_auth_provider c) m
      in (fst (authorize_request r), m1))"
  by (simp add: make_request_def set_auth_provider_def clear_auth_provider_def Let_def split: prod.split)

lemma identity_kept:
  "request_id (fst (authorize_request r)) = request_id r \<and> group_id (fst (authorize_request r)) = group_id r \<and>
   general_rate_limit (fst (authorize_request r)) = general_rate_limit r \<and>
   specific_rate_limit (fst (authorize_request r)) = specific_rate_limit r \<and>
   rq_content (fst (authorize_request r)) = rq_content r \<and> rq_method (fst (authorize_request r)) = rq_method r"
proof -
  obtain hs url where "fst (authorize_request r) = r\<lparr>rq_headers := hs, rq_url := url\<rparr>" using only_url_and_headers by blast
  then show ?thesis by simp
qed

end

interpretation bearer: auth_provider "bearer_authorize_request p" "bearer_authorize_headers p"
proof
  show "\<exists>hs url. fst (bearer_authorize_request p r) = r\<lparr>rq_headers := hs, rq_url := url\<rparr>" for r
    by (rule exI [of _ "rq_headers (fst (bearer_authorize_request p r))"], rule exI [of _ "rq_url r"])
      (simp add: bearer_authorize_request_def)
qed (simp_all add: bearer_authorize_request_def bearer_authorize_headers_def split: if_splits)

interpretation api_key: auth_provider "api_key_authorize_request p" "api_key_authorize_headers p"
proof
  show "\<exists>hs url. fst (api_key_authorize_request p r) = r\<lparr>rq_headers := hs, rq_url := url\<rparr>" for r
    by (rule exI [of _ "rq_headers (fst (api_key_authorize_request p r))"],
        rule exI [of _ "rq_url (fst (api_key_authorize_request p r))"])
      (simp add: api_key_authorize_request_def split: option.split)
qed (auto simp: api_key_authorize_request_def api_key_authorize_headers_def split: if_splits option.splits)

lemma case_insensitive_equal_refl [simp]: "case_insensitive_equal a a"
  by (simp add: case_insensitive_equal_map)

text \<open>Replacing a header leaves exactly one of that name.\<close>

lemma replaced_header:
  "filter (\<lambda>(k, _). case_insensitive_equal k name) (multimap_emplace name v (multimap_erase name hs)) = [(name, v)]"
  "filter (\<lambda>(k, _). \<not> case_insensitive_equal k name) (multimap_emplace name v (multimap_erase name hs)) =
     filter (\<lambda>(k, _). \<not> case_insensitive_equal k name) hs"
  "multimap_emplace name v (multimap_erase name (multimap_emplace name v (multimap_erase name hs))) =
     multimap_emplace name v (multimap_erase name hs)"
proof -
  have "filter (\<lambda>(k, _). case_insensitive_equal k name) (filter (\<lambda>(k, _). \<not> case_insensitive_equal k name) hs) = []"
    by (auto simp: filter_empty_conv)
  then show "filter (\<lambda>(k, _). case_insensitive_equal k name) (multimap_emplace name v (multimap_erase name hs)) = [(name, v)]"
    by (simp add: multimap_emplace_def multimap_erase_def)
qed (simp_all add: multimap_emplace_def multimap_erase_def)

lemma find_char_None_iff: "find_char s c 0 = None \<longleftrightarrow> c \<notin> set s"
  by (auto simp: find_char_def find_first_None_iff)

lemma query_added:
  assumes "CHR ''#'' \<notin> set url"
  shows "form_decode (url_query (url @ (if CHR ''?'' \<in> set url then ''&'' else ''?'') @
           percent_encode k @ CHR ''='' # percent_encode v)) = form_decode (url_query url) @ [(k, v)]"
proof (cases "CHR ''?'' \<in> set url")
  case True
  then obtain host q where u: "url = host @ CHR ''?'' # q" "CHR ''?'' \<notin> set host" by (meson split_list_first)
  have "url_query (host @ CHR ''?'' # (q @ CHR ''&'' # percent_encode k @ CHR ''='' # percent_encode v)) =
      q @ CHR ''&'' # percent_encode k @ CHR ''='' # percent_encode v" "url_query url = q"
    using assms u by (auto simp: url_query_append)
  with u True show ?thesis by (simp add: form_decode_append form_decode_pair)
next
  case False
  then have d: "dropWhile (\<lambda>c. c \<noteq> CHR ''?'') url = []" by (auto simp: dropWhile_eq_Nil_conv)
  have "url_query url = []" unfolding url_query_def takeWhile_free [OF assms] d by simp
  with False assms show ?thesis by (simp add: url_query_append form_decode_pair)
qed

text \<open>
  C38: With a bearer token a client submits the request it would submit without, except that exactly one
  header named Authorization, whatever its case and wherever the other headers came from, carries the
  token; with an API key likewise for its header. With an API key in the query, a URL
  without fragment has the key, decoded, as one more parameter after all others. With an empty token,
  name or key the request is unchanged. The limits, the group and the manager are never touched.
\<close>

theorem auth_provider_contract:
  assumes "make_request qs method path query headers content (clear_auth_provider c) m = (r, m1)"
    and "make_request qs method path query headers content
      (set_auth_provider (Some (fst \<circ> bearer_authorize_request (BearerTokenAuthProvider_new token))) c) m = (rb, mb)"
    and "make_request qs method path query headers content
      (set_auth_provider (Some (fst \<circ> api_key_authorize_request (ApiKeyAuthProvider_new name v placement))) c) m = (rk, mk)"
  shows "mb = m1 \<and> mk = m1 \<and>
    (if token = [] then rb = r
     else rb = r\<lparr>rq_headers := rq_headers rb\<rparr> \<and>
       filter (\<lambda>(k, _). case_insensitive_equal k ''Authorization'') (rq_headers rb) = [(''Authorization'', ''Bearer '' @ token)] \<and>
       filter (\<lambda>(k, _). \<not> case_insensitive_equal k ''Authorization'') (rq_headers rb) =
         filter (\<lambda>(k, _). \<not> case_insensitive_equal k ''Authorization'') (rq_headers r)) \<and>
    (if name = [] \<or> v = [] then rk = r
     else if placement = KEY_HEADER
     then rk = r\<lparr>rq_headers := rq_headers rk\<rparr> \<and>
       filter (\<lambda>(k, _). case_insensitive_equal k name) (rq_headers rk) = [(name, v)] \<and>
       filter (\<lambda>(k, _). \<not> case_insensitive_equal k name) (rq_headers rk) =
         filter (\<lambda>(k, _). \<not> case_insensitive_equal k name) (rq_headers r)
     else rk = r\<lparr>rq_url := rq_url rk\<rparr> \<and>
       (CHR ''#'' \<notin> set (rq_url r) \<longrightarrow>
          form_decode (url_query (rq_url rk)) = form_decode (url_query (rq_url r)) @ [(name, v)]))"
proof -
  let ?b = "BearerTokenAuthProvider_new token" and ?k = "ApiKeyAuthProvider_new name v placement"
  have m: "mb = m1" "rb = fst (bearer_authorize_request ?b r)" "mk = m1" "rk = fst (api_key_authorize_request ?k r)"
    using assms by (simp_all add: bearer.make_request_authorized api_key.make_request_authorized)
  have q: "placement \<noteq> KEY_HEADER \<Longrightarrow> name \<noteq> [] \<Longrightarrow> v \<noteq> [] \<Longrightarrow>
      rq_url rk = rq_url r @ (if CHR ''?'' \<in> set (rq_url r) then ''&'' else ''?'') @
        percent_encode name @ CHR ''='' # percent_encode v"
    using find_char_None_iff [of "rq_url r" "CHR ''?''"]
    by (cases "find_char (rq_url r) CHR ''?'' 0")
      (auto simp: m(4) api_key_authorize_request_def ApiKeyAuthProvider_new_def api_key_param_def)
  have k: "if name = [] \<or> v = [] then rk = r
     else if placement = KEY_HEADER
     then rk = r\<lparr>rq_headers := multimap_emplace name v (multimap_erase name (rq_headers r))\<rparr>
     else rk = r\<lparr>rq_url := rq_url rk\<rparr>"
    by (auto simp: m(4) api_key_authorize_request_def ApiKeyAuthProvider_new_def split: option.split)
  have b: "if token = [] then rb = r
     else rb = r\<lparr>rq_headers := multimap_emplace ''Authorization'' (''Bearer '' @ token) (multimap_erase ''Authorization'' (rq_headers r))\<rparr>"
    by (simp add: m(2) bearer_authorize_request_def BearerTokenAuthProvider_new_def)
  show ?thesis
  proof (intro conjI m)
    show "if name = [] \<or> v = [] then rk = r
     else if placement = KEY_HEADER
     then rk = r\<lparr>rq_headers := rq_headers rk\<rparr> \<and>
       filter (\<lambda>(k, _). case_insensitive_equal k name) (rq_headers rk) = [(name, v)] \<and>
       filter (\<lambda>(k, _). \<not> case_insensitive_equal k name) (rq_headers rk) =
         filter (\<lambda>(k, _). \<not> case_insensitive_equal k name) (rq_headers r)
     else rk = r\<lparr>rq_url := rq_url rk\<rparr> \<and>
       (CHR ''#'' \<notin> set (rq_url r) \<longrightarrow>
          form_decode (url_query (rq_url rk)) = form_decode (url_query (rq_url r)) @ [(name, v)])"
      using k q query_added [of "rq_url r" name v] replaced_header [of name v "rq_headers r"] by (auto split: if_splits)
  qed (use b replaced_header [of "''Authorization''"] in \<open>auto split: if_splits\<close>)
qed

definition keyed_client :: HttpClient where
  "keyed_client = set_header ''authorization'' ''old'' (fst (HttpClient_new ''https://h'' HttpRequestManager_init))"

theorem auth_provider_contract_witness:
  "filter (\<lambda>(k, _). case_insensitive_equal k ''Authorization'')
     (rq_headers (fst (make_request to_query_string ''GET'' ''/x'' [] [(''AUTHORIZATION'', ''call'')] []
        (set_auth_provider (Some (fst \<circ> bearer_authorize_request (BearerTokenAuthProvider_new ''t''))) keyed_client)
        HttpRequestManager_init))) = [(''Authorization'', ''Bearer t'')]"
  using auth_provider_contract [of to_query_string "''GET''" "''/x''" "[]" "[(''AUTHORIZATION'', ''call'')]" "[]" keyed_client
      HttpRequestManager_init _ _ "''t''" _ _ "''k''" "''w''" KEY_QUERY,
      OF prod.collapse [symmetric] prod.collapse [symmetric] prod.collapse [symmetric]]
  by simp

text \<open>A key for the query goes to the end of the URL, behind a fragment if there is one, where it is not
  part of the query.\<close>

lemma api_key_behind_fragment:
  "form_decode (url_query (rq_url (fst (api_key_authorize_request (ApiKeyAuthProvider_new ''k'' ''v'' KEY_QUERY)
     (HttpRequest_default\<lparr>rq_url := ''https://h/x#top''\<rparr>))))) = []"
  by code_simp

section \<open>The authorization code flow\<close>

lemma emplace_if_append: "emplace_if b k v ps = ps @ (if b then [(k, v)] else [])"
  by (simp add: emplace_if_def multimap_emplace_def)

lemma authorization_params_eq:
  "authorization_params cfg st pair =
     [(''response_type'', ''code''), (''client_id'', client_id cfg), (''redirect_uri'', redirect_uri cfg)] @
     (if oc_scope cfg \<noteq> [] then [(''scope'', oc_scope cfg)] else []) @ [(''state'', st)] @
     (case pair of None \<Rightarrow> []
      | Some p \<Rightarrow> [(''code_challenge'', code_challenge p), (''code_challenge_method'', code_challenge_method p)]) @
     (if audience cfg \<noteq> [] then [(''audience'', audience cfg)] else []) @
     (if prompt cfg \<noteq> [] then [(''prompt'', prompt cfg)] else []) @
     (if access_type cfg \<noteq> [] then [(''access_type'', access_type cfg)] else [])"
  by (cases pair) (simp_all only: authorization_params_def Let_def emplace_if_append multimap_emplace_def
      append_assoc append.simps option.case)

lemma code_params_eq:
  "code_params c code =
     [(''grant_type'', ''authorization_code''), (''code'', code), (''redirect_uri'', redirect_uri (m_config c)),
      (''client_id'', client_id (m_config c))] @
     (if client_secret (m_config c) \<noteq> [] then [(''client_secret'', client_secret (m_config c))] else []) @
     (if use_pkce (m_config c) \<and> m_code_verifier c \<noteq> [] then [(''code_verifier'', m_code_verifier c)] else [])"
  by (simp only: code_params_def Let_def emplace_if_append multimap_emplace_def append_assoc append.simps)

definition oauth_names :: "string list" where
  "oauth_names = [''response_type'', ''client_id'', ''redirect_uri'', ''scope'', ''state'', ''code_challenge'',
    ''code_challenge_method'', ''audience'', ''prompt'', ''access_type'', ''grant_type'', ''code'', ''client_secret'',
    ''code_verifier'', ''refresh_token'']"

lemma oauth_names_unreserved:
  assumes "list_all (\<lambda>p. fst p \<in> set oauth_names) ps"
  shows "\<forall>(k, _) \<in> set ps. \<forall>c \<in> set k. is_unreserved c"
proof -
  have "list_all (list_all is_unreserved) oauth_names" by code_simp
  with assms show ?thesis by (fastforce simp: list_all_iff)
qed

lemma list_all_if: "list_all P (if b then [x] else []) \<longleftrightarrow> (b \<longrightarrow> P x)"
  by simp

lemma authorization_params_plain:
  "\<forall>(k, _) \<in> set (authorization_params cfg st pair). \<forall>c \<in> set k. is_unreserved c"
  by (rule oauth_names_unreserved)
    (simp add: authorization_params_eq oauth_names_def list_all_if split: option.split)

lemma code_params_plain: "\<forall>(k, _) \<in> set (code_params c code). \<forall>x \<in> set k. is_unreserved x"
  by (rule oauth_names_unreserved) (simp add: code_params_eq oauth_names_def list_all_if)

lemma verifier_length: "generate_code_verifier rand_bytes fuel 64 = Inr v \<Longrightarrow> length v = 64 \<and> (\<forall>c \<in> set v. is_unreserved c)"
  using verifier_loop_ok [of "[]" "clamp_length 64" rand_bytes 0 fuel v] clamp_length_bounds(3) [of 64] allowed_unreserved
  by (auto simp: generate_code_verifier_def)

lemma build_url_pkce:
  assumes "build_authorization_url qs rand1 rand2 sha256 fuel c = (c', Inr url)" "url \<noteq> []" "use_pkce (m_config c)"
  obtains st pair where "generate_code_verifier rand1 fuel 64 = Inr st" "make_pkce_pair rand2 sha256 fuel = Inr pair"
    "c' = c\<lparr>m_state := st, m_code_verifier := code_verifier pair, m_code_challenge := code_challenge pair\<rparr>"
    "url = authorization_endpoint (m_config c) @ qs (authorization_params (m_config c) st (Some pair)) ''?''"
  using assms by (auto simp: build_authorization_url_def Let_def split: if_splits sum.splits)

lemma pkce_pair:
  assumes "make_pkce_pair rand_bytes sha256 fuel = Inr pair"
  shows "length (code_verifier pair) = 64 \<and> code_challenge_method pair = ''S256'' \<and>
    make_s256_code_challenge sha256 (code_verifier pair) = Inr (code_challenge pair)"
  using assms verifier_length by (auto simp: make_pkce_pair_def split: sum.splits)

text \<open>A token request that reaches the manager is one more pending request, a form post to the token endpoint.\<close>

definition token_http_request :: "(QueryParams \<Rightarrow> string \<Rightarrow> string) \<Rightarrow> QueryParams \<Rightarrow> OAuthPkceClient \<Rightarrow> u64 \<Rightarrow> HttpRequest" where
  "token_http_request qs params c i =
     rq_set_url_query qs (token_endpoint (m_config c)) [] (new_request ''POST''
       (multimap_emplace ''Content-Type'' ''application/x-www-form-urlencoded'' []) (qs params []) False i)"

lemma token_request_eq:
  assumes "submit_request push_ok (Some (token_http_request qs params c (m_request_id_counter m))) (Some p)
    (fst (generate_request_id m)) = (m1, sr)"
  shows "token_request qs push_ok p await fmt now_ms params c r m =
    (case sr of None \<Rightarrow> (m1, None, False)
     | Some sr' \<Rightarrow>
        let st = (if \<not> accepted sr' then fst (safe_set_response (Some (make_submit_error_response sr')) PromiseUnset) else PromiseUnset)
        in (fst (await st m1), Some (token_outcome fmt now_ms c r (snd (await st m1))), accepted sr'))"
  using assms
  by (auto simp: token_request_def http_post_future_def http_request_future_def submit_http_request_def Let_def
      token_http_request_def generate_request_id_def split: prod.splits option.splits)

lemma token_request_submitted:
  assumes "token_request qs push_ok p await fmt now_ms params c r m = (m', res, True)"
  obtains m1 ctx rq where "m_pending_requests m1 = m_pending_requests m @ [ctx]" "request ctx = Some rq"
    "rq_url rq = token_endpoint (m_config c)" "rq_method rq = ''POST''" "rq_content rq = qs params []"
    "m' = fst (await PromiseUnset m1)" "res = Some (token_outcome fmt now_ms c r (snd (await PromiseUnset m1)))"
proof -
  let ?rq = "token_http_request qs params c (m_request_id_counter m)"
  obtain m1 sr where s: "submit_request push_ok (Some ?rq) (Some p) (fst (generate_request_id m)) = (m1, sr)" by fastforce
  have a: "sr = Some sr' \<Longrightarrow> accepted sr' \<Longrightarrow> \<exists>ctx. m_pending_requests m1 = m_pending_requests m @ [ctx] \<and> request ctx = Some ?rq" for sr'
    using s by (auto simp: submit_request_def Let_def generate_request_id_def split: if_splits)
  from assms token_request_eq [OF s, of await fmt now_ms r] obtain sr' where "sr = Some sr'" "accepted sr'"
    by (auto simp: Let_def split: option.splits)
  with a assms token_request_eq [OF s, of await fmt now_ms r] show thesis
    by (auto simp: token_http_request_def rq_set_url_query_def new_request_def intro!: that)
qed

context query_writer begin

lemma params_plain: "\<forall>(k, _) \<in> set ps. \<forall>c \<in> set k. is_unreserved c \<Longrightarrow> \<forall>(k, _) \<in> set ps. plain k"
  using plain_unreserved by fast

lemma authorization_url_decoded:
  "CHR ''?'' \<notin> set endpoint \<Longrightarrow> CHR ''#'' \<notin> set endpoint \<Longrightarrow>
   form_decode (url_query (endpoint @ query_string (authorization_params cfg st pair) ''?'')) = authorization_params cfg st pair"
  by (intro url_decoded params_plain authorization_params_plain) (simp_all add: authorization_params_eq)

lemma code_body_decoded: "form_decode (query_string (code_params c code) []) = code_params c code"
  by (intro body_decoded params_plain code_params_plain) (simp add: code_params_eq)

end

lemma both_builds_decode:
  assumes "qs = to_query_string \<or> qs = to_query_string_curl True (Some \<circ> percent_encode)"
  shows "CHR ''?'' \<notin> set endpoint \<Longrightarrow> CHR ''#'' \<notin> set endpoint \<Longrightarrow>
      form_decode (url_query (endpoint @ qs (authorization_params cfg st pair) ''?'')) = authorization_params cfg st pair"
    and "form_decode (qs (code_params c code) []) = code_params c code"
  using assms plain_query.authorization_url_decoded curl_query.authorization_url_decoded
    plain_query.code_body_decoded curl_query.code_body_decoded by auto

lemma authorization_params_lookup:
  "map_of (authorization_params cfg st (Some pair)) ''state'' = Some st"
  "map_of (authorization_params cfg st (Some pair)) ''code_challenge'' = Some (code_challenge pair)"
  "map_of (authorization_params cfg st (Some pair)) ''code_challenge_method'' = Some (code_challenge_method pair)"
  "map_of (authorization_params cfg st (Some pair)) ''redirect_uri'' = Some (redirect_uri cfg)"
  "map_of (authorization_params cfg st (Some pair)) ''client_id'' = Some (client_id cfg)"
  by (simp_all add: authorization_params_eq map_add_def split: option.split)

lemma code_params_lookup:
  "map_of (code_params c code) ''code'' = Some code"
  "map_of (code_params c code) ''redirect_uri'' = Some (redirect_uri (m_config c))"
  "map_of (code_params c code) ''client_id'' = Some (client_id (m_config c))"
  "use_pkce (m_config c) \<Longrightarrow> m_code_verifier c \<noteq> [] \<Longrightarrow> map_of (code_params c code) ''code_verifier'' = Some (m_code_verifier c)"
  by (simp_all add: code_params_eq)

text \<open>
  C12: The authorization URL and the token request that follows it belong together. The server reads from
  the URL a state of 64 characters, which is the only one \<open>validate_state\<close> accepts, and the S256
  challenge of a verifier of 64 characters; the exchange submits one request, a post to the token
  endpoint, from whose body the server reads this verifier, the code it gave, and the redirect URI and
  client of the URL. Both builds of \<open>to_query_string\<close> have this property, for an authorization endpoint
  without query and fragment.
\<close>

theorem oauth_pkce_binding:
  assumes "qs = to_query_string \<or> qs = to_query_string_curl True (Some \<circ> percent_encode)"
    and "build_authorization_url qs rand1 rand2 sha256 fuel c = (c', Inr url)" "url \<noteq> []" "use_pkce (m_config c)"
    and "CHR ''?'' \<notin> set (authorization_endpoint (m_config c))" "CHR ''#'' \<notin> set (authorization_endpoint (m_config c))"
    and "exchange_code qs push_ok p await fmt now_ms (OwnString code) c' m = (m', res, True)"
    and "sent = map_of (form_decode (url_query url))"
  shows "\<exists>state verifier challenge m1 ctx rq.
    (\<forall>s. validate_state s c' \<longleftrightarrow> s = state) \<and> length state = 64 \<and> sent ''state'' = Some state \<and>
    length verifier = 64 \<and> make_s256_code_challenge sha256 verifier = Inr challenge \<and>
    sent ''code_challenge'' = Some challenge \<and> sent ''code_challenge_method'' = Some ''S256'' \<and>
    m_pending_requests m1 = m_pending_requests m @ [ctx] \<and> m' = fst (await PromiseUnset m1) \<and>
    request ctx = Some rq \<and> rq_url rq = token_endpoint (m_config c) \<and> rq_method rq = ''POST'' \<and>
    map_of (form_decode (rq_content rq)) ''code_verifier'' = Some verifier \<and>
    map_of (form_decode (rq_content rq)) ''code'' = Some code \<and>
    map_of (form_decode (rq_content rq)) ''redirect_uri'' = sent ''redirect_uri'' \<and>
    map_of (form_decode (rq_content rq)) ''client_id'' = sent ''client_id''"
proof -
  from assms(2-4) obtain st pair where g: "generate_code_verifier rand1 fuel 64 = Inr st" "make_pkce_pair rand2 sha256 fuel = Inr pair"
    "c' = c\<lparr>m_state := st, m_code_verifier := code_verifier pair, m_code_challenge := code_challenge pair\<rparr>"
    "url = authorization_endpoint (m_config c) @ qs (authorization_params (m_config c) st (Some pair)) ''?''"
    by (rule build_url_pkce)
  note l = verifier_length [OF g(1)] pkce_pair [OF g(2)]
  have sent: "sent = map_of (authorization_params (m_config c) st (Some pair))"
    unfolding assms(8) g(4) by (subst both_builds_decode(1) [OF assms(1,5,6)]) (rule refl)
  have "token_request qs push_ok p await fmt now_ms (code_params c' code) c' AuthResult_default m = (m', res, True)"
    using assms(7) by (auto simp: exchange_code_def Let_def split: if_splits)
  then obtain m1 ctx rq where r: "m_pending_requests m1 = m_pending_requests m @ [ctx]" "request ctx = Some rq"
    "rq_url rq = token_endpoint (m_config c')" "rq_method rq = ''POST''" "rq_content rq = qs (code_params c' code) []"
    "m' = fst (await PromiseUnset m1)"
    by (rule token_request_submitted)
  have b: "form_decode (rq_content rq) = code_params c' code" unfolding r(5) by (rule both_builds_decode(2) [OF assms(1)])
  have v: "use_pkce (m_config c')" "m_code_verifier c' = code_verifier pair" "m_code_verifier c' \<noteq> []" "m_config c' = m_config c"
    using g(3) l assms(4) by auto
  have "validate_state s c' \<longleftrightarrow> s = st" for s using g(3) l by (auto simp: validate_state_def)
  with l r(1-4,6) v b show ?thesis
    by (subst (1 2 3 4 5) sent) (rule exI [of _ st], rule exI [of _ "code_verifier pair"], rule exI [of _ "code_challenge pair"],
        rule exI [of _ m1], rule exI [of _ ctx], rule exI [of _ rq], simp add: authorization_params_lookup code_params_lookup)
qed

definition demo_oauth :: OAuthPkceClient where
  "demo_oauth = OAuthPkceClient_new (OAuthConfig_default\<lparr>client_id := ''me'', authorization_endpoint := ''https://a/auth'',
     token_endpoint := ''https://a/token'', redirect_uri := ''http://l/cb?x=1''\<rparr>)"

text \<open>The URL is built whenever the configuration is complete and OpenSSL does its work.\<close>

definition rand_ok :: "(nat \<Rightarrow> nat \<Rightarrow> u8 list option) \<Rightarrow> bool" where
  "rand_ok r \<longleftrightarrow> (\<forall>k m. 0 < m \<longrightarrow> m \<le> 128 \<longrightarrow> (\<exists>ds. r k m = Some ds \<and> (\<exists>d \<in> set ds. unat d < 198)))"

lemma build_url_returns:
  assumes "rand_ok rand1" "rand_ok rand2"
    and "\<And>ds. sha256 ds \<noteq> None" "64 \<le> fuel"
    and "authorization_endpoint (m_config c) \<noteq> []" "client_id (m_config c) \<noteq> []" "redirect_uri (m_config c) \<noteq> []"
  shows "\<exists>c' url. build_authorization_url qs rand1 rand2 sha256 fuel c = (c', Inr url) \<and> url \<noteq> [] \<and> m_config c' = m_config c"
proof -
  have g: "\<exists>v. generate_code_verifier r fuel 64 = Inr v" if "rand_ok r" for r
    unfolding generate_code_verifier_def
    by (rule verifier_loop_returns) (use that assms(4) clamp_length_bounds(3) [of 64] in \<open>auto simp: rand_ok_def\<close>)
  from g [OF assms(1)] obtain st where 1: "generate_code_verifier rand1 fuel 64 = Inr st" by blast
  from g [OF assms(2)] obtain v where 2: "generate_code_verifier rand2 fuel 64 = Inr v" by blast
  obtain h where "make_s256_code_challenge sha256 v = Inr h"
    using assms(3) by (fastforce simp: make_s256_code_challenge_def split: option.splits)
  with 1 2 assms(5-) show ?thesis by (simp add: build_authorization_url_def make_pkce_pair_def Let_def)
qed

text \<open>A token request is submitted whenever the manager accepts requests.\<close>

lemma token_request_returns:
  assumes "\<not> m_shutdown m" "m_max_pending_requests m = 0"
  shows "\<exists>m1. token_request qs True p await fmt now_ms ps c r m =
    (fst (await PromiseUnset m1), Some (token_outcome fmt now_ms c r (snd (await PromiseUnset m1))), True)"
proof -
  let ?rq = "token_http_request qs ps c (m_request_id_counter m)"
  have "snd (submit_request True (Some ?rq) (Some p) (fst (generate_request_id m))) = Some (submit_result True no_error)"
    using assms by (simp add: submit_request_def generate_request_id_def Let_def)
  then obtain m1 where "submit_request True (Some ?rq) (Some p) (fst (generate_request_id m)) = (m1, Some (submit_result True no_error))"
    by (metis prod.collapse)
  from token_request_eq [OF this, of await fmt now_ms r] show ?thesis by (intro exI [of _ m1]) simp
qed

lemma exchange_submits:
  assumes "\<not> m_shutdown m" "m_max_pending_requests m = 0" "code \<noteq> []" "token_endpoint (m_config c) \<noteq> []"
  shows "\<exists>m' res. exchange_code qs True p await fmt now_ms (OwnString code) c m = (m', Some res, True)"
  using token_request_returns [OF assms(1,2)] assms(3,4) by (fastforce simp: exchange_code_def Let_def)

theorem oauth_pkce_binding_witness:
  "\<exists>c' url challenge verifier. build_authorization_url to_query_string (\<lambda>k n. Some (replicate n 5)) (\<lambda>k n. Some (replicate n 7))
       (Some \<circ> take 32) 64 demo_oauth = (c', Inr url) \<and>
     make_s256_code_challenge (Some \<circ> take 32) verifier = Inr challenge \<and>
     map_of (form_decode (url_query url)) ''code_challenge'' = Some challenge"
proof -
  have cfg: "m_config demo_oauth = OAuthConfig_default\<lparr>client_id := ''me'', authorization_endpoint := ''https://a/auth'',
     token_endpoint := ''https://a/token'', redirect_uri := ''http://l/cb?x=1''\<rparr>"
    by (simp add: demo_oauth_def OAuthPkceClient_new_def)
  obtain c' url where b: "build_authorization_url to_query_string (\<lambda>k n. Some (replicate n 5)) (\<lambda>k n. Some (replicate n 7))
       (Some \<circ> take 32) 64 demo_oauth = (c', Inr url)" "url \<noteq> []" "m_config c' = m_config demo_oauth"
    using build_url_returns [of "\<lambda>k n. Some (replicate n 5)" "\<lambda>k n. Some (replicate n 7)" "Some \<circ> take 32" 64 demo_oauth to_query_string]
    by (auto simp: cfg rand_ok_def)
  obtain m' res where x: "exchange_code to_query_string True 1 (\<lambda>st m. (m, Inr None)) (NoJsonSupport :: unit token_format) 0
     (OwnString ''c&d'') c' HttpRequestManager_init = (m', Some res, True)"
    using exchange_submits [of HttpRequestManager_init "''c&d''" c'] by (fastforce simp: b(3) cfg HttpRequestManager_init_def)
  from oauth_pkce_binding [OF disjI1 [OF refl] b(1,2) _ _ _ x refl] b(1) show ?thesis
    by (fastforce simp: cfg OAuthConfig_default_def)
qed

section \<open>Results\<close>

text \<open>What the caller can rely on in the result of \<open>exchange_code\<close> and \<open>refresh_access_token\<close>.\<close>

definition auth_result_ok :: "'j token_format \<Rightarrow> bool \<Rightarrow> AuthResult \<Rightarrow> bool" where
  "auth_result_ok fmt ok r \<longleftrightarrow>
     auth_success r = ok \<and> (auth_error r = AuthNone \<longleftrightarrow> ok) \<and>
     auth_error r \<in> {AuthNone, InvalidConfig, HttpError, InvalidResponse, UnsupportedFlow} \<and>
     (fmt \<noteq> NoJsonSupport \<longrightarrow>
        (ok \<longrightarrow> access_token (auth_token r) \<noteq> [] \<and> tk_raw_response (auth_token r) = auth_raw_response r) \<and>
        (\<not> ok \<longrightarrow> auth_token r = OAuthToken_default))"

lemma fail_with_ok:
  "e \<in> {InvalidConfig, HttpError, InvalidResponse, UnsupportedFlow} \<Longrightarrow> \<not> auth_success r \<Longrightarrow> auth_token r = OAuthToken_default \<Longrightarrow>
   fail_with e msg r = (ok, r') \<Longrightarrow> auth_result_ok fmt ok r'"
  by (auto simp: fail_with_def auth_result_ok_def)

lemma or_throw_Inr: "or_throw x f = Inr y \<longleftrightarrow> (\<exists>z. x = Inr z \<and> f z = Inr y)"
  by (cases x) auto

lemma json_token_raw: "json_token lib now_ms raw j = Inr token \<Longrightarrow> tk_raw_response token = raw"
  by (auto simp: json_token_def or_throw_Inr)

lemma parse_token_response_ok:
  assumes "parse_token_response fmt now_ms (auth_raw_response r) c r = (ok, r')"
    and "\<not> auth_success r" "auth_error r = AuthNone" "auth_token r = OAuthToken_default"
  shows "auth_result_ok fmt ok r' \<and> auth_error r' \<notin> {InvalidConfig, HttpError} \<and> auth_raw_response r' = auth_raw_response r"
proof (cases fmt)
  case NoJsonSupport
  with assms show ?thesis
    by (auto simp: parse_token_response_def fail_with_def auth_result_ok_def Let_def split: option.splits prod.splits if_splits)
next
  case (JsonSupport lib)
  show ?thesis
  proof (cases "parse_json_response lib now_ms (auth_raw_response r) r")
    case (Inl w)
    with JsonSupport assms show ?thesis by (auto simp: parse_token_response_def fail_with_def auth_result_ok_def)
  next
    case (Inr x)
    with JsonSupport assms(1) have "parse_json_response lib now_ms (auth_raw_response r) r = Inr (ok, r')"
      by (simp add: parse_token_response_def)
    with JsonSupport assms(2-4) show ?thesis
      by (auto simp: parse_json_response_def or_throw_Inr fail_with_def auth_result_ok_def dest: json_token_raw split: if_splits)
  qed
qed

lemma token_outcome_ok:
  assumes "token_outcome fmt now_ms c AuthResult_default outcome = (ok, r)"
  shows "auth_result_ok fmt ok r \<and> auth_error r \<noteq> InvalidConfig \<and>
    (auth_error r \<noteq> HttpError \<longleftrightarrow> (\<exists>rs. outcome = Inr (Some rs) \<and> 200 \<le> status_code rs \<and> status_code rs < 300)) \<and>
    (\<forall>rs. outcome = Inr (Some rs) \<longrightarrow> auth_raw_response r = rs_content rs)"
proof -
  have d: "\<not> auth_success AuthResult_default" "auth_token AuthResult_default = OAuthToken_default"
    "auth_error AuthResult_default = AuthNone" by (simp_all add: AuthResult_default_def)
  consider (ok) rs where "outcome = Inr (Some rs)" "200 \<le> status_code rs" "status_code rs < 300"
    | (bad) rs where "outcome = Inr (Some rs)" "\<not> (200 \<le> status_code rs \<and> status_code rs < 300)"
    | (none) "outcome = Inr None" | (ex) w where "outcome = Inl w"
    by (metis sum.exhaust option.exhaust)
  then show ?thesis
  proof cases
    case (ok rs)
    with assms d parse_token_response_ok [of fmt now_ms "AuthResult_default\<lparr>auth_raw_response := rs_content rs\<rparr>" c ok r]
    show ?thesis by (auto simp: token_outcome_def)
  qed (use assms d in \<open>auto simp: token_outcome_def fail_with_def auth_result_ok_def\<close>)
qed


definition demo_json :: "(string \<rightharpoonup> string) json_lib" where
  "demo_json =
     \<lparr>json_parse = (\<lambda>s. if s = ''ok'' then Inr [''access_token'' \<mapsto> ''tok''] else Inl ''syntax''),
      json_contains = (\<lambda>j k. case j k of None \<Rightarrow> False | Some _ \<Rightarrow> True),
      json_get_string = (\<lambda>j k. case j k of None \<Rightarrow> Inl ''type'' | Some v \<Rightarrow> Inr v),
      json_get_int64 = (\<lambda>j k. Inl ''type''),
      json_value = (\<lambda>j k v. case j k of None \<Rightarrow> Inr v | Some w \<Rightarrow> Inr w)\<rparr>"


section \<open>Expiry\<close>

text \<open>
  A token that came with \<open>expires_in\<close> expires this many seconds after it came, less the margin. A server
  that names more seconds than milliseconds fit into 64 bits makes the multiplication overflow, and the
  token is then one that never expires.
\<close>

lemma s64_id: "- (2 ^ 63) \<le> i \<Longrightarrow> i < 2 ^ 63 \<Longrightarrow> s64 i = i"
  by (simp add: s64_def signed_take_bit_int_eq_self)

lemma token_expiry_exact:
  assumes "json_contains lib j ''expires_in''" "json_get_int64 lib j ''expires_in'' = Inr e"
    and "json_token lib t0 raw j = Inr token"
    and "0 < e" "e < 2 ^ 50" "0 \<le> t0" "t0 < 2 ^ 62" "0 \<le> now" "now < 2 ^ 62" "0 \<le> skew" "skew < 2 ^ 62"
  shows "is_expired skew now token \<longleftrightarrow> now + skew \<ge> t0 + 1000 * e"
proof -
  have 1: "s64 (e * 1000) = e * 1000" "s64 (now + skew) = now + skew" "s64 (t0 + e * 1000) = t0 + e * 1000"
    by (rule s64_id; use assms in simp)+
  have "expires_at_ms token = t0 + e * 1000"
    using assms(1-3) 1 by (auto simp: json_token_def json_expiry_def or_throw_Inr)
  with 1 assms(4,6) show ?thesis by (auto simp: is_expired_def algebra_simps)
qed

lemma expiry_overflow: "s64 (1700000000000 + s64 (10 ^ 16 * 1000)) < 0"
  by code_simp

end
