(* ===== verification/Proxy_Config.thy ===== *)
theory Proxy_Config
  imports Kurlyk_Types
begin

text \<open>
  \<^verbatim>\<open>types/ProxyConfig.hpp\<close>: the proxy settings with their setters and the getters that take the stored
  strings apart again, and the names of the proxy types in JSON.
\<close>

record ProxyConfig =
  px_server :: string
  px_auth :: string
  px_type :: ProxyType
  px_use :: bool

definition ProxyConfig_default :: ProxyConfig where
  "ProxyConfig_default = \<lparr>px_server = [], px_auth = [], px_type = PROXY_HTTP, px_use = False\<rparr>"

definition ProxyConfig_new :: "string \<Rightarrow> string \<Rightarrow> ProxyType \<Rightarrow> ProxyConfig" where
  "ProxyConfig_new server auth type = \<lparr>px_server = server, px_auth = auth, px_type = type, px_use = False\<rparr>"

definition px_set_proxy :: "string \<Rightarrow> int \<Rightarrow> ProxyType \<Rightarrow> ProxyConfig \<Rightarrow> ProxyConfig" where
  "px_set_proxy ip port type p = p\<lparr>px_server := ip @ '':'' @ to_string port, px_type := type\<rparr>"

definition px_set_proxy_auth :: "string \<Rightarrow> string \<Rightarrow> ProxyConfig \<Rightarrow> ProxyConfig" where
  "px_set_proxy_auth username password p = p\<lparr>px_auth := username @ '':'' @ password\<rparr>"

definition px_set_proxy_full :: "string \<Rightarrow> int \<Rightarrow> string \<Rightarrow> string \<Rightarrow> ProxyType \<Rightarrow> ProxyConfig \<Rightarrow> ProxyConfig" where
  "px_set_proxy_full ip port username password type p =
     px_set_proxy_auth username password (px_set_proxy ip port type p)"

definition px_get_ip :: "ProxyConfig \<Rightarrow> string" where
  "px_get_ip p =
     (case rfind_char (px_server p) (CHR '':'') of
        None \<Rightarrow> []
      | Some pos \<Rightarrow> if pos = 0 then [] else substr (px_server p) 0 pos)"

definition px_get_port :: "ProxyConfig \<Rightarrow> int" where
  "px_get_port p =
     (case rfind_char (px_server p) (CHR '':'') of
        None \<Rightarrow> 0
      | Some pos \<Rightarrow>
          if pos + 1 \<ge> length (px_server p) then 0
          else case stoi (drop (pos + 1) (px_server p)) of
            None \<Rightarrow> 0
          | Some port \<Rightarrow> if port > 0 \<and> port \<le> 65535 then port else 0)"

definition px_get_username :: "ProxyConfig \<Rightarrow> string" where
  "px_get_username p =
     (case find_char (px_auth p) (CHR '':'') 0 of
        None \<Rightarrow> []
      | Some pos \<Rightarrow> substr (px_auth p) 0 pos)"

definition px_get_password :: "ProxyConfig \<Rightarrow> string" where
  "px_get_password p =
     (case find_char (px_auth p) (CHR '':'') 0 of
        None \<Rightarrow> []
      | Some pos \<Rightarrow> if pos + 1 \<ge> length (px_auth p) then [] else drop (pos + 1) (px_auth p))"

definition px_is_valid :: "ProxyConfig \<Rightarrow> bool" where
  "px_is_valid p = (px_get_ip p \<noteq> [] \<and> px_get_port p \<noteq> 0)"

definition proxy_type_name :: "ProxyType \<Rightarrow> string" where
  "proxy_type_name type =
     (case type of
        PROXY_HTTP \<Rightarrow> ''PROXY_HTTP'' | PROXY_HTTPS \<Rightarrow> ''PROXY_HTTPS'' | PROXY_HTTP_1_0 \<Rightarrow> ''PROXY_HTTP_1_0''
      | PROXY_SOCKS4 \<Rightarrow> ''PROXY_SOCKS4'' | PROXY_SOCKS4A \<Rightarrow> ''PROXY_SOCKS4A'' | PROXY_SOCKS5 \<Rightarrow> ''PROXY_SOCKS5''
      | PROXY_SOCKS5_HOSTNAME \<Rightarrow> ''PROXY_SOCKS5_HOSTNAME'')"

text \<open>The part of \<open>proxy_type_from_json\<close> for a string value; \<open>None\<close> is \<open>std::invalid_argument\<close>.\<close>

definition proxy_type_from_name :: "string \<Rightarrow> ProxyType option" where
  "proxy_type_from_name value =
     (let name = to_upper_case value
      in if name = ''PROXY_HTTP'' then Some PROXY_HTTP
         else if name = ''PROXY_HTTPS'' then Some PROXY_HTTPS
         else if name = ''PROXY_HTTP_1_0'' then Some PROXY_HTTP_1_0
         else if name = ''PROXY_SOCKS4'' then Some PROXY_SOCKS4
         else if name = ''PROXY_SOCKS4A'' then Some PROXY_SOCKS4A
         else if name = ''PROXY_SOCKS5'' then Some PROXY_SOCKS5
         else if name = ''PROXY_SOCKS5_HOSTNAME'' then Some PROXY_SOCKS5_HOSTNAME
         else None)"

section \<open>Properties\<close>

lemma get_port_range: "0 \<le> px_get_port p \<and> px_get_port p \<le> 65535"
  by (auto simp: px_get_port_def split: option.split)

lemma proxy_type_name_roundtrip: "proxy_type_from_name (proxy_type_name t) = Some t"
  by (cases t; hypsubst; code_simp)

text \<open>What the setters of the proxy configuration store, the getters give back: the host, even one
  with colons such as an IPv6 address, a port between 1 and 65535, a user name without a colon and any
  password; the configuration is then valid. A port out of range reads as 0 and makes it invalid, and
  the name of each proxy type is read back as that type.\<close>

theorem proxy_config_roundtrip:
  assumes "ip \<noteq> []" "CHR '':'' \<notin> set username" "0 \<le> port" "port \<le> 2147483647"
    and "q = px_set_proxy_full ip port username password type p"
  shows "px_get_ip q = ip \<and> px_get_username q = username \<and> px_get_password q = password \<and>
    px_get_port q = (if 1 \<le> port \<and> port \<le> 65535 then port else 0) \<and>
    (px_is_valid q \<longleftrightarrow> 1 \<le> port \<and> port \<le> 65535) \<and> proxy_type_from_name (proxy_type_name (px_type q)) = Some type"
proof -
  have s: "px_server q = ip @ CHR '':'' # to_string port" "px_auth q = username @ CHR '':'' # password" "px_type q = type"
    using assms(5) by (simp_all add: px_set_proxy_full_def px_set_proxy_auth_def px_set_proxy_def)
  have r: "rfind_char (px_server q) (CHR '':'') = Some (length ip)"
    unfolding s(1) by (rule rfind_char_append) (rule colon_notin_to_string)
  have f: "find_char (px_auth q) (CHR '':'') 0 = Some (length username)"
    unfolding s(2) by (rule find_char_append) (rule assms(2))
  have n: "to_string port \<noteq> []" using stoi_to_string [OF assms(3,4)] by (auto simp: stoi_def)
  have i: "px_get_ip q = ip" using assms(1) by (simp add: px_get_ip_def r) (simp add: s substr_def)
  have p: "px_get_port q = (if 1 \<le> port \<and> port \<le> 65535 then port else 0)"
    using stoi_to_string [OF assms(3,4)] n by (simp add: px_get_port_def r) (auto simp: s)
  have "px_get_username q = username" "px_get_password q = password"
    by (simp_all add: px_get_username_def px_get_password_def f) (auto simp: s substr_def)
  with i p assms(1) s(3) show ?thesis by (auto simp: px_is_valid_def proxy_type_name_roundtrip)
qed

theorem proxy_config_roundtrip_witness:
  "px_get_ip (px_set_proxy_full ''::1'' 8080 ''u'' ''p:q'' PROXY_SOCKS5 ProxyConfig_default) = ''::1'' \<and>
   px_get_password (px_set_proxy_full ''::1'' 8080 ''u'' ''p:q'' PROXY_SOCKS5 ProxyConfig_default) = ''p:q''"
  using proxy_config_roundtrip [of "''::1''" "''u''" 8080 _ "''p:q''" PROXY_SOCKS5 ProxyConfig_default] by simp

end
