(* ===== verification/Proxy_Checker.thy ===== *)
theory Proxy_Checker
  imports Http_Client_Props Proxy_Config
begin

text \<open>
  \<^verbatim>\<open>http/ProxyChecker.hpp\<close> with \<^verbatim>\<open>http/data/ProxyCheckOptions.hpp\<close> and \<^verbatim>\<open>ProxyCheckResult.hpp\<close>: the check
  of a proxy by one request without body, and its future. The times of a response are real numbers,
  \<open>long\<close> has 64 bits. \<open>message\<close> is \<open>std::error_code::message\<close>, which for errors of the transfer is a
  text of libcurl. As for the other futures, the promise is unset, or holds its value, and setting it
  again is reported to the error handlers.
\<close>

declare map_of_eq_Some_iff [simp del] Some_eq_map_of_iff [simp del]

section \<open>Data\<close>

record ProxyCheckOptions =
  test_url :: string
  pc_ca_file :: string
  pc_connect_timeout :: int
  request_timeout :: int
  follow_redirects :: bool
  pc_proxy_tunnel :: bool

definition ProxyCheckOptions_default :: ProxyCheckOptions where
  "ProxyCheckOptions_default =
     \<lparr>test_url = ''https://example.com/'', pc_ca_file = [], pc_connect_timeout = 3, request_timeout = 5,
      follow_redirects = False, pc_proxy_tunnel = False\<rparr>"

record ProxyCheckResult =
  reachable :: bool
  http_ok :: bool
  https_ok :: bool
  pc_error_code :: error_code
  pc_error_message :: string
  http_status :: int
  connect_latency_ms :: int
  tls_latency_ms :: int
  ttfb_ms :: int
  total_latency_ms :: int

definition ProxyCheckResult_default :: ProxyCheckResult where
  "ProxyCheckResult_default =
     \<lparr>reachable = False, http_ok = False, https_ok = False, pc_error_code = no_error, pc_error_message = [],
      http_status = 0, connect_latency_ms = 0, tls_latency_ms = 0, ttfb_ms = 0, total_latency_ms = 0\<rparr>"

section \<open>Operations\<close>

fun scheme_matches :: "string \<Rightarrow> string \<Rightarrow> bool" where
  "scheme_matches url [] = True"
| "scheme_matches [] (p # ps) = False"
| "scheme_matches (c # cs) (p # ps) =
     (let actual = (if 65 \<le> ord c \<and> ord c \<le> 90 then char_of (ord c - 65 + 97) else c)
      in if actual \<noteq> p then False else scheme_matches cs ps)"

definition proxy_check_has_scheme :: "string \<Rightarrow> string \<Rightarrow> bool" where
  "proxy_check_has_scheme url scheme = (if length url < length scheme then False else scheme_matches url scheme)"

definition proxy_check_is_http_url :: "string \<Rightarrow> bool" where
  "proxy_check_is_http_url url = (proxy_check_has_scheme url ''http://'' \<or> proxy_check_has_scheme url ''https://'')"

definition long_max :: int where "long_max = 2 ^ 63 - 1"

definition proxy_check_milliseconds :: "real \<Rightarrow> int" where
  "proxy_check_milliseconds seconds =
     (if seconds \<le> 0 then 0
      else
        let milliseconds = seconds * 1000
        in if milliseconds \<ge> real_of_int long_max then long_max else \<lfloor>milliseconds + 1 / 2\<rfloor>)"

definition make_proxy_check_error :: "(error_code \<Rightarrow> string) \<Rightarrow> error_code \<Rightarrow> string \<Rightarrow> ProxyCheckResult" where
  "make_proxy_check_error message ec msg =
     ProxyCheckResult_default\<lparr>pc_error_code := ec, pc_error_message := (if msg = [] then message ec else msg)\<rparr>"

definition make_proxy_check_result :: "(error_code \<Rightarrow> string) \<Rightarrow> HttpResponse option \<Rightarrow> bool \<Rightarrow> ProxyCheckResult" where
  "make_proxy_check_result message response is_https =
     (case response of
        None \<Rightarrow>
          make_proxy_check_error message (client_error AbortedDuringDestruction) ''Proxy check returned no HTTP response''
      | Some r \<Rightarrow>
          let t = rs_timings r;
              received = (ready r \<and> status_code r > 0 \<and> (\<not> ec_bool (rs_error_code r) \<or> is_http_error (rs_error_code r)));
              ok = (received \<and> status_code r \<ge> 200 \<and> status_code r < 400)
          in ProxyCheckResult_default
               \<lparr>pc_error_code := rs_error_code r,
                pc_error_message := (if rs_error_message r = [] \<and> ec_bool (rs_error_code r)
                                     then message (rs_error_code r) else rs_error_message r),
                http_status := status_code r,
                reachable := received,
                http_ok := ok,
                https_ok := is_https \<and> ok,
                connect_latency_ms := proxy_check_milliseconds (connect_time t),
                tls_latency_ms := (if appconnect_time t > 0 \<and> connect_time t \<ge> 0 \<and> appconnect_time t \<ge> connect_time t
                                   then proxy_check_milliseconds (appconnect_time t - connect_time t) else 0),
                ttfb_ms := proxy_check_milliseconds (starttransfer_time t),
                total_latency_ms := proxy_check_milliseconds (total_time t)\<rparr>)"

datatype proxy_promise = ProxyUnset | ProxyResult ProxyCheckResult

text \<open>The second component says whether the error handlers were told.\<close>

fun set_proxy_check_promise :: "proxy_promise \<Rightarrow> ProxyCheckResult \<Rightarrow> proxy_promise \<times> bool" where
  "set_proxy_check_promise ProxyUnset r = (ProxyResult r, False)"
| "set_proxy_check_promise (ProxyResult r0) r = (ProxyResult r0, True)"

definition proxy_check_callback ::
    "(error_code \<Rightarrow> string) \<Rightarrow> bool \<Rightarrow> HttpResponse option \<Rightarrow> proxy_promise \<Rightarrow> proxy_promise \<times> bool" where
  "proxy_check_callback message is_https response promise =
     (if (case response of None \<Rightarrow> False | Some r \<Rightarrow> \<not> ready r) then (promise, False)
      else set_proxy_check_promise promise (make_proxy_check_result message response is_https))"

definition proxy_check_request :: "ProxyConfig \<Rightarrow> ProxyCheckOptions \<Rightarrow> HttpRequest" where
  "proxy_check_request proxy options =
     HttpRequest_default
       \<lparr>rq_url := test_url options, rq_method := ''HEAD'', head_only := True, rq_ca_file := pc_ca_file options,
        rq_follow_location := follow_redirects options, rq_proxy_server := px_server proxy,
        rq_proxy_auth := px_auth proxy, rq_proxy_type := px_type proxy, rq_proxy_tunnel := pc_proxy_tunnel options,
        rq_connect_timeout := pc_connect_timeout options, rq_timeout := request_timeout options, retry_attempts := 0\<rparr>"

text \<open>The manager, the promise when \<open>check\<close> returns, \<open>None\<close> if an exception of the submission leaves it, and
  whether the worker is notified.\<close>

definition ProxyChecker_check ::
    "(error_code \<Rightarrow> string) \<Rightarrow> bool \<Rightarrow> cb \<Rightarrow> ProxyConfig \<Rightarrow> ProxyCheckOptions \<Rightarrow> HttpRequestManager \<Rightarrow>
     HttpRequestManager \<times> proxy_promise option \<times> bool" where
  "ProxyChecker_check message push_ok promise proxy options m =
     (if \<not> px_is_valid proxy
      then (m, Some (fst (set_proxy_check_promise ProxyUnset (make_proxy_check_error message
              (client_error InvalidConfiguration) ''Proxy server must contain a valid host and port''))), False)
      else if \<not> proxy_check_is_http_url (test_url options) \<or> pc_connect_timeout options < 0 \<or> request_timeout options < 0
      then (m, Some (fst (set_proxy_check_promise ProxyUnset (make_proxy_check_error message
              (client_error InvalidConfiguration) ''Proxy check requires an HTTP(S) test URL and non-negative timeouts''))), False)
      else
        let (m1, r, n) = submit_http_request push_ok (Some (proxy_check_request proxy options)) (Some promise) m
        in (m1,
            case r of
              None \<Rightarrow> None
            | Some sr \<Rightarrow>
                Some (if \<not> accepted sr
                      then fst (set_proxy_check_promise ProxyUnset (make_proxy_check_error message (submit_error sr) []))
                      else ProxyUnset),
            n))"

definition check_proxy ::
    "(error_code \<Rightarrow> string) \<Rightarrow> bool \<Rightarrow> cb \<Rightarrow> ProxyConfig \<Rightarrow> ProxyCheckOptions \<Rightarrow> HttpRequestManager \<Rightarrow>
     HttpRequestManager \<times> proxy_promise option \<times> bool" where
  "check_proxy message push_ok promise proxy options m = ProxyChecker_check message push_ok promise proxy options m"

section \<open>The future\<close>

text \<open>The promise after the callbacks in a log, with the number of times the error handlers were told that
  it was set before.\<close>

fun proxy_log :: "(error_code \<Rightarrow> string) \<Rightarrow> bool \<Rightarrow> u64 \<Rightarrow> http_log \<Rightarrow> proxy_promise \<times> nat \<Rightarrow> proxy_promise \<times> nat" where
  "proxy_log message is_https t (LogResponse f t' r) (p, e) =
     (if t' = t then let (p', err) = proxy_check_callback message is_https (Some r) p in (p', e + of_bool err) else (p, e))"
| "proxy_log message is_https t _ x = x"

definition proxy_promise_after :: "(error_code \<Rightarrow> string) \<Rightarrow> bool \<Rightarrow> u64 \<Rightarrow> http_log list \<Rightarrow> proxy_promise \<times> nat" where
  "proxy_promise_after message is_https t ls = fold (proxy_log message is_https t) ls (ProxyUnset, 0)"

text \<open>It is the promise of a plain future, read as the result of a check.\<close>

fun proxy_view :: "(error_code \<Rightarrow> string) \<Rightarrow> bool \<Rightarrow> promise_state \<Rightarrow> proxy_promise" where
  "proxy_view message is_https (PromiseResponse r) = ProxyResult (make_proxy_check_result message (Some r) is_https)"
| "proxy_view message is_https _ = ProxyUnset"

lemma proxy_log_view:
  assumes "p \<noteq> PromiseException"
  shows "proxy_log message is_https t l (proxy_view message is_https p, e) =
      map_prod (proxy_view message is_https) id (promise_log t l (p, e)) \<and> fst (promise_log t l (p, e)) \<noteq> PromiseException"
  using assms by (cases l; cases p) (auto simp: proxy_check_callback_def safe_set_response_def)

lemma proxy_fold_view:
  "p \<noteq> PromiseException \<Longrightarrow>
   fold (proxy_log message is_https t) ls (proxy_view message is_https p, e) =
     map_prod (proxy_view message is_https) id (fold (promise_log t) ls (p, e))"
proof (induction ls arbitrary: p e)
  case (Cons l ls)
  obtain p' e' where l: "promise_log t l (p, e) = (p', e')" by fastforce
  with proxy_log_view [OF Cons.prems, of message is_https t l e] have "p' \<noteq> PromiseException"
    "proxy_log message is_https t l (proxy_view message is_https p, e) = (proxy_view message is_https p', e')" by simp_all
  with Cons.IH [of p' e'] l show ?case by simp
qed simp

lemma proxy_promise_view:
  "proxy_promise_after message is_https t ls = map_prod (proxy_view message is_https) id (promise_after t ls)"
  using proxy_fold_view [of PromiseUnset message is_https t ls 0] by (simp add: proxy_promise_after_def promise_after_def)

lemma milliseconds_bounds: "0 \<le> proxy_check_milliseconds s \<and> proxy_check_milliseconds s \<le> long_max"
proof -
  have "\<lfloor>x + 1 / 2\<rfloor> \<le> long_max" if "x < real_of_int long_max" for x :: real
    using that by (simp add: floor_le_iff)
  moreover have "0 \<le> \<lfloor>s * 1000 + 1 / 2\<rfloor>" if "0 < s" using that by simp
  ultimately show ?thesis by (auto simp: proxy_check_milliseconds_def Let_def long_max_def not_le)
qed

text \<open>What every result of a check satisfies.\<close>

definition proxy_result_ok :: "ProxyCheckResult \<Rightarrow> bool" where
  "proxy_result_ok r \<longleftrightarrow>
     (https_ok r \<longrightarrow> http_ok r) \<and> (http_ok r \<longrightarrow> reachable r \<and> 200 \<le> http_status r \<and> http_status r < 400) \<and>
     (reachable r \<longrightarrow> 0 < http_status r \<and> (ec_bool (pc_error_code r) \<longrightarrow> is_http_error (pc_error_code r))) \<and>
     connect_latency_ms r \<in> {0..long_max} \<and> tls_latency_ms r \<in> {0..long_max} \<and>
     ttfb_ms r \<in> {0..long_max} \<and> total_latency_ms r \<in> {0..long_max}"

lemma proxy_result_ok:
  "proxy_result_ok (make_proxy_check_result message response is_https)"
  "proxy_result_ok (make_proxy_check_error message ec msg)"
proof -
  show e: "proxy_result_ok (make_proxy_check_error message ec msg)" for ec msg
    by (simp add: make_proxy_check_error_def proxy_result_ok_def ProxyCheckResult_default_def long_max_def)
  show "proxy_result_ok (make_proxy_check_result message response is_https)"
    using e milliseconds_bounds
    by (cases response) (auto simp: make_proxy_check_result_def proxy_result_ok_def ProxyCheckResult_default_def Let_def long_max_def)
qed

lemma client_error_bool: "ec_bool (client_error e)"
  by (cases e) (simp_all add: ec_bool_def client_error_def)

lemma submit_refused: "submit_request push_ok rq f m = (m1, Some sr) \<Longrightarrow> \<not> accepted sr \<Longrightarrow> ec_bool (submit_error sr)"
  by (auto simp: submit_request_def Let_def client_error_bool split: if_splits)

text \<open>
  C14: The future of a proxy check is settled exactly once. A proxy without host or port, a test URL that is
  not HTTP(S) and negative timeouts are refused, and so is a check the manager does not accept: the
  result is there at once, with an error and not reachable. Otherwise the worker is notified and, after
  any further operations of the manager, the future is unset exactly while the manager holds the
  request, and then has the result of its one final response. In every result HTTPS success implies HTTP
  success, which implies a response with status 200 to 399, and the latencies are in the range of
  \<open>long\<close>.
\<close>

theorem proxy_check_settled:
  assumes "http_run xs HttpRequestManager_init = (m, A)" "length xs + length ys + 1 < 2 ^ 64"
    and "ProxyChecker_check message push_ok p proxy options m = (m1, Some st, n)" "http_run ys m1 = (m2, B)"
    and "t = m_next_in_flight_token m" "is_https = proxy_check_has_scheme (test_url options) ''https://''"
    and "(after, told) = proxy_promise_after message is_https t (hm_log m2)"
  shows "(n \<longrightarrow> px_is_valid proxy \<and> proxy_check_is_http_url (test_url options) \<and>
      0 \<le> pc_connect_timeout options \<and> 0 \<le> request_timeout options \<and> st = ProxyUnset \<and> told = 0 \<and>
      (after = ProxyUnset \<longleftrightarrow> outstanding t m2 = 1) \<and>
      (outstanding t m2 = 0 \<longrightarrow> (\<exists>f r. ready r \<and> LogResponse f t r \<in> set (hm_log m2) \<and>
         after = ProxyResult (make_proxy_check_result message (Some r) is_https)))) \<and>
    (\<not> n \<longrightarrow> (\<exists>r. st = ProxyResult r \<and> \<not> reachable r \<and> ec_bool (pc_error_code r)) \<and>
      m_pending_requests m1 = m_pending_requests m \<and> hm_log m1 = hm_log m) \<and>
    (\<forall>r. st = ProxyResult r \<or> after = ProxyResult r \<longrightarrow> proxy_result_ok r)"
proof -
  let ?rq = "proxy_check_request proxy options"
  have v: "after = proxy_view message is_https (fst (promise_after t (hm_log m2)))" "told = snd (promise_after t (hm_log m2))"
    using assms(7) by (simp_all add: proxy_promise_view prod_eq_iff)
  have a: "after = ProxyResult r \<Longrightarrow> proxy_result_ok r" for r
    unfolding v by (cases "fst (promise_after t (hm_log m2))") (auto simp: proxy_result_ok)
  have er: "\<not> reachable (make_proxy_check_error message ec msg)" "pc_error_code (make_proxy_check_error message ec msg) = ec" for ec msg
    by (simp_all add: make_proxy_check_error_def ProxyCheckResult_default_def)
  show ?thesis
  proof (cases n)
    case False
    with assms(3) obtain ec msg where "st = ProxyResult (make_proxy_check_error message ec msg)" "ec_bool ec"
      "m_pending_requests m1 = m_pending_requests m" "hm_log m1 = hm_log m"
      by (auto simp: ProxyChecker_check_def submit_http_request_def client_error_bool submit_request_def Let_def
          drop_request_def on_limiter_def split: if_splits option.splits prod.splits)
    with False a er proxy_result_ok(2) show ?thesis by auto
  next
    case True
    with assms(3) obtain sr where s: "submit_request push_ok (Some ?rq) (Some p) m = (m1, Some sr)" "accepted sr"
      "st = ProxyUnset" "px_is_valid proxy" "proxy_check_is_http_url (test_url options)"
      "0 \<le> pc_connect_timeout options" "0 \<le> request_timeout options"
      by (auto simp: ProxyChecker_check_def submit_http_request_def Let_def split: if_splits option.splits prod.splits)
    have "http_run (xs @ Submit push_ok (Some ?rq) (Some p) # ys) HttpRequestManager_init = (m2, A @ (t, Some p) # B)"
      using assms(1,4,5) submit_accepted_exec [OF s(1,2)] by (simp add: http_run_append)
    from http_exactly_once_core [OF this, of t "Some p"] assms(2)
    have e: "outstanding t m2 + completions t m2 = 1" "final_responses t m2 = completions t m2" by auto
    show ?thesis
    proof (cases "completions t m2 = 0")
      case True
      with e promise_after_once(1) [of t m2] s v a \<open>n\<close> show ?thesis by auto
    next
      case False
      with e have o: "final_responses t m2 = 1" "outstanding t m2 = 0" by auto
      from promise_after_once(2) [OF o(1)] obtain f r where
        r: "ready r" "LogResponse f t r \<in> set (hm_log m2)" "promise_after t (hm_log m2) = (PromiseResponse r, 0)" by blast
      then have "\<exists>f r'. ready r' \<and> LogResponse f t r' \<in> set (hm_log m2) \<and>
          after = ProxyResult (make_proxy_check_result message (Some r') is_https)" using v(1) by auto
      with r(3) s v a o \<open>n\<close> show ?thesis by simp
    qed
  qed
qed

definition demo_proxy :: ProxyConfig where
  "demo_proxy = ProxyConfig_new ''h:80'' [] PROXY_HTTP"

definition demo_check_ops :: "http_op list" where
  "demo_check_ops = [Process (demo_env [] 1), Process (demo_env [demo_message 0 200] 0)]"

theorem proxy_check_settled_witness:
  "\<exists>m r. ProxyChecker_check (\<lambda>_. []) True 7 demo_proxy ProxyCheckOptions_default HttpRequestManager_init = (m, Some ProxyUnset, True) \<and>
     fst (proxy_promise_after (\<lambda>_. []) True 1 (hm_log (fst (http_run demo_check_ops m)))) = ProxyResult r \<and> proxy_result_ok r"
proof -
  define m where "m = fst (submit_request True (Some (proxy_check_request demo_proxy ProxyCheckOptions_default)) (Some 7) HttpRequestManager_init)"
  let ?m2 = "http_run demo_check_ops m"
  have h: "px_is_valid demo_proxy" "proxy_check_has_scheme (test_url ProxyCheckOptions_default) ''https://''" by code_simp+
  have c: "m_next_in_flight_token HttpRequestManager_init = 1" by (simp add: HttpRequestManager_init_def)
  have o: "outstanding 1 (fst ?m2) = 0" unfolding m_def by code_simp
  have e: "ProxyChecker_check (\<lambda>_. []) True 7 demo_proxy ProxyCheckOptions_default HttpRequestManager_init = (m, Some ProxyUnset, True)"
    using h by (simp add: ProxyChecker_check_def m_def proxy_check_is_http_url_def ProxyCheckOptions_default_def submit_http_request_def
        submit_request_def Let_def HttpRequestManager_init_def)
  have r: "http_run [] HttpRequestManager_init = (HttpRequestManager_init, [])" "?m2 = (fst ?m2, snd ?m2)" by simp_all
  have l: "length [] + length demo_check_ops + 1 < 2 ^ 64" by (simp add: demo_check_ops_def)
  have h': "True = proxy_check_has_scheme (test_url ProxyCheckOptions_default) ''https://''" using h(2) by simp
  from proxy_check_settled [OF r(1) l e r(2) c [symmetric] h' prod.collapse] e o
  show ?thesis by blast
qed

end
