(* ===== verification/Simple_Web_Worker.thy ===== *)
theory Simple_Web_Worker
  imports Kurlyk_Prelude
begin

text \<open>
  \<^verbatim>\<open>websocket/client/SimpleWeb/SimpleWebSocketWorker.hpp\<close>: the thread that runs the \<open>io_context\<close> of all
  WebSocket connections. The body of the thread is cut at its accesses to shared members and
  interleaved with \<open>start\<close>, \<open>notify\<close> and \<open>stop\<close> on other threads.

  Of Asio the model has what its documentation says of an \<open>io_context\<close> with a work guard: \<open>run\<close> executes
  handlers and returns only when the context is stopped or a handler throws, \<open>stop\<close> makes it return at
  once, until \<open>restart\<close>. A handler is a number; the input of a step says whether it throws.
\<close>

section \<open>The worker\<close>

record SimpleWebSocketWorker =
  io_handlers :: "nat list"
  io_stopped :: bool
  m_work_guard :: bool
  m_is_worker_started :: bool
  m_notify :: bool
  m_future :: bool
  m_shutdown :: bool

definition SimpleWebSocketWorker_init :: SimpleWebSocketWorker where
  "SimpleWebSocketWorker_init =
     \<lparr>io_handlers = [], io_stopped = False, m_work_guard = True, m_is_worker_started = False, m_notify = False,
      m_future = False, m_shutdown = False\<rparr>"

definition sw_notify :: "SimpleWebSocketWorker \<Rightarrow> SimpleWebSocketWorker" where
  "sw_notify w = w\<lparr>m_notify := True\<rparr>"

definition post_handler :: "nat \<Rightarrow> SimpleWebSocketWorker \<Rightarrow> SimpleWebSocketWorker" where
  "post_handler h w = w\<lparr>io_handlers := io_handlers w @ [h]\<rparr>"

text \<open>The statements of the thread, and how far a call of \<open>stop\<close> has got; it waits for the future with
  \<open>m_is_worker_started_mutex\<close> held.\<close>

datatype sw_pc = SwNone | SwLoop | SwWait | SwRun | SwCheck | SwRestart | SwGuard | SwDone

datatype sw_stop_pc = StopNone | StopFlagged | StopIo | StopWaiting

record sw_system =
  sw_worker :: SimpleWebSocketWorker
  sw_thread :: sw_pc
  sw_stop :: sw_stop_pc
  sw_starting :: bool
  sw_executed :: "nat list"
  sw_notified :: bool
  sw_thrown :: bool

definition sw_on :: "(SimpleWebSocketWorker \<Rightarrow> SimpleWebSocketWorker) \<Rightarrow> sw_pc \<Rightarrow> sw_system \<Rightarrow> sw_system" where
  "sw_on f pc s = s\<lparr>sw_worker := f (sw_worker s), sw_thread := pc\<rparr>"

definition sw_run_handlers :: "bool \<Rightarrow> sw_system \<Rightarrow> sw_system option" where
  "sw_run_handlers throws s =
     (if io_stopped (sw_worker s) then Some (sw_on id SwCheck s)
      else case io_handlers (sw_worker s) of
        [] \<Rightarrow> None
      | h # hs \<Rightarrow>
          Some ((sw_on (\<lambda>w. w\<lparr>io_handlers := hs\<rparr>) (if throws then SwCheck else SwRun) s)
                \<lparr>sw_executed := sw_executed s @ [h], sw_thrown := sw_thrown s \<or> throws\<rparr>))"

fun sw_thread_step :: "bool \<Rightarrow> sw_pc \<Rightarrow> sw_system \<Rightarrow> sw_system option" where
  "sw_thread_step throws SwNone s = None"
| "sw_thread_step throws SwLoop s = Some (sw_on id (if \<not> m_shutdown (sw_worker s) then SwWait else SwGuard) s)"
| "sw_thread_step throws SwWait s =
     (if m_notify (sw_worker s) then Some (sw_on (\<lambda>w. w\<lparr>m_notify := False\<rparr>) SwRun s) else None)"
| "sw_thread_step throws SwRun s = sw_run_handlers throws s"
| "sw_thread_step throws SwCheck s = Some (sw_on id (if m_shutdown (sw_worker s) then SwGuard else SwRestart) s)"
| "sw_thread_step throws SwRestart s = Some (sw_on (\<lambda>w. w\<lparr>io_stopped := False\<rparr>) SwLoop s)"
| "sw_thread_step throws SwGuard s = Some (sw_on (\<lambda>w. w\<lparr>m_work_guard := False\<rparr>) SwDone s)"
| "sw_thread_step throws SwDone s = None"

text \<open>\<open>SwStart\<close> and \<open>SwStartAsync\<close> are \<open>start\<close> before and after its unlock.\<close>

datatype sw_action =
    SwThread bool | SwNotify | SwPost nat | SwStart | SwStartAsync | SwStop | SwStopIo | SwStopNotify

definition sw_start :: "sw_system \<Rightarrow> sw_system" where
  "sw_start s =
     (if m_is_worker_started (sw_worker s) then s
      else s\<lparr>sw_worker := (sw_worker s)\<lparr>m_is_worker_started := True\<rparr>, sw_starting := True\<rparr>)"

fun sw_act :: "sw_action \<Rightarrow> sw_system \<Rightarrow> sw_system option" where
  "sw_act (SwThread throws) s = sw_thread_step throws (sw_thread s) s"
| "sw_act SwNotify s = Some (s\<lparr>sw_worker := sw_notify (sw_worker s), sw_notified := True\<rparr>)"
| "sw_act (SwPost h) s = Some (s\<lparr>sw_worker := post_handler h (sw_worker s)\<rparr>)"
| "sw_act SwStart s = (if sw_stop s = StopNone then Some (sw_start s) else None)"
| "sw_act SwStartAsync s =
     (if sw_starting s
      then Some (s\<lparr>sw_worker := (sw_worker s)\<lparr>m_future := True\<rparr>, sw_thread := SwLoop, sw_starting := False\<rparr>)
      else None)"
| "sw_act SwStop s =
     (if sw_stop s \<noteq> StopNone then None
      else if \<not> m_future (sw_worker s) then Some s
      else Some (s\<lparr>sw_worker := (sw_worker s)\<lparr>m_shutdown := True\<rparr>, sw_stop := StopFlagged\<rparr>))"
| "sw_act SwStopIo s =
     (if sw_stop s = StopFlagged
      then Some (s\<lparr>sw_worker := (sw_worker s)\<lparr>io_stopped := True\<rparr>, sw_stop := StopIo\<rparr>) else None)"
| "sw_act SwStopNotify s =
     (if sw_stop s = StopIo
      then Some (s\<lparr>sw_worker := sw_notify (sw_worker s), sw_stop := StopWaiting, sw_notified := True\<rparr>) else None)"

definition sw_init :: sw_system where
  "sw_init = \<lparr>sw_worker = SimpleWebSocketWorker_init, sw_thread = SwNone, sw_stop = StopNone, sw_starting = False,
     sw_executed = [], sw_notified = False, sw_thrown = False\<rparr>"

fun sw_run :: "sw_action list \<Rightarrow> sw_system \<Rightarrow> sw_system option" where
  "sw_run [] s = Some s"
| "sw_run (a # as) s = (case sw_act a s of None \<Rightarrow> None | Some s' \<Rightarrow> sw_run as s')"

inductive sw_reachable :: "sw_system \<Rightarrow> bool" where
  sw_reach_init: "sw_reachable sw_init"
| sw_reach_act: "sw_reachable s \<Longrightarrow> sw_act a s = Some s' \<Longrightarrow> sw_reachable s'"

lemma sw_run_reachable: "sw_reachable s \<Longrightarrow> sw_run as s = Some s' \<Longrightarrow> sw_reachable s'"
  by (induction as arbitrary: s) (auto split: option.splits intro: sw_reach_act)

section \<open>The invariant\<close>

definition sw_inv :: "sw_system \<Rightarrow> bool" where
  "sw_inv s \<longleftrightarrow>
     (let w = sw_worker s; pc = sw_thread s in
      (sw_stop s \<noteq> StopNone \<longleftrightarrow> m_shutdown w) \<and>
      (sw_stop s \<noteq> StopNone \<longrightarrow> pc \<noteq> SwNone) \<and>
      (pc \<in> {SwNone, SwDone} \<or> m_future w) \<and> (m_future w \<longrightarrow> pc \<noteq> SwNone) \<and>
      (sw_starting s \<longrightarrow> pc = SwNone \<and> m_is_worker_started w \<and> \<not> m_future w) \<and>
      (m_future w \<longrightarrow> m_is_worker_started w) \<and>
      (sw_stop s = StopWaiting \<and> pc = SwWait \<longrightarrow> m_notify w) \<and>
      (sw_stop s \<in> {StopIo, StopWaiting} \<and> pc \<in> {SwWait, SwRun} \<longrightarrow> io_stopped w) \<and>
      (pc \<in> {SwGuard, SwDone} \<longrightarrow> m_shutdown w) \<and>
      (m_work_guard w \<longleftrightarrow> pc \<noteq> SwDone) \<and>
      (\<not> sw_thrown s \<and> \<not> m_shutdown w \<longrightarrow>
         \<not> io_stopped w \<and> pc \<in> {SwNone, SwLoop, SwWait, SwRun} \<and> (pc \<noteq> SwRun \<and> sw_notified s \<longrightarrow> m_notify w)))"

lemma sw_inv_init: "sw_inv sw_init"
  by (simp add: sw_inv_def sw_init_def SimpleWebSocketWorker_init_def)

lemmas sw_inv_defs = sw_inv_def Let_def sw_on_def sw_run_handlers_def sw_notify_def post_handler_def sw_start_def

lemma sw_thread_inv:
  assumes "sw_inv s" "sw_thread_step throws (sw_thread s) s = Some s'"
  shows "sw_inv s'"
proof (cases "sw_thread s")
  case SwRun
  show ?thesis
  proof (cases "io_stopped (sw_worker s)")
    case True
    with SwRun assms show ?thesis by (clarsimp simp: sw_inv_defs)
  next
    case False
    with SwRun assms show ?thesis by (clarsimp simp: sw_inv_defs split: list.splits)
  qed
next
  case SwLoop
  with assms show ?thesis by (cases "m_shutdown (sw_worker s)"; clarsimp simp: sw_inv_defs)
next
  case SwCheck
  with assms show ?thesis by (cases "m_shutdown (sw_worker s)"; clarsimp simp: sw_inv_defs)
next
  case SwWait
  with assms show ?thesis by (cases "m_notify (sw_worker s)"; clarsimp simp: sw_inv_defs)
qed (use assms in \<open>clarsimp simp: sw_inv_defs\<close>)+

lemma sw_act_inv:
  assumes "sw_inv s" "sw_act a s = Some s'"
  shows "sw_inv s'"
proof (cases a)
  case (SwThread throws)
  with assms sw_thread_inv show ?thesis by simp
next
  case SwStart
  with assms show ?thesis by (cases "m_is_worker_started (sw_worker s)"; clarsimp simp: sw_inv_defs split: if_splits)
next
  case SwStop
  with assms show ?thesis by (cases "m_future (sw_worker s)"; clarsimp simp: sw_inv_defs split: if_splits)
qed (use assms in \<open>clarsimp simp: sw_inv_defs split: if_splits\<close>)+

lemma sw_reachable_inv: "sw_reachable s \<Longrightarrow> sw_inv s"
  by (induction rule: sw_reachable.induct) (auto simp: sw_inv_init intro: sw_act_inv)

section \<open>Stopping\<close>

fun is_thread :: "sw_action \<Rightarrow> bool" where
  "is_thread (SwThread _) = True"
| "is_thread _ = False"

fun sw_rank :: "sw_pc \<Rightarrow> nat" where
  "sw_rank SwWait = 6"
| "sw_rank SwRun = 5"
| "sw_rank SwCheck = 4"
| "sw_rank SwRestart = 3"
| "sw_rank SwLoop = 2"
| "sw_rank SwGuard = 1"
| "sw_rank _ = 0"

text \<open>Once \<open>stop\<close> waits, the thread is never blocked, every step of it brings it nearer to its end, and it
  runs no handler any more.\<close>

lemma stopping_thread:
  assumes "sw_inv s" "sw_stop s = StopWaiting"
  shows "sw_thread s = SwDone \<or> (\<exists>s'. sw_act (SwThread throws) s = Some s')"
    and "sw_act (SwThread throws) s = Some s' \<Longrightarrow>
      sw_rank (sw_thread s') < sw_rank (sw_thread s) \<and> sw_stop s' = StopWaiting \<and> sw_executed s' = sw_executed s"
  using assms by (cases "sw_thread s"; clarsimp simp: sw_inv_defs)+

lemma stopping_other:
  assumes "sw_inv s" "sw_stop s = StopWaiting" "\<not> is_thread a" "sw_act a s = Some s'"
  shows "sw_thread s' = sw_thread s \<and> sw_stop s' = StopWaiting \<and> sw_executed s' = sw_executed s"
  using assms by (cases a; clarsimp simp: sw_inv_defs split: if_splits)

lemma stopping_run:
  assumes "sw_run as s = Some s'" "sw_inv s" "sw_stop s = StopWaiting"
  shows "length (filter is_thread as) + sw_rank (sw_thread s') \<le> sw_rank (sw_thread s) \<and> sw_inv s' \<and>
    sw_stop s' = StopWaiting \<and> sw_executed s' = sw_executed s"
  using assms
proof (induction as arbitrary: s)
  case (Cons a as)
  then obtain s1 where a: "sw_act a s = Some s1" "sw_run as s1 = Some s'" by (auto split: option.splits)
  have 1: "sw_rank (sw_thread s1) + of_bool (is_thread a) \<le> sw_rank (sw_thread s) \<and> sw_stop s1 = StopWaiting \<and> sw_executed s1 = sw_executed s"
  proof (cases "is_thread a")
    case True
    then obtain t where "a = SwThread t" by (cases a) auto
    with stopping_thread(2) [OF Cons.prems(2,3), of t s1] a(1) show ?thesis by simp
  qed (use stopping_other [OF Cons.prems(2,3) _ a(1)] in simp)
  with Cons.IH [OF a(2) sw_act_inv [OF Cons.prems(2) a(1)]] show ?case by (auto split: if_splits)
qed simp

text \<open>
  C34: \<open>stop\<close> of the transport worker ends its thread. From the moment \<open>stop\<close> waits for the thread, in whatever
  state the thread then is and whatever the other threads do, the thread is never blocked and has ended after at
  most six of its steps; it executes no handler in this time, and releases the work guard.
\<close>

theorem transport_worker_stops:
  assumes "sw_reachable s" "sw_stop s = StopWaiting" "sw_run as s = Some s'"
  shows "length (filter is_thread as) \<le> 6 \<and> sw_executed s' = sw_executed s \<and>
    (if sw_thread s' = SwDone then \<not> m_work_guard (sw_worker s') else \<forall>throws. sw_act (SwThread throws) s' \<noteq> None)"
proof -
  note r = stopping_run [OF assms(3) sw_reachable_inv [OF assms(1)] assms(2)]
  moreover have "sw_rank pc \<le> 6" for pc by (cases pc) simp_all
  then have "sw_rank (sw_thread s) \<le> 6" .
  moreover have "sw_thread s' = SwDone \<Longrightarrow> \<not> m_work_guard (sw_worker s')" using r by (simp add: sw_inv_def Let_def)
  moreover have "sw_thread s' \<noteq> SwDone \<Longrightarrow> sw_act (SwThread t) s' \<noteq> None" for t
    using stopping_thread(1) [of s' t] r by auto
  ultimately show ?thesis by auto
qed

text \<open>The state after a run from the start; the initial one if the run is not possible.\<close>

definition sw_state :: "sw_action list \<Rightarrow> sw_system" where
  "sw_state as = (case sw_run as sw_init of None \<Rightarrow> sw_init | Some s \<Rightarrow> s)"

lemma sw_state_reachable: "sw_reachable (sw_state as)"
  by (auto simp: sw_state_def split: option.split intro: sw_reach_init sw_run_reachable [OF sw_reach_init])

definition sw_demo :: "sw_action list" where
  "sw_demo = [SwStart, SwStartAsync, SwNotify, SwThread False, SwThread False, SwPost 3, SwThread False, SwPost 4,
     SwStop, SwStopIo, SwStopNotify]"

theorem transport_worker_stops_witness:
  "\<exists>s'. sw_run (replicate 3 (SwThread False)) (sw_state sw_demo) = Some s' \<and> \<not> m_work_guard (sw_worker s')"
proof -
  have c: "sw_stop (sw_state sw_demo) = StopWaiting" by code_simp
  have "case sw_run (replicate 3 (SwThread False)) (sw_state sw_demo) of None \<Rightarrow> False | Some s \<Rightarrow> sw_thread s = SwDone" by code_simp
  then obtain s' where r: "sw_run (replicate 3 (SwThread False)) (sw_state sw_demo) = Some s'" "sw_thread s' = SwDone"
    by (cases "sw_run (replicate 3 (SwThread False)) (sw_state sw_demo)") simp_all
  from transport_worker_stops [OF sw_state_reachable c r(1)] r show ?thesis by simp
qed

section \<open>Sleeping\<close>

text \<open>
  As long as no handler throws, the transport worker serves its connections: once it has been notified it
  can always take a step while handlers are waiting and it is not shut down. An exception of
  a handler ends \<open>run\<close>, and the thread goes back to waiting for a notification: then handlers of all connections
  can wait although the worker was notified and is not shut down, and the thread cannot take a step.
\<close>

theorem transport_worker_sleep:
  assumes "sw_reachable s" "sw_notified s" "sw_thread s \<noteq> SwNone" "\<not> m_shutdown (sw_worker s)" "io_handlers (sw_worker s) \<noteq> []"
  shows "(\<not> sw_thrown s \<longrightarrow> (\<forall>throws. sw_act (SwThread throws) s \<noteq> None)) \<and>
    (\<exists>s2. sw_reachable s2 \<and> sw_notified s2 \<and> sw_thread s2 \<noteq> SwNone \<and> \<not> m_shutdown (sw_worker s2) \<and>
       io_handlers (sw_worker s2) \<noteq> [] \<and> (\<forall>throws. sw_act (SwThread throws) s2 = None))"
proof
  show "\<not> sw_thrown s \<longrightarrow> (\<forall>throws. sw_act (SwThread throws) s \<noteq> None)"
    using sw_reachable_inv [OF assms(1)] assms(2-) by (cases "sw_thread s"; clarsimp simp: sw_inv_defs split: list.splits)
  let ?s = "sw_state [SwStart, SwStartAsync, SwNotify, SwPost 1, SwPost 2, SwThread False, SwThread False, SwThread True,
      SwThread False, SwThread False, SwThread False]"
  have "sw_notified ?s" "sw_thread ?s = SwWait" "\<not> m_shutdown (sw_worker ?s)" "io_handlers (sw_worker ?s) \<noteq> []" "\<not> m_notify (sw_worker ?s)"
    by code_simp+
  then show "\<exists>s2. sw_reachable s2 \<and> sw_notified s2 \<and> sw_thread s2 \<noteq> SwNone \<and> \<not> m_shutdown (sw_worker s2) \<and>
       io_handlers (sw_worker s2) \<noteq> [] \<and> (\<forall>throws. sw_act (SwThread throws) s2 = None)"
    using sw_state_reachable by (intro exI [of _ ?s]) auto
qed

theorem transport_worker_sleep_witness:
  "\<exists>s2. sw_reachable s2 \<and> sw_notified s2 \<and> io_handlers (sw_worker s2) \<noteq> [] \<and> (\<forall>throws. sw_act (SwThread throws) s2 = None)"
proof -
  let ?s = "sw_state [SwStart, SwStartAsync, SwNotify, SwPost 1]"
  have "sw_notified ?s" "sw_thread ?s = SwLoop" "\<not> m_shutdown (sw_worker ?s)" "io_handlers (sw_worker ?s) \<noteq> []" by code_simp+
  with transport_worker_sleep [OF sw_state_reachable, of "[SwStart, SwStartAsync, SwNotify, SwPost 1]"] show ?thesis by fastforce
qed

end
