(* ===== verification/Web_Socket_Tls.thy ===== *)
theory Web_Socket_Tls
  imports Kurlyk_Strings
begin

text \<open>
  \<^verbatim>\<open>websocket/client/SimpleWeb/SocketClient.hpp\<close>: the TLS client \<open>SocketClient<WSS>\<close>, which replaces the one of
  Simple-WebSocket-Server. The constructor is the sequence of calls it makes on the \<open>ssl::context\<close>, any of
  which can throw; \<open>connect\<close> is the chain of its asynchronous operations, one step for each completion handler.

  Asio is what the handlers receive: whether \<open>continue_lock\<close> was obtained, the error code, and for the reply of
  a proxy what \<open>ResponseMessage::parse\<close> made of it. \<open>parse_host_port\<close> and \<open>Crypto::Base64::encode\<close> of
  Simple-WebSocket-Server are arguments; \<open>upgrade\<close> and \<open>connection_error\<close> are final phases.
\<close>

section \<open>The TLS context\<close>

datatype ssl_call =
    TlsClient | TlsV12
  | NoTlsV1 | NoTlsV1_1
  | UseCertificateChainFile string
  | UsePrivateKeyFile string
  | HostNameVerification string
  | Rfc2818Verification string
  | LoadVerifyFile string
  | SetDefaultVerifyPaths
  | AddCertificates "nat list"
  | VerifyPeer | VerifyNone

text \<open>The platform: Windows with what its certificate store enumerates, \<open>None\<close> when it cannot be opened, or
  another system. A certificate OpenSSL cannot parse is skipped.\<close>

datatype platform = Windows "nat option list option" | Unix

definition add_root_certificates :: "platform \<Rightarrow> ssl_call list" where
  "add_root_certificates p =
     (case p of
        Windows None \<Rightarrow> []
      | Windows (Some certs) \<Rightarrow> [AddCertificates (concat (map (\<lambda>c. case c of None \<Rightarrow> [] | Some x \<Rightarrow> [x]) certs))]
      | Unix \<Rightarrow> [SetDefaultVerifyPaths])"

definition ssl_calls :: "bool \<Rightarrow> platform \<Rightarrow> string \<Rightarrow> bool \<Rightarrow> string \<Rightarrow> string \<Rightarrow> string \<Rightarrow> ssl_call list" where
  "ssl_calls new_asio p host verify_certificate certification_file private_key_file verify_file =
     (if new_asio then [TlsClient, NoTlsV1, NoTlsV1_1] else [TlsV12]) @
     (if certification_file \<noteq> [] \<and> private_key_file \<noteq> []
      then [UseCertificateChainFile certification_file, UsePrivateKeyFile private_key_file] else []) @
     (if verify_certificate then [if new_asio then HostNameVerification host else Rfc2818Verification host] else []) @
     (if verify_file \<noteq> [] then [LoadVerifyFile verify_file] else add_root_certificates p) @
     (if verify_certificate then [VerifyPeer] else [VerifyNone])"

text \<open>\<open>None\<close> when a call throws and the object is not constructed.\<close>

definition SocketClient_new ::
    "(ssl_call \<Rightarrow> bool) \<Rightarrow> bool \<Rightarrow> platform \<Rightarrow> string \<Rightarrow> bool \<Rightarrow> string \<Rightarrow> string \<Rightarrow> string \<Rightarrow> ssl_call list option" where
  "SocketClient_new succeeds new_asio p host verify_certificate certification_file private_key_file verify_file =
     (let calls = ssl_calls new_asio p host verify_certificate certification_file private_key_file verify_file
      in if list_all succeeds calls then Some calls else None)"

section \<open>Connecting\<close>

record wss_client =
  sc_host :: string
  sc_port :: nat
  sc_proxy_server :: string
  sc_proxy_auth :: string

datatype wss_error = AsioError int | ProtocolError | PermissionDenied

datatype wss_phase =
    PhResolve | PhConnect | PhProxyWrite | PhProxyRead | PhHandshake
  | PhUpgrade | PhError wss_error | PhAbandoned

record wss_connection =
  cn_phase :: wss_phase
  cn_timeout :: bool
  cn_target :: "string \<times> string"
  cn_written :: string
  cn_sni :: string

record asio_result =
  ar_continue :: bool
  ar_error :: "int option"
  ar_reply :: "string option"

definition proxy_request :: "(string \<Rightarrow> string) \<Rightarrow> wss_client \<Rightarrow> string" where
  "proxy_request base64 c =
     (let host_port = sc_host c @ '':'' @ nat_digits (sc_port c)
      in ''CONNECT '' @ host_port @ '' HTTP/1.1'' @ [CHR 0x0D, CHR 0x0A] @ ''Host: '' @ host_port @ [CHR 0x0D, CHR 0x0A] @
         (if sc_proxy_auth c \<noteq> [] then ''Proxy-Authorization: Basic '' @ base64 (sc_proxy_auth c) @ [CHR 0x0D, CHR 0x0A] else []) @
         [CHR 0x0D, CHR 0x0A])"

definition wss_connect :: "(string \<Rightarrow> nat \<Rightarrow> string \<times> nat) \<Rightarrow> wss_client \<Rightarrow> wss_connection" where
  "wss_connect parse_host_port c =
     \<lparr>cn_phase = PhResolve, cn_timeout = True,
      cn_target = (if sc_proxy_server c = [] then (sc_host c, nat_digits (sc_port c))
                   else let (h, p) = parse_host_port (sc_proxy_server c) 8080 in (h, nat_digits p)),
      cn_written = [], cn_sni = []\<rparr>"

text \<open>An operation is started with the timeout armed, and its handler cancels it first.\<close>

definition wss_next :: "wss_phase \<Rightarrow> wss_connection \<Rightarrow> wss_connection" where
  "wss_next ph n = n\<lparr>cn_phase := ph, cn_timeout := True\<rparr>"

definition wss_end :: "wss_phase \<Rightarrow> wss_connection \<Rightarrow> wss_connection" where
  "wss_end ph n = n\<lparr>cn_phase := ph, cn_timeout := False\<rparr>"

definition wss_handshake :: "wss_client \<Rightarrow> wss_connection \<Rightarrow> wss_connection" where
  "wss_handshake c n = wss_next PhHandshake (n\<lparr>cn_sni := sc_host c\<rparr>)"

definition proxy_reply :: "wss_client \<Rightarrow> string option \<Rightarrow> wss_connection \<Rightarrow> wss_connection" where
  "proxy_reply c reply n =
     (case reply of
        None \<Rightarrow> wss_end (PhError ProtocolError) n
      | Some status \<Rightarrow>
          if substr status 0 3 \<noteq> ''200'' then wss_end (PhError PermissionDenied) n else wss_handshake c n)"

definition wss_success :: "(string \<Rightarrow> string) \<Rightarrow> wss_client \<Rightarrow> string option \<Rightarrow> wss_connection \<Rightarrow> wss_connection" where
  "wss_success base64 c reply n =
     (case cn_phase n of
        PhResolve \<Rightarrow> wss_next PhConnect n
      | PhConnect \<Rightarrow>
          if sc_proxy_server c \<noteq> [] then wss_next PhProxyWrite (n\<lparr>cn_written := proxy_request base64 c\<rparr>)
          else wss_handshake c n
      | PhProxyWrite \<Rightarrow> wss_next PhProxyRead n
      | PhProxyRead \<Rightarrow> proxy_reply c reply n
      | PhHandshake \<Rightarrow> wss_end PhUpgrade n
      | _ \<Rightarrow> n)"

fun wss_final :: "wss_phase \<Rightarrow> bool" where
  "wss_final PhUpgrade = True"
| "wss_final (PhError _) = True"
| "wss_final PhAbandoned = True"
| "wss_final _ = False"

text \<open>A completion handler.\<close>

definition wss_handler :: "(string \<Rightarrow> string) \<Rightarrow> wss_client \<Rightarrow> asio_result \<Rightarrow> wss_connection \<Rightarrow> wss_connection" where
  "wss_handler base64 c r n =
     (if wss_final (cn_phase n) then n
      else if \<not> ar_continue r then wss_end PhAbandoned n
      else case ar_error r of
        None \<Rightarrow> wss_success base64 c (ar_reply r) n
      | Some e \<Rightarrow> wss_end (PhError (AsioError e)) n)"

definition wss_run :: "(string \<Rightarrow> string) \<Rightarrow> (string \<Rightarrow> nat \<Rightarrow> string \<times> nat) \<Rightarrow> wss_client \<Rightarrow> asio_result list \<Rightarrow> wss_connection" where
  "wss_run base64 parse_host_port c rs = fold (wss_handler base64 c) rs (wss_connect parse_host_port c)"

section \<open>Properties\<close>

lemma ssl_verification:
  assumes "SocketClient_new succeeds new_asio p host verify cert key file = Some calls"
  shows "(VerifyPeer \<in> set calls \<longleftrightarrow> verify) \<and> (VerifyNone \<in> set calls \<longleftrightarrow> \<not> verify) \<and>
    (verify \<longleftrightarrow> HostNameVerification host \<in> set calls \<or> Rfc2818Verification host \<in> set calls) \<and>
    (UseCertificateChainFile f \<in> set calls \<longrightarrow> f = cert \<and> UsePrivateKeyFile key \<in> set calls) \<and>
    (file \<noteq> [] \<longrightarrow> LoadVerifyFile file \<in> set calls \<and> SetDefaultVerifyPaths \<notin> set calls) \<and>
    (TlsV12 \<in> set calls \<or> {NoTlsV1, NoTlsV1_1} \<subseteq> set calls)"
proof -
  have c: "calls = ssl_calls new_asio p host verify cert key file"
    using assms by (simp add: SocketClient_new_def Let_def split: if_splits)
  have r: "x \<in> set (add_root_certificates p) \<Longrightarrow> x = SetDefaultVerifyPaths \<or> (\<exists>ns. x = AddCertificates ns)" for x
    by (auto simp: add_root_certificates_def split: platform.splits option.splits)
  show ?thesis unfolding c ssl_calls_def by (auto dest!: r)
qed

text \<open>Where a connection is: what has happened, and how many handlers are left at most.\<close>

fun wss_left :: "wss_phase \<Rightarrow> nat" where
  "wss_left PhResolve = 5"
| "wss_left PhConnect = 4"
| "wss_left PhProxyWrite = 3"
| "wss_left PhProxyRead = 2"
| "wss_left PhHandshake = 1"
| "wss_left _ = 0"

definition wss_inv :: "(string \<Rightarrow> string) \<Rightarrow> wss_client \<Rightarrow> string \<times> string \<Rightarrow> asio_result list \<Rightarrow> wss_connection \<Rightarrow> bool" where
  "wss_inv base64 c target rs n \<longleftrightarrow>
     cn_target n = target \<and> (cn_timeout n \<longleftrightarrow> \<not> wss_final (cn_phase n)) \<and>
     (wss_final (cn_phase n) \<or> length rs + wss_left (cn_phase n) \<le> 5) \<and>
     (cn_phase n \<in> {PhProxyWrite, PhProxyRead} \<longrightarrow> sc_proxy_server c \<noteq> []) \<and>
     (cn_phase n \<in> {PhProxyWrite, PhProxyRead, PhHandshake, PhUpgrade} \<and> sc_proxy_server c \<noteq> [] \<longrightarrow>
        cn_written n = proxy_request base64 c) \<and>
     (cn_phase n \<in> {PhHandshake, PhUpgrade} \<longrightarrow>
        cn_sni n = sc_host c \<and>
        (sc_proxy_server c \<noteq> [] \<longrightarrow> (\<exists>r \<in> set rs. \<exists>s. ar_reply r = Some s \<and> substr s 0 3 = ''200'' \<and> ar_error r = None)))"

lemmas wss_defs = wss_inv_def wss_handler_def wss_success_def wss_next_def wss_end_def wss_handshake_def proxy_reply_def

lemma wss_inv_step:
  assumes "wss_inv base64 c target rs n"
  shows "wss_inv base64 c target (rs @ [r]) (wss_handler base64 c r n)"
proof (cases "wss_final (cn_phase n) \<or> \<not> ar_continue r \<or> ar_error r \<noteq> None")
  case True
  then show ?thesis using assms by (cases "cn_phase n") (auto simp: wss_defs split: option.split)
next
  case False
  with assms show ?thesis
    by (cases "cn_phase n") (auto simp: wss_defs split: option.split if_splits)
qed

lemma wss_run_inv: "wss_inv base64 c (cn_target (wss_connect parse_host_port c)) rs (wss_run base64 parse_host_port c rs)"
proof (induction rs rule: rev_induct)
  case Nil
  show ?case by (simp add: wss_run_def wss_inv_def wss_connect_def)
next
  case (snoc r rs)
  from wss_inv_step [OF this, of r] show ?case by (simp add: wss_run_def)
qed


definition ok_reply :: asio_result where
  "ok_reply = \<lparr>ar_continue = True, ar_error = None, ar_reply = Some ''200 OK''\<rparr>"


end
