(* ===== verification/Web_Socket_Adapter.thy ===== *)
theory Web_Socket_Adapter
  imports Web_Socket_Client Web_Socket_Tls
begin

text \<open>
  \<^verbatim>\<open>websocket/client/SimpleWeb/SimpleWebSocketClientAdapter.hpp\<close>: the transport of a WebSocket client on
  Simple-WebSocket-Server. The adapter holds a plain or a TLS client and, once it is open, its connection.

  The classes \<open>SocketClient\<close> and \<open>Connection\<close> of Simple-WebSocket-Server are records of the members the adapter
  sets or reads. Creating and starting a client can throw, which \<open>init_websocket\<close> turns into \<open>false\<close>; \<open>init_failure\<close>
  says where. A message the adapter has given to a connection is outstanding until the library calls its
  handler. The handlers of a client run only while the adapter owns it, since its destructor stops them. The
  constructor and \<open>init_client\<close> also call \<open>start\<close> and \<open>notify\<close> of the transport worker, which are steps of
  \<open>Simple_Web_Worker\<close> and change nothing here.
\<close>

section \<open>Data\<close>

record simple_client =
  sl_server_port_path :: string
  sl_tls :: "(bool \<times> string \<times> string \<times> string) option"
  sl_timeout_idle :: int
  sl_timeout_request :: int
  sl_header :: Headers
  sl_proxy_server :: string
  sl_proxy_auth :: string
  sl_started :: bool

record simple_connection =
  sn_http_version :: string
  sn_status_code :: string
  sn_header :: Headers
  sn_address :: string
  sn_port :: int

record ws_adapter =
  ad_io_context :: bool
  ad_ws_client :: "simple_client option"
  ad_wss_client :: "simple_client option"
  ad_ws_connection :: "simple_connection option"
  ad_wss_connection :: "simple_connection option"
  ad_outstanding :: "(bool \<times> WebSocketSendInfo) list"
  ad_calls :: "(error_code \<times> cb) list"

definition ws_adapter_init :: ws_adapter where
  "ws_adapter_init =
     \<lparr>ad_io_context = True, ad_ws_client = None, ad_wss_client = None, ad_ws_connection = None,
      ad_wss_connection = None, ad_outstanding = [], ad_calls = []\<rparr>"

section \<open>Queries\<close>

definition ad_connection :: "ws_adapter \<Rightarrow> simple_connection option" where
  "ad_connection a = (case ad_wss_connection a of Some n \<Rightarrow> Some n | None \<Rightarrow> ad_ws_connection a)"

definition get_http_version :: "ws_adapter \<Rightarrow> string" where
  "get_http_version a = (case ad_connection a of Some n \<Rightarrow> sn_http_version n | None \<Rightarrow> [])"

definition copy_headers :: "Headers \<Rightarrow> Headers" where
  "copy_headers src = fold (\<lambda>(k, v) dst. multimap_emplace k v dst) src []"

definition get_headers :: "ws_adapter \<Rightarrow> Headers" where
  "get_headers a = (case ad_connection a of Some n \<Rightarrow> copy_headers (sn_header n) | None \<Rightarrow> [])"

definition endpoint_to_string :: "simple_connection \<Rightarrow> string" where
  "endpoint_to_string n = sn_address n @ '':'' @ to_string (sn_port n)"

definition get_remote_endpoint :: "ws_adapter \<Rightarrow> string" where
  "get_remote_endpoint a = (case ad_connection a of Some n \<Rightarrow> endpoint_to_string n | None \<Rightarrow> [])"

section \<open>Connecting\<close>

datatype init_failure = CreateThrows | StartThrows

definition set_client :: "bool \<Rightarrow> simple_client \<Rightarrow> ws_adapter \<Rightarrow> ws_adapter" where
  "set_client wss c a = (if wss then a\<lparr>ad_wss_client := Some c\<rparr> else a\<lparr>ad_ws_client := Some c\<rparr>)"

text \<open>\<open>create_client\<close> drops a client of the other kind before it constructs the new one.\<close>

definition create_ws_client :: "init_failure option \<Rightarrow> bool \<Rightarrow> WebSocketConfig \<Rightarrow> ws_adapter \<Rightarrow> ws_adapter \<times> simple_client option" where
  "create_ws_client failure wss cfg a =
     (let a1 = (if wss then a\<lparr>ad_ws_client := None\<rparr> else a\<lparr>ad_wss_client := None\<rparr>);
          c = \<lparr>sl_server_port_path = remove_ws_prefix (wc_url cfg),
               sl_tls = (if wss then Some (wc_verify_cert cfg, wc_cert_file cfg, wc_key_file cfg, wc_ca_file cfg) else None),
               sl_timeout_idle = 0, sl_timeout_request = 0, sl_header = [], sl_proxy_server = [], sl_proxy_auth = [],
               sl_started = False\<rparr>
      in if failure = Some CreateThrows then (a1, None) else (set_client wss c a1, Some c))"

definition insert_default :: "string \<Rightarrow> string \<Rightarrow> Headers \<Rightarrow> Headers \<Rightarrow> Headers" where
  "insert_default name v given hs =
     (if v \<noteq> [] \<and> multimap_find given name = None then multimap_emplace name v hs else hs)"

definition configure_client :: "WebSocketConfig \<Rightarrow> simple_client \<Rightarrow> simple_client" where
  "configure_client cfg c =
     (let given = wc_headers cfg;
          h0 = (if given \<noteq> [] then copy_headers given else sl_header c);
          h1 = insert_default ''User-Agent'' (wc_user_agent cfg) given h0;
          h2 = insert_default ''Accept-Encoding'' (wc_accept_encoding cfg) given h1;
          h3 = insert_default ''Cookie'' (wc_cookie cfg) given h2
      in c\<lparr>sl_timeout_idle := wc_idle_timeout cfg, sl_timeout_request := wc_request_timeout cfg, sl_header := h3,
           sl_proxy_server := (if wc_proxy_server cfg \<noteq> [] then wc_proxy_server cfg else sl_proxy_server c),
           sl_proxy_auth := (if wc_proxy_auth cfg \<noteq> [] then wc_proxy_auth cfg else sl_proxy_auth c)\<rparr>)"

text \<open>The Boolean is \<open>False\<close> when an exception leaves the function. The client is shared with the member, so that a
  client whose \<open>start\<close> throws stays there, configured.\<close>

definition init_client :: "init_failure option \<Rightarrow> bool \<Rightarrow> WebSocketConfig \<Rightarrow> ws_adapter \<Rightarrow> ws_adapter \<times> bool" where
  "init_client failure wss cfg a =
     (case create_ws_client failure wss cfg a of
        (a1, None) \<Rightarrow> (a1, False)
      | (a1, Some c) \<Rightarrow>
          let c1 = configure_client cfg c
          in if failure = Some StartThrows then (set_client wss c1 a1, False)
             else (set_client wss (c1\<lparr>sl_started := True\<rparr>) a1, True))"

definition adapter_init_websocket :: "init_failure option \<Rightarrow> WebSocketConfig option \<Rightarrow> ws_adapter \<Rightarrow> ws_adapter \<times> bool" where
  "adapter_init_websocket failure config a =
     (case config of
        None \<Rightarrow> (a, False)
      | Some cfg \<Rightarrow>
          if \<not> ad_io_context a \<or> length (wc_url cfg) < 6 then (a, False)
          else
            let protocol = extract_protocol (wc_url cfg)
            in if protocol \<noteq> ''wss'' \<and> protocol \<noteq> ''ws'' then (a, False)
               else init_client failure (protocol = ''wss'') cfg a)"

definition adapter_deinit_websocket :: "ws_adapter \<Rightarrow> ws_adapter" where
  "adapter_deinit_websocket a =
     a\<lparr>ad_wss_client := None, ad_ws_client := None, ad_ws_connection := None, ad_wss_connection := None\<rparr>"

section \<open>Events\<close>

definition init_connection :: "bool \<Rightarrow> simple_connection \<Rightarrow> ws_adapter \<Rightarrow> ws_adapter" where
  "init_connection wss n a = (if wss then a\<lparr>ad_wss_connection := Some n\<rparr> else a\<lparr>ad_ws_connection := Some n\<rparr>)"

text \<open>\<open>SimpleWeb::status_code\<close> is the argument \<open>status_code_of\<close>.\<close>

definition create_websocket_open_event :: "(string \<Rightarrow> int) \<Rightarrow> simple_connection \<Rightarrow> WebSocketEventData" where
  "create_websocket_open_event status_code_of n =
     create_websocket_event\<lparr>event_type := WS_OPEN, ev_status_code := status_code_of (sn_status_code n)\<rparr>"

definition create_websocket_message_event :: "string \<Rightarrow> WebSocketEventData" where
  "create_websocket_message_event message = create_websocket_event\<lparr>event_type := WS_MESSAGE, ev_message := message\<rparr>"

definition on_open ::
    "(string \<Rightarrow> int) \<Rightarrow> bool \<Rightarrow> simple_connection \<Rightarrow> ws_adapter \<times> BaseWebSocketClient \<Rightarrow> ws_adapter \<times> BaseWebSocketClient" where
  "on_open status_code_of wss n = map_prod (init_connection wss n)
     (add_fsm_event ConnectionOpened (Some (create_websocket_open_event status_code_of n)))"

definition on_message :: "string \<Rightarrow> BaseWebSocketClient \<Rightarrow> BaseWebSocketClient" where
  "on_message message = add_fsm_event MessageReceived (Some (create_websocket_message_event message))"

definition on_close :: "int \<Rightarrow> string \<Rightarrow> BaseWebSocketClient \<Rightarrow> BaseWebSocketClient" where
  "on_close status reason = add_fsm_event ConnectionClosed (Some (create_websocket_close_event reason status))"

definition on_error :: "error_code \<Rightarrow> BaseWebSocketClient \<Rightarrow> BaseWebSocketClient" where
  "on_error ec = add_fsm_event ConnectionError (Some (create_websocket_error_event ec))"

section \<open>Sending\<close>

text \<open>\<open>send_message\<close> and \<open>send_close\<close>: without a connection the callback is called at once, with one the
  library calls back later.\<close>

definition adapter_send :: "WebSocketSendInfo \<Rightarrow> ws_adapter \<Rightarrow> ws_adapter" where
  "adapter_send i a =
     (if ad_wss_connection a = None \<and> ad_ws_connection a = None
      then (case si_callback i of
              None \<Rightarrow> a
            | Some f \<Rightarrow> a\<lparr>ad_calls := ad_calls a @ [(client_error NotConnected, f)]\<rparr>)
      else a\<lparr>ad_outstanding := ad_outstanding a @ [(ad_wss_connection a \<noteq> None, i)]\<rparr>)"

definition convert_boost_to_std :: "error_code \<Rightarrow> error_code" where
  "convert_boost_to_std ec = error_code (ec_value ec) generic_category"

text \<open>The handler the adapter gives to a connection with a message.\<close>

definition on_sent :: "bool \<Rightarrow> error_code \<Rightarrow> WebSocketSendInfo \<Rightarrow> BaseWebSocketClient \<Rightarrow> BaseWebSocketClient" where
  "on_sent asio_standalone ec i s =
     (case si_callback i of
        None \<Rightarrow> s
      | Some f \<Rightarrow> add_send_callback (if asio_standalone then ec else convert_boost_to_std ec) (Some f) s)"

section \<open>The client on its transport\<close>

text \<open>What the calls of the client, as its log has them, do to the adapter. The configuration is the one of the
  client; \<open>failure\<close> says how a call of \<open>init_websocket\<close> fails that does not succeed.\<close>

fun adapter_act :: "init_failure \<Rightarrow> WebSocketConfig option \<Rightarrow> ws_action \<Rightarrow> ws_adapter \<Rightarrow> ws_adapter" where
  "adapter_act failure cfg (ActInit ok) a = fst (adapter_init_websocket (if ok then None else Some failure) cfg a)"
| "adapter_act failure cfg ActDeinit a = adapter_deinit_websocket a"
| "adapter_act failure cfg (ActSend i) a = adapter_send i a"
| "adapter_act failure cfg (ActSendClose i) a = adapter_send i a"
| "adapter_act failure cfg _ a = a"

text \<open>The entries of a log that concern the transport; the others are calls of the user. Those a step of the client
  adds are the calls the adapter sees.\<close>

fun visible :: "ws_action \<Rightarrow> bool" where
  "visible (ActInit _) = True"
| "visible ActDeinit = True"
| "visible (ActSend _) = True"
| "visible (ActSendClose _) = True"
| "visible (ActSendCallback _ _) = True"
| "visible ActBadFunctionCall = True"
| "visible _ = False"

definition vis :: "BaseWebSocketClient \<Rightarrow> ws_action list" where
  "vis s = filter visible (ws_log s)"

definition new_actions :: "BaseWebSocketClient \<Rightarrow> BaseWebSocketClient \<Rightarrow> ws_action list" where
  "new_actions s s' = drop (length (vis s)) (vis s')"

definition adapter_follows ::
    "init_failure \<Rightarrow> BaseWebSocketClient \<Rightarrow> BaseWebSocketClient \<Rightarrow> ws_adapter \<Rightarrow> ws_adapter" where
  "adapter_follows failure s s' a = fold (adapter_act failure (m_config s')) (new_actions s s') a"

text \<open>The environments in which \<open>init_websocket\<close> is that of the adapter: it fails when a call throws, and
  always on a configuration the adapter rejects.\<close>

definition valid_ws_config :: "WebSocketConfig option \<Rightarrow> bool" where
  "valid_ws_config config =
     (case config of
        None \<Rightarrow> False
      | Some cfg \<Rightarrow> 6 \<le> length (wc_url cfg) \<and> extract_protocol (wc_url cfg) \<in> {''ws'', ''wss''})"

definition adapted :: "ws_env \<Rightarrow> bool" where
  "adapted env \<longleftrightarrow> arrivals env = [] \<and> (\<forall>s. init_websocket_ok env s \<longrightarrow> valid_ws_config (m_config s))"

end
