(* ===== verification/Web_Socket_Adapter_Props.thy ===== *)
theory Web_Socket_Adapter_Props
  imports Web_Socket_Adapter Web_Socket_Guarantees
begin

text \<open>
  The WebSocket client on the adapter of \<open>Web_Socket_Adapter\<close>: the composed system, that it satisfies what the
  model of the client assumes of a transport, and what holds of client and transport together.
\<close>

section \<open>The calls of the transport in a log\<close>

lemma vis_fields [simp]:
  "vis (s\<lparr>m_config := c\<rparr>) = vis s"
  "vis (s\<lparr>m_fsm_event_queue := q\<rparr>) = vis s"
  "vis (s\<lparr>m_is_running := b\<rparr>) = vis s"
  "vis (s\<lparr>m_is_connected := b\<rparr>) = vis s"
  "vis (s\<lparr>m_close_time := t\<rparr>) = vis s"
  "vis (s\<lparr>m_reconnect_attempt := n\<rparr>) = vis s"
  "vis (s\<lparr>null_deref := b\<rparr>) = vis s"
  "vis (goto st s) = vis s"
  "vis (apply_config env cfg s) = vis s"
  "vis (deliver_event d s) = vis s"
  "vis (push_fsm_event e s) = vis s"
  "vis (call_callback e b s) = vis s"
  "vis (deinit_websocket s) = vis s @ [ActDeinit]"
  "vis (log_act (ActInit ok) s) = vis s @ [ActInit ok]"
  by (simp_all add: vis_def goto_def deinit_websocket_def log_act_def deliver_event_def push_fsm_event_def
      apply_config_def call_callback_def split: option.split)

lemma vis_events [simp]:
  "vis (handle_open_event d s) = vis s" "vis (handle_close_event d s) = vis s" "vis (handle_error_event d s) = vis s"
  "vis (handle_message_event d s) = vis s" "vis (handle_error_code ec s) = vis s" "vis (stop_with_error e s) = vis s"
  by (simp_all add: handle_open_event_def handle_close_event_def handle_error_event_def handle_message_event_def
      handle_error_code_def stop_with_error_def Let_def)

text \<open>One call of a state handler: which calls of the transport it makes, depending on the states before and
  after. Every successful \<open>init_websocket\<close> is made with the configuration the client then has.\<close>

fun is_transport :: "ws_action \<Rightarrow> bool" where
  "is_transport (ActInit _) = True"
| "is_transport ActDeinit = True"
| "is_transport _ = False"

definition moved :: "ws_env \<Rightarrow> BaseWebSocketClient \<Rightarrow> BaseWebSocketClient \<Rightarrow> ws_action list \<Rightarrow> bool" where
  "moved env s s' d \<longleftrightarrow>
     vis s' = vis s @ d \<and> list_all is_transport d \<and>
     (ActInit True \<in> set d \<longrightarrow> (\<exists>s0. init_websocket_ok env s0 \<and> m_config s0 = m_config s')) \<and>
     (m_fsm_state s' \<in> {CONNECTING, WORKING} \<longrightarrow>
        d = [] \<and> m_fsm_state s \<in> {CONNECTING, WORKING} \<and> m_config s' = m_config s \<or> d \<noteq> [] \<and> last d = ActInit True) \<and>
     (m_fsm_state s' = RECONNECTING \<longrightarrow> d = [] \<and> m_fsm_state s = RECONNECTING \<or> d = [ActDeinit])"

lemma moved_quiet:
  "vis s' = vis s \<Longrightarrow> m_fsm_state s' = m_fsm_state s \<Longrightarrow> m_config s' = m_config s \<Longrightarrow> moved env s s' []"
  "vis s' = vis s \<Longrightarrow> m_fsm_state s' \<in> {INIT, STOPPED} \<Longrightarrow> moved env s s' []"
  by (auto simp: moved_def)

lemma moved_released: "vis s' = vis s @ [ActDeinit] \<Longrightarrow> m_fsm_state s' \<notin> {CONNECTING, WORKING} \<Longrightarrow> moved env s s' [ActDeinit]"
  by (auto simp: moved_def)

text \<open>What \<open>request_connect\<close> and \<open>update_config\<close> do, in terms of the calls they make.\<close>

definition tried :: "ws_env \<Rightarrow> BaseWebSocketClient \<Rightarrow> BaseWebSocketClient \<Rightarrow> bool" where
  "tried env s s' \<longleftrightarrow>
     vis s' = vis s \<and> m_fsm_state s' = STOPPED \<and> m_config s' = None \<or>
     (\<exists>s0. m_config s0 = m_config s' \<and> vis s' = vis s @ [ActInit (init_websocket_ok env s0)] \<and>
        m_fsm_state s' = (if init_websocket_ok env s0 then CONNECTING else STOPPED))"

lemma request_connect_tried: "tried env s (request_connect env e s)"
proof (cases "m_config s")
  case (Some c)
  show ?thesis unfolding tried_def
    by (rule disjI2, rule exI [of _ s]) (simp add: Some request_connect_def init_websocket_eq stop_with_error_def)
qed (simp add: tried_def request_connect_def stop_with_error_def)

lemma update_config_tried: "tried env s (update_config env e s)"
proof (cases "fe_config_data e")
  case (Some c)
  show ?thesis unfolding tried_def
    by (rule disjI2, rule exI [of _ "(apply_config env c (s\<lparr>m_config := Some c\<rparr>))\<lparr>m_reconnect_attempt := 0\<rparr>"])
      (simp add: Some update_config_def init_websocket_eq stop_with_error_def Let_def)
qed (simp add: tried_def update_config_def stop_with_error_def Let_def)

lemma tried_moved:
  "tried env s s' \<Longrightarrow> \<exists>d. moved env s s' d"
  "tried env s1 s' \<Longrightarrow> vis s1 = vis s @ [ActDeinit] \<Longrightarrow> \<exists>d. moved env s s' d"
proof -
  assume t: "tried env s s'"
  then obtain d where "vis s' = vis s @ d" "d = [] \<and> m_fsm_state s' = STOPPED \<or>
    (\<exists>s0. m_config s0 = m_config s' \<and> d = [ActInit (init_websocket_ok env s0)] \<and> m_fsm_state s' = (if init_websocket_ok env s0 then CONNECTING else STOPPED))"
    unfolding tried_def by fastforce
  then show "\<exists>d. moved env s s' d" by (intro exI [of _ d]) (auto simp: moved_def split: if_splits)
next
  assume t: "tried env s1 s'" "vis s1 = vis s @ [ActDeinit]"
  then obtain d where "vis s' = vis s @ ActDeinit # d" "d = [] \<and> m_fsm_state s' = STOPPED \<or>
    (\<exists>s0. m_config s0 = m_config s' \<and> d = [ActInit (init_websocket_ok env s0)] \<and> m_fsm_state s' = (if init_websocket_ok env s0 then CONNECTING else STOPPED))"
    unfolding tried_def by fastforce
  then show "\<exists>d. moved env s s' d" by (intro exI [of _ "ActDeinit # d"]) (auto simp: moved_def split: if_splits)
qed

lemma lost_moved:
  assumes "m_fsm_state s \<in> {CONNECTING, WORKING}"
  shows "m_config s \<noteq> None \<Longrightarrow> \<exists>d. moved env s (connection_lost env e s) d" "\<exists>d. moved env s (request_disconnect e s) d"
proof -
  show "\<exists>d. moved env s (request_disconnect e s) d"
    by (rule exI, rule moved_released) (simp_all add: request_disconnect_def Let_def)
  assume "m_config s \<noteq> None"
  then obtain c where "m_config s = Some c" by auto
  then show "\<exists>d. moved env s (connection_lost env e s) d"
    by (intro exI [of _ "[ActDeinit]"] moved_released) (simp_all add: connection_lost_def Let_def)
qed

lemma moved_cong:
  "vis s1 = vis s \<Longrightarrow> m_fsm_state s1 = m_fsm_state s \<Longrightarrow> m_config s1 = m_config s \<Longrightarrow> moved env s1 s' d = moved env s s' d"
  by (simp add: moved_def)

lemma moved_pop: "\<exists>d. moved env (s\<lparr>m_fsm_event_queue := q\<rparr>) s' d \<Longrightarrow> \<exists>d. moved env s s' d"
  by (simp add: moved_def)

lemma init_moved:
  assumes "m_fsm_state s = INIT"
  shows "\<exists>d. moved env s (process_state_init env s) d"
proof (cases rule: pop_event_cases [of "m_fsm_event_queue s"])
  case 1
  show ?thesis by (rule exI [of _ "[]"], rule moved_quiet(1)) (use 1 assms in \<open>simp_all add: process_state_init_def\<close>)
next
  case (2 e r)
  let ?s = "s\<lparr>m_fsm_event_queue := r\<rparr>"
  have "fe_type e = RequestConnect \<or> m_fsm_state (process_state_init env s) = INIT \<and> vis (process_state_init env s) = vis s"
    using assms 2 by (auto simp: process_state_init_def Let_def split: FsmEvent.split option.split)
  then show ?thesis
  proof
    assume "fe_type e = RequestConnect"
    then have "process_state_init env s = request_connect env e ?s" using 2 by (simp add: process_state_init_def)
    then show ?thesis using moved_pop [OF tried_moved(1) [OF request_connect_tried]] by simp
  next
    assume "m_fsm_state (process_state_init env s) = INIT \<and> vis (process_state_init env s) = vis s"
    then show ?thesis by (intro exI [of _ "[]"] moved_quiet(2)) simp_all
  qed
qed

lemma stopped_moved:
  assumes "m_fsm_state s = STOPPED"
  shows "\<exists>d. moved env s (process_state_stopped env s) d"
proof (cases rule: pop_event_cases [of "m_fsm_event_queue s"])
  case 1
  show ?thesis by (rule exI [of _ "[]"], rule moved_quiet(1)) (use 1 assms in \<open>simp_all add: process_state_stopped_def\<close>)
next
  case (2 e r)
  let ?s = "s\<lparr>m_fsm_event_queue := r\<rparr>"
  have "tried env ?s (process_state_stopped env s) \<or> m_fsm_state (process_state_stopped env s) = STOPPED \<and> vis (process_state_stopped env s) = vis s"
    using assms 2 request_connect_tried update_config_tried
    by (auto simp: process_state_stopped_def Let_def split: FsmEvent.split)
  then show ?thesis
  proof
    assume "tried env ?s (process_state_stopped env s)"
    then show ?thesis using moved_pop [OF tried_moved(1)] by simp
  next
    assume "m_fsm_state (process_state_stopped env s) = STOPPED \<and> vis (process_state_stopped env s) = vis s"
    then show ?thesis by (intro exI [of _ "[]"] moved_quiet(2)) simp_all
  qed
qed

text \<open>The events that CONNECTING and WORKING handle in the same way.\<close>

lemma active_moved:
  assumes "m_fsm_state s \<in> {CONNECTING, WORKING}" "m_config s \<noteq> None"
  shows "\<exists>d. moved env s (connection_lost env e s) d" "\<exists>d. moved env s (request_disconnect e s) d"
    "\<exists>d. moved env s (update_config env e (handle_close_event None (deinit_websocket s))) d"
    "\<exists>d. moved env s (call_callback e b s) d"
proof -
  show "\<exists>d. moved env s (update_config env e (handle_close_event None (deinit_websocket s))) d"
    by (rule tried_moved(2) [OF update_config_tried]) simp
  show "\<exists>d. moved env s (call_callback e b s) d" by (rule exI, rule moved_quiet(1)) simp_all
qed (use lost_moved [OF assms(1)] assms(2) in blast)+

lemma connecting_moved:
  assumes "m_fsm_state s = CONNECTING" "m_config s \<noteq> None"
  shows "\<exists>d. moved env s (process_state_connecting env s) d"
proof (cases rule: pop_event_cases [of "m_fsm_event_queue s"])
  case 1
  show ?thesis by (rule exI [of _ "[]"], rule moved_quiet(1)) (use 1 assms in \<open>simp_all add: process_state_connecting_def\<close>)
next
  case (2 e r)
  let ?s = "s\<lparr>m_fsm_event_queue := r\<rparr>"
  have "\<exists>d. moved env ?s (goto WORKING ((handle_open_event (fe_event_data e) ?s)\<lparr>m_reconnect_attempt := 0, m_is_running := True\<rparr>)) d"
    by (rule exI [of _ "[]"]) (use assms in \<open>simp add: moved_def\<close>)
  moreover note active_moved [of ?s env e]
  ultimately have "\<exists>d. moved env ?s (process_state_connecting env s) d"
    using assms 2 by (simp add: process_state_connecting_def Let_def split: FsmEvent.split)
  then show ?thesis by (rule moved_pop)
qed

lemma working_moved:
  "m_fsm_state s = WORKING \<Longrightarrow> m_config s \<noteq> None \<Longrightarrow> \<exists>d. moved env s (working_loop env es s) d"
proof (induction es arbitrary: s)
  case Nil
  show ?case by (rule exI [of _ "[]"], rule moved_quiet(1)) simp_all
next
  case (Cons e r)
  let ?s = "s\<lparr>m_fsm_event_queue := r\<rparr>"
  from Cons.IH [of "handle_message_event (fe_event_data e) ?s"] Cons.prems
  have "\<exists>d. moved env ?s (working_loop env r (handle_message_event (fe_event_data e) ?s)) d"
    by (simp add: moved_cong [of "handle_message_event (fe_event_data e) ?s" ?s])
  moreover note active_moved [of ?s env e]
  ultimately have "\<exists>d. moved env ?s (working_loop env (e # r) s) d"
    using Cons.prems by (simp add: Let_def split: FsmEvent.split)
  then show ?case by (rule moved_pop)
qed

text \<open>The second half of \<open>process_state_reconnecting\<close> also runs after an event has led to another state.\<close>

lemma attempt_cases:
  defines "s' \<equiv> \<lambda>env s. reconnecting_attempt env s"
  shows "m_config (s' env s) = m_config s"
    "vis (s' env s) = vis s \<and> m_fsm_state (s' env s) \<in> {m_fsm_state s, INIT, STOPPED} \<or>
     vis (s' env s) = vis s @ [ActInit (init_websocket_ok env s)] \<and>
       m_fsm_state (s' env s) = (if init_websocket_ok env s then CONNECTING else STOPPED)"
  by (auto simp: s'_def reconnecting_attempt_def init_websocket_eq split: option.split)

lemma attempt_moved:
  assumes "moved env s s1 d"
  shows "\<exists>d. moved env s (reconnecting_attempt env s1) d"
  using attempt_cases(2) [of env s1]
proof
  assume "vis (reconnecting_attempt env s1) = vis s1 \<and> m_fsm_state (reconnecting_attempt env s1) \<in> {m_fsm_state s1, INIT, STOPPED}"
  with assms attempt_cases(1) [of env s1] show ?thesis by (intro exI [of _ d]) (auto simp: moved_def)
next
  assume "vis (reconnecting_attempt env s1) = vis s1 @ [ActInit (init_websocket_ok env s1)] \<and>
    m_fsm_state (reconnecting_attempt env s1) = (if init_websocket_ok env s1 then CONNECTING else STOPPED)"
  with assms attempt_cases(1) [of env s1] show ?thesis
    by (intro exI [of _ "d @ [ActInit (init_websocket_ok env s1)]"]) (auto simp: moved_def split: if_splits)
qed

lemma reconnecting_moved:
  assumes "m_fsm_state s = RECONNECTING"
  shows "\<exists>d. moved env s (process_state_reconnecting env s) d"
proof -
  have "\<exists>d. moved env s (reconnecting_event env s) d"
  proof (cases rule: pop_event_cases [of "m_fsm_event_queue s"])
    case 1
    show ?thesis by (rule exI [of _ "[]"], rule moved_quiet(1)) (use 1 in \<open>simp_all add: reconnecting_event_def\<close>)
  next
    case (2 e r)
    let ?s = "s\<lparr>m_fsm_event_queue := r\<rparr>"
    have "\<exists>d. moved env ?s (goto INIT (call_callback e True (?s\<lparr>m_is_running := False\<rparr>))) d"
      "\<exists>d. moved env ?s (handle_message_event (fe_event_data e) ?s) d" "\<exists>d. moved env ?s (call_callback e False ?s) d"
      by (rule exI [of _ "[]"], simp add: moved_def assms)+
    moreover have "\<exists>d. moved env ?s (update_config env e ?s) d" by (rule tried_moved(1) [OF update_config_tried])
    ultimately have "\<exists>d. moved env ?s (reconnecting_event env s) d"
      using 2 by (simp add: reconnecting_event_def Let_def split: FsmEvent.split)
    then show ?thesis by (rule moved_pop)
  qed
  then obtain d where "moved env s (reconnecting_event env s) d" ..
  from attempt_moved [OF this] show ?thesis by (simp add: process_state_reconnecting_def)
qed

lemma fsm_moved:
  assumes "ws_inv s"
  shows "\<exists>d. moved env s (process_fsm_state env s) d"
proof (cases "m_fsm_state s")
  case WORKING
  with assms working_moved show ?thesis by (simp add: process_fsm_state_def process_state_working_def ws_inv_def active_state_def)
qed (use assms init_moved connecting_moved reconnecting_moved stopped_moved in
    \<open>simp_all add: process_fsm_state_def ws_inv_def active_state_def\<close>)

section \<open>What the calls do to the adapter\<close>

text \<open>The client the adapter has to hold for a configuration.\<close>

definition client_for :: "bool \<Rightarrow> WebSocketConfig \<Rightarrow> simple_client" where
  "client_for wss cfg =
     (configure_client cfg
       \<lparr>sl_server_port_path = remove_ws_prefix (wc_url cfg),
        sl_tls = (if wss then Some (wc_verify_cert cfg, wc_cert_file cfg, wc_key_file cfg, wc_ca_file cfg) else None),
        sl_timeout_idle = 0, sl_timeout_request = 0, sl_header = [], sl_proxy_server = [], sl_proxy_auth = [],
        sl_started = False\<rparr>)\<lparr>sl_started := True\<rparr>"

definition holds_client :: "WebSocketConfig option \<Rightarrow> ws_adapter \<Rightarrow> bool" where
  "holds_client config a =
     (case config of
        None \<Rightarrow> False
      | Some cfg \<Rightarrow>
          (if extract_protocol (wc_url cfg) = ''wss''
           then ad_wss_client a = Some (client_for True cfg) \<and> ad_ws_client a = None
           else ad_ws_client a = Some (client_for False cfg) \<and> ad_wss_client a = None))"

definition holds_nothing :: "ws_adapter \<Rightarrow> bool" where
  "holds_nothing a \<longleftrightarrow>
     ad_ws_client a = None \<and> ad_wss_client a = None \<and> ad_ws_connection a = None \<and> ad_wss_connection a = None"

lemma init_websocket_holds:
  "valid_ws_config config \<Longrightarrow> ad_io_context a \<Longrightarrow>
   holds_client config (fst (adapter_init_websocket None config a)) \<and> snd (adapter_init_websocket None config a)"
  by (auto simp: valid_ws_config_def holds_client_def adapter_init_websocket_def init_client_def create_ws_client_def
      client_for_def set_client_def Let_def split: option.splits)

lemma deinit_websocket_holds: "holds_nothing (adapter_deinit_websocket a)"
  by (simp add: holds_nothing_def adapter_deinit_websocket_def)

lemma init_websocket_keeps:
  "ad_io_context (fst (adapter_init_websocket failure config a)) = ad_io_context a"
  "ad_outstanding (fst (adapter_init_websocket failure config a)) = ad_outstanding a"
  "ad_calls (fst (adapter_init_websocket failure config a)) = ad_calls a"
  by (simp_all add: adapter_init_websocket_def init_client_def create_ws_client_def set_client_def Let_def split: option.split)

lemma send_keeps:
  "ad_io_context (adapter_send i a) = ad_io_context a" "holds_client config (adapter_send i a) = holds_client config a"
  "holds_nothing (adapter_send i a) = holds_nothing a"
  by (simp_all add: adapter_send_def holds_client_def holds_nothing_def split: option.split)

lemma act_io_context: "ad_io_context (adapter_act failure cfg x a) = ad_io_context a"
  by (cases x) (simp_all add: init_websocket_keeps adapter_deinit_websocket_def send_keeps)

lemma acts_io_context: "ad_io_context (fold (adapter_act failure cfg) l a) = ad_io_context a"
  by (induction l arbitrary: a) (simp_all add: act_io_context)

text \<open>Calls other than \<open>init_websocket\<close> and \<open>deinit_websocket\<close>.\<close>

lemma acts_keep:
  "list_all (\<lambda>x. \<not> is_transport x) l \<Longrightarrow>
     holds_client config (fold (adapter_act failure cfg) l a) = holds_client config a \<and>
     holds_nothing (fold (adapter_act failure cfg) l a) = holds_nothing a"
proof (induction l arbitrary: a)
  case (Cons x l)
  then show ?case by (cases x) (simp_all add: send_keeps)
qed simp

lemma acts_connected:
  assumes "d \<noteq> []" "last d = ActInit True" "valid_ws_config cfg" "ad_io_context a"
  shows "holds_client cfg (fold (adapter_act failure cfg) d a)"
proof -
  from assms(1,2) have "d = butlast d @ [ActInit True]" by (metis append_butlast_last_id)
  then have "fold (adapter_act failure cfg) d a = adapter_act failure cfg (ActInit True) (fold (adapter_act failure cfg) (butlast d) a)"
    by (metis comp_apply fold.simps fold_append id_apply)
  then show ?thesis using assms(3,4) by (simp add: init_websocket_holds acts_io_context)
qed

end
