(* ===== verification/Web_Socket_Lifecycle.thy ===== *)
theory Web_Socket_Lifecycle
  imports Web_Socket_Guarantees Refinement
begin

text \<open>
  The life of a connection as the user of a WebSocket client sees it: an automaton over the states of
  the client and the open and close events it has delivered. The client refines it: every step of the
  client is a step of the automaton or leaves the state and these events alone.
\<close>

section \<open>The automaton\<close>

text \<open>The moves between the states other than WORKING, none of which delivers an event.\<close>

fun life_move :: "FsmState \<Rightarrow> FsmState \<Rightarrow> bool" where
  "life_move INIT st = (st \<in> {CONNECTING, STOPPED})"
| "life_move CONNECTING st = (st \<in> {INIT, RECONNECTING, STOPPED})"
| "life_move RECONNECTING st = (st \<in> {INIT, CONNECTING, STOPPED})"
| "life_move STOPPED st = (st = CONNECTING)"
| "life_move WORKING st = False"

datatype life_event = Opened | Closed

inductive life_step :: "FsmState \<times> life_event list \<Rightarrow> FsmState \<times> life_event list \<Rightarrow> bool" where
  life_open: "life_step (CONNECTING, es) (WORKING, es @ [Opened])"
| life_close: "st \<noteq> WORKING \<Longrightarrow> life_step (WORKING, es) (st, es @ [Closed])"
| life_silent: "life_move st st' \<Longrightarrow> life_step (st, es) (st', es)"

inductive_cases life_stepE: "life_step x y"

text \<open>What the automaton keeps: open and close events alternate, and the last one tells whether the state is WORKING.\<close>

fun alternating :: "bool \<Rightarrow> life_event list \<Rightarrow> bool option" where
  "alternating c [] = Some c"
| "alternating c (Opened # es) = (if c then None else alternating True es)"
| "alternating c (Closed # es) = (if c then alternating False es else None)"

lemma alternating_append:
  "alternating c (es @ fs) = (case alternating c es of None \<Rightarrow> None | Some c' \<Rightarrow> alternating c' fs)"
  by (induction c es rule: alternating.induct) simp_all

definition life_ok :: "FsmState \<times> life_event list \<Rightarrow> bool" where
  "life_ok = (\<lambda>(st, es). alternating False es = Some (st = WORKING))"

lemma life_step_ok: "life_step x y \<Longrightarrow> life_ok x \<Longrightarrow> life_ok y"
  by (induction rule: life_step.induct) (auto simp: life_ok_def alternating_append elim!: life_move.elims)

section \<open>The events of a client\<close>

definition life_of :: "ws_action \<Rightarrow> life_event list" where
  "life_of a = (case delivered_type a of Some WS_OPEN \<Rightarrow> [Opened] | Some WS_CLOSE \<Rightarrow> [Closed] | _ \<Rightarrow> [])"

definition life_events :: "BaseWebSocketClient \<Rightarrow> life_event list" where
  "life_events s = concat (map life_of (ws_log s))"

definition life :: "BaseWebSocketClient \<Rightarrow> FsmState \<times> life_event list" where
  "life s = (m_fsm_state s, life_events s)"

lemma life_events_log [simp]: "life_events (log_act a s) = life_events s @ life_of a"
  by (simp add: life_events_def log_act_def)

lemma life_events_fields [simp]:
  "life_events (s\<lparr>m_config := c\<rparr>) = life_events s" "life_events (s\<lparr>m_fsm_event_queue := q\<rparr>) = life_events s"
  "life_events (s\<lparr>m_is_running := b\<rparr>) = life_events s" "life_events (s\<lparr>m_is_connected := b\<rparr>) = life_events s"
  "life_events (s\<lparr>m_close_time := t\<rparr>) = life_events s" "life_events (s\<lparr>m_reconnect_attempt := n\<rparr>) = life_events s"
  "life_events (s\<lparr>m_event_queue := l\<rparr>) = life_events s" "life_events (s\<lparr>null_deref := b\<rparr>) = life_events s"
  "life_events (s\<lparr>m_on_event := b\<rparr>) = life_events s" "life_events (s\<lparr>m_message_queue := ms\<rparr>) = life_events s"
  "life_events (s\<lparr>m_send_callback_queue := cs\<rparr>) = life_events s"
  "life_events (goto st s) = life_events s" "life_events (push_fsm_event e s) = life_events s"
  "life_events (apply_config env cfg s) = life_events s"
  by (simp_all add: life_events_def goto_def push_fsm_event_def apply_config_def)

lemma life_of_simps [simp]:
  "life_of (ActInit b) = []" "life_of ActDeinit = []" "life_of (ActCallback f b) = []" "life_of ActNotify = []"
  by (simp_all add: life_of_def)

lemma life_events_calls [simp]:
  "life_events (call_callback e b s) = life_events s" "life_events (deinit_websocket s) = life_events s"
  by (simp_all add: call_callback_def deinit_websocket_def split: option.split)

lemma life_events_deliver:
  "life_events (deliver_event (Some d) s) =
     life_events s @ (case event_type d of WS_OPEN \<Rightarrow> [Opened] | WS_CLOSE \<Rightarrow> [Closed] | _ \<Rightarrow> [])"
  by (simp add: deliver_event_def life_of_def)

lemma life_events_error [simp]: "life_events (handle_error_code ec s) = life_events s"
  by (simp add: handle_error_code_def handle_error_event_def life_events_deliver create_websocket_error_event_def)

text \<open>A close event is delivered exactly to a connected client.\<close>

lemma life_events_close:
  assumes "case e of None \<Rightarrow> True | Some d \<Rightarrow> event_type d = WS_CLOSE"
  shows "life_events (handle_close_event e s) = life_events s @ (if m_is_connected s then [Closed] else [])"
  using assms
  by (auto simp: handle_close_event_def life_events_deliver create_websocket_close_event_def Let_def split: option.splits)

lemma life_events_handlers [simp]:
  "life_events (stop_with_error e s) = life_events s" "life_events (request_connect env e s) = life_events s"
  "life_events (update_config env e s) = life_events s" "life_events (reconnecting_attempt env s) = life_events s"
  by (simp_all add: stop_with_error_def request_connect_def update_config_def reconnecting_attempt_def init_websocket_eq
      Let_def split: option.split)

lemma life_events_disconnect:
  "life_events (request_disconnect e s) = life_events s @ (if m_is_connected s then [Closed] else [])"
  by (simp add: request_disconnect_def life_events_close Let_def)

lemma life_events_message:
  assumes "fe_type e = MessageReceived" "event_ok e"
  shows "life_events (handle_message_event (fe_event_data e) s) = life_events s"
  using assms by (auto simp: event_ok_def data_kind_def handle_message_event_def life_events_deliver split: option.splits)

lemma life_events_opened:
  assumes "fe_type e = ConnectionOpened" "event_ok e" "\<not> m_is_connected s"
  shows "life_events (handle_open_event (fe_event_data e) s) = life_events s @ [Opened]"
  using assms by (auto simp: event_ok_def data_kind_def handle_open_event_def life_events_deliver split: option.splits)

lemma life_events_lost:
  assumes "fe_type e = ConnectionError \<or> fe_type e = ConnectionClosed" "event_ok e"
  shows "life_events (connection_lost env e s) = life_events s @ (if m_is_connected s then [Closed] else [])"
proof -
  have err: "life_events (handle_error_event (fe_event_data e) s) = life_events s" if "fe_type e = ConnectionError"
    using assms(2) that
    by (auto simp: event_ok_def data_kind_def handle_error_event_def life_events_deliver split: option.splits)
  have cls: "case fe_event_data e of None \<Rightarrow> True | Some d \<Rightarrow> event_type d = WS_CLOSE" if "fe_type e = ConnectionClosed"
    using assms(2) that by (auto simp: event_ok_def data_kind_def split: option.splits)
  from assms(1) show ?thesis
    by (auto simp: connection_lost_def Let_def err life_events_close cls create_websocket_close_event_def split: option.split)
qed

section \<open>The handlers of the states\<close>

lemma handler_states:
  "m_fsm_state (stop_with_error e s) = STOPPED" "m_fsm_state (request_connect env e s) \<in> {CONNECTING, STOPPED}"
  "m_fsm_state (update_config env e s) \<in> {CONNECTING, STOPPED}" "m_fsm_state (request_disconnect e s) = INIT"
  "m_config s \<noteq> None \<Longrightarrow> m_fsm_state (connection_lost env e s) \<in> {INIT, RECONNECTING}"
  "m_fsm_state (reconnecting_attempt env s) \<in> {INIT, CONNECTING, STOPPED, m_fsm_state s}"
  by (auto simp: stop_with_error_def request_connect_def update_config_def request_disconnect_def connection_lost_def
      reconnecting_attempt_def init_websocket_eq Let_def split: option.split)

definition life_ahead :: "BaseWebSocketClient \<Rightarrow> BaseWebSocketClient \<Rightarrow> bool" where
  "life_ahead s s' \<longleftrightarrow> life s' = life s \<or> life_step (life s) (life s')"

lemma ahead_silent:
  assumes "life_events s' = life_events s" "m_fsm_state s' = m_fsm_state s \<or> life_move (m_fsm_state s) (m_fsm_state s')"
  shows "life_ahead s s'"
  using assms life_silent [of "m_fsm_state s" "m_fsm_state s'" "life_events s"] by (auto simp: life_ahead_def life_def)

lemma ahead_closed:
  assumes "life_events s' = life_events s @ [Closed]" "m_fsm_state s = WORKING" "m_fsm_state s' \<noteq> WORKING"
  shows "life_ahead s s'"
  using assms life_close [of "m_fsm_state s'" "life_events s"] by (simp add: life_ahead_def life_def)

lemma init_ahead:
  assumes "m_fsm_state s = INIT"
  shows "life_ahead s (process_state_init env s)"
proof (cases rule: pop_event_cases [of "m_fsm_event_queue s"])
  case (2 e r)
  then show ?thesis using assms handler_states(2) [of env e "s\<lparr>m_fsm_event_queue := r\<rparr>"]
    by (intro ahead_silent; cases "fe_type e") (auto simp: process_state_init_def Let_def split: option.split)
qed (simp add: process_state_init_def life_ahead_def)

lemma stopped_ahead:
  assumes "m_fsm_state s = STOPPED"
  shows "life_ahead s (process_state_stopped env s)"
proof (cases rule: pop_event_cases [of "m_fsm_event_queue s"])
  case (2 e r)
  then show ?thesis using assms handler_states(2,3) [of env e "s\<lparr>m_fsm_event_queue := r\<rparr>"]
    by (intro ahead_silent; cases "fe_type e") (auto simp: process_state_stopped_def Let_def split: option.split)
qed (simp add: process_state_stopped_def life_ahead_def)

lemma connecting_ahead:
  assumes "m_fsm_state s = CONNECTING" "ws_inv s" "list_all event_ok (m_fsm_event_queue s)"
  shows "life_ahead s (process_state_connecting env s)"
proof (cases rule: pop_event_cases [of "m_fsm_event_queue s"])
  case (2 e r)
  let ?s = "s\<lparr>m_fsm_event_queue := r\<rparr>"
  have ok: "event_ok e" "m_config s \<noteq> None" "\<not> m_is_connected s" using 2 assms by (auto simp: ws_inv_def active_state_def)
  show ?thesis
  proof (cases "fe_type e = ConnectionOpened")
    case True
    then have "life (process_state_connecting env s) = (WORKING, life_events s @ [Opened])"
      using 2 ok by (simp add: process_state_connecting_def life_def life_events_opened Let_def)
    then show ?thesis using assms(1) life_open by (simp add: life_ahead_def life_def)
  next
    case False
    then show ?thesis
      using 2 ok assms(1) handler_states(3) [of env e "handle_close_event None (deinit_websocket ?s)"]
        handler_states(5) [of ?s env e] handler_states(4) [of e ?s]
      by (intro ahead_silent; cases "fe_type e")
        (auto simp: process_state_connecting_def Let_def life_events_lost life_events_disconnect life_events_close)
  qed
qed (simp add: process_state_connecting_def life_ahead_def)

lemma working_ahead:
  assumes "m_fsm_state s = WORKING" "ws_inv s" "list_all event_ok es"
  shows "life_ahead s (working_loop env es s)"
  using assms
proof (induction es arbitrary: s)
  case (Cons e r)
  let ?s = "s\<lparr>m_fsm_event_queue := r\<rparr>"
  have ok: "event_ok e" "m_config s \<noteq> None" "m_is_connected s" using Cons.prems by (auto simp: ws_inv_def active_state_def)
  let ?m = "handle_message_event (fe_event_data e) ?s"
  have m: "life_ahead ?m (working_loop env r ?m)" using Cons.prems by (intro Cons.IH) simp_all
  consider "fe_type e = MessageReceived" | "fe_type e = RequestConnect \<or> fe_type e = ConnectionOpened"
    | "fe_type e \<in> {RequestDisconnect, ConnectionError, ConnectionClosed, UpdateConfig}"
    by (cases "fe_type e") auto
  then show ?case
  proof cases
    case 1
    then show ?thesis using m ok by (simp add: life_ahead_def life_def life_events_message)
  next
    case 2
    then show ?thesis by (intro ahead_silent) auto
  next
    case 3
    then show ?thesis
      using ok Cons.prems(1) handler_states(3) [of env e "handle_close_event None (deinit_websocket ?s)"]
        handler_states(5) [of ?s env e] handler_states(4) [of e ?s]
      by (intro ahead_closed) (auto simp: Let_def life_events_lost life_events_disconnect life_events_close)
  qed
qed (simp add: ahead_silent)

lemma reconnecting_ahead:
  assumes "m_fsm_state s = RECONNECTING" "list_all event_ok (m_fsm_event_queue s)"
  shows "life_ahead s (process_state_reconnecting env s)"
proof -
  have "life_events (reconnecting_event env s) = life_events s \<and>
    m_fsm_state (reconnecting_event env s) \<in> {INIT, CONNECTING, STOPPED, RECONNECTING}"
  proof (cases rule: pop_event_cases [of "m_fsm_event_queue s"])
    case (2 e r)
    with assms handler_states(3) [of env e "s\<lparr>m_fsm_event_queue := r\<rparr>"] show ?thesis
      by (cases "fe_type e") (auto simp: reconnecting_event_def Let_def life_events_message)
  qed (simp add: reconnecting_event_def assms)
  then show ?thesis
    using assms(1) handler_states(6) [of env "reconnecting_event env s"]
    by (intro ahead_silent) (auto simp: process_state_reconnecting_def)
qed

lemma fsm_ahead:
  assumes "ws_inv s" "list_all event_ok (m_fsm_event_queue s)"
  shows "life_ahead s (process_fsm_state env s)"
  using assms
  by (simp add: process_fsm_state_def init_ahead connecting_ahead process_state_working_def working_ahead reconnecting_ahead
      stopped_ahead split: FsmState.split)

section \<open>The refinement\<close>

lemma life_queues [simp]:
  "life (process_message_queue env s) = life s" "life (fst (process_send_callback_queue s)) = life s"
  "life (push_arrivals env s) = life s"
proof -
  have q: "concat (map life_of as) = []" if "\<forall>a \<in> set as. delivered_type a = None" for as
    using that by (induction as) (simp_all add: life_of_def)
  show "life (process_message_queue env s) = life s"
    using q [OF send_actions_silent] by (auto simp: life_def life_events_def process_message_queue_def split: prod.split)
  show "life (fst (process_send_callback_queue s)) = life s"
    using q [OF send_callback_actions_silent [of "m_send_callback_queue s"]]
    by (auto simp: life_def life_events_def process_send_callback_queue_def split: prod.splits)
  have "life (fold push_fsm_event es s) = life s" for es by (induction es arbitrary: s) (simp_all add: life_def)
  then show "life (push_arrivals env s) = life s" by (simp add: push_arrivals_def)
qed

lemma arrivals_ahead:
  assumes "ws_inv s" "ws_good s" "list_all event_ok (arrivals env)"
  shows "life_ahead s (process_fsm_state env (push_arrivals env s))"
proof -
  have "list_all event_ok (m_fsm_event_queue (push_arrivals env s))"
    using assms(2,3) by (simp add: ws_good_def)
  from fsm_ahead [OF push_arrivals_inv [OF assms(1)] this] show ?thesis by (simp add: life_ahead_def)
qed

definition ws_sound :: "BaseWebSocketClient \<Rightarrow> bool" where
  "ws_sound s \<longleftrightarrow> ws_inv s \<and> ws_good s"

lemma ws_step_ahead: "ws_step s s' \<Longrightarrow> ws_sound s \<Longrightarrow> life_ahead s s'"
proof (induction rule: ws_step.induct)
  case (step_process env s)
  then show ?case using arrivals_ahead [of s env] by (simp add: ws_sound_def life_ahead_def ws_process_def)
next
  case (step_shutdown env s)
  then show ?case using arrivals_ahead [of s env] by (simp add: ws_sound_def life_ahead_def shutdown_iteration_def)
qed (auto simp: ws_request_defs intro!: ahead_silent split: list.split)

interpretation client_life: refinement ws_step ws_sound life_step life
  by unfold_locales (auto simp: ws_sound_def ws_step_inv ws_step_good life_ahead_def dest: ws_step_ahead)

lemma life_init: "ws_sound BaseWebSocketClient_init" "life BaseWebSocketClient_init = (INIT, [])"
  using ws_reachable_good [OF ws_start] ws_inv_init
  by (simp_all add: ws_sound_def life_def life_events_def BaseWebSocketClient_init_def)

lemma ws_reachable_run: "ws_reachable s \<Longrightarrow> ws_step\<^sup>*\<^sup>* BaseWebSocketClient_init s"
  by (induction rule: ws_reachable.induct) (auto intro: rtranclp.rtrancl_into_rtrancl)

lemma ws_reachable_sound: "ws_reachable s \<Longrightarrow> ws_sound s"
  by (simp add: ws_sound_def ws_reachable_inv ws_reachable_good)

lemma ws_reachable_life_ok: "ws_reachable s \<Longrightarrow> life_ok (life s)"
  using client_life.run_keeps [of life_ok, OF life_step_ok ws_reachable_run life_init(1)]
  by (simp add: life_init life_ok_def)

text \<open>
  C19: the client refines the life cycle of a connection. Seen through its state and the open and close events it has
  delivered to its handler or its event queue, every run of a client is a run of the automaton above, and every step of
  it is one step of the automaton or changes nothing: the state WORKING is entered only from CONNECTING, with exactly
  one open event, and left with exactly one close event, no other step delivers an open or a close event, and from
  STOPPED the only way out is a new connection. So open and close events alternate, and the last one agrees with the
  reported connection state.
\<close>

theorem ws_refines_life:
  assumes "ws_reachable s" "ws_step s s'"
  shows "life_step\<^sup>*\<^sup>* (INIT, []) (life s) \<and> (life s' = life s \<or> life_step (life s) (life s')) \<and>
    alternating False (life_events s') = Some (is_connected s')"
proof (intro conjI)
  show "life_step\<^sup>*\<^sup>* (INIT, []) (life s)"
    using client_life.run_refines [OF ws_reachable_run [OF assms(1)] life_init(1)] by (simp add: life_init)
  show "life s' = life s \<or> life_step (life s) (life s')"
    by (rule client_life.simulates [OF ws_reachable_sound [OF assms(1)] assms(2)])
  from ws_next [OF assms] have "life_ok (life s')" "ws_inv s'" by (rule ws_reachable_life_ok, rule ws_reachable_inv)
  then show "alternating False (life_events s') = Some (is_connected s')"
    by (simp add: life_ok_def life_def ws_inv_def is_connected_def)
qed

theorem ws_refines_life_witness:
  "life_step (life wit_connecting) (life (fst (ws_process (wit_env [wit_opened]) wit_connecting))) \<and>
   life_events (fst (ws_process (wit_env [wit_opened]) wit_connecting)) = [Opened]"
proof -
  let ?s = "fst (ws_process (wit_env [wit_opened]) wit_connecting)"
  have "ws_step wit_connecting ?s"
    by (rule step_process) (simp add: wit_env_def event_ok_def wit_opened_def data_kind_def create_websocket_event_def)
  note w = ws_refines_life [OF wit_connecting_reachable this]
  have "life_events ?s = [Opened]" "life_events wit_connecting = []" by code_simp+
  with w show ?thesis by (auto simp: life_def)
qed

end
