(* ===== verification/Web_Socket_Transport.thy ===== *)
theory Web_Socket_Transport
  imports Web_Socket_Adapter_Props Web_Socket_Lifecycle
begin

text \<open>
  A WebSocket client on the adapter of \<open>Web_Socket_Adapter\<close>, as one system: the calls of the user, the handlers the
  adapter gives to its transport, and the calls of \<open>process\<close> and of the loop of \<open>shutdown\<close>, in any order. Every
  state of it is one of the client's own step relation, so that what \<open>Web_Socket_Guarantees\<close> shows of the client holds on
  this transport; the properties below are about client and transport together.
\<close>

section \<open>The composed system\<close>

inductive client_call :: "BaseWebSocketClient \<Rightarrow> BaseWebSocketClient \<Rightarrow> bool" where
  call_handler: "client_call s (s\<lparr>m_on_event := b\<rparr>)"
| call_set_config: "client_call s (set_config c f s)"
| call_connect: "client_call s (ws_connect f s)"
| call_disconnect: "client_call s (ws_disconnect f s)"
| call_receive_events: "client_call s (fst (receive_events s))"
| call_receive_event: "client_call s (fst (receive_event s))"
| call_submit_message: "client_call s (fst (submit_message m i f s))"
| call_submit_close: "client_call s (fst (submit_close st r f s))"

definition owns :: "bool \<Rightarrow> ws_adapter \<Rightarrow> bool" where
  "owns wss a = (case (if wss then ad_wss_client a else ad_ws_client a) of None \<Rightarrow> False | Some c \<Rightarrow> sl_started c)"

text \<open>The handlers of a transport run while the adapter owns it; the one of a message that was sent, at any time
  and once.\<close>

definition take_sent :: "nat \<Rightarrow> ws_adapter \<Rightarrow> ws_adapter" where
  "take_sent k a = a\<lparr>ad_outstanding := take k (ad_outstanding a) @ drop (Suc k) (ad_outstanding a)\<rparr>"

inductive ts_step :: "ws_adapter \<times> BaseWebSocketClient \<Rightarrow> ws_adapter \<times> BaseWebSocketClient \<Rightarrow> bool" where
  ts_call: "client_call s s' \<Longrightarrow> ts_step (a, s) (a, s')"
| ts_open: "owns wss a \<Longrightarrow> ts_step (a, s) (on_open status_code_of wss n (a, s))"
| ts_message: "owns wss a \<Longrightarrow> ts_step (a, s) (a, on_message m s)"
| ts_close: "owns wss a \<Longrightarrow> ts_step (a, s) (a, on_close status reason s)"
| ts_error: "owns wss a \<Longrightarrow> ts_step (a, s) (a, on_error ec s)"
| ts_sent: "k < length (ad_outstanding a) \<Longrightarrow>
     ts_step (a, s) (take_sent k a, on_sent standalone ec (snd (ad_outstanding a ! k)) s)"
| ts_process: "adapted env \<Longrightarrow>
     ts_step (a, s) (adapter_follows failure s (fst (ws_process env s)) a, fst (ws_process env s))"
| ts_shutdown: "adapted env \<Longrightarrow>
     ts_step (a, s) (adapter_follows failure s (fst (shutdown_iteration env s)) a, fst (shutdown_iteration env s))"

inductive ts_reachable :: "ws_adapter \<times> BaseWebSocketClient \<Rightarrow> bool" where
  ts_start: "ts_reachable (ws_adapter_init, BaseWebSocketClient_init)"
| ts_next: "ts_reachable x \<Longrightarrow> ts_step x y \<Longrightarrow> ts_reachable y"

section \<open>The client's own step relation\<close>

lemma client_call_step: "client_call s s' \<Longrightarrow> ws_step s s'"
  by (induction rule: client_call.induct) (rule ws_step.intros)+

lemmas transport_event_defs = on_open_def on_message_def on_close_def on_error_def create_websocket_open_event_def
  create_websocket_message_event_def create_websocket_close_event_def create_websocket_error_event_def

lemma transport_event_step:
  "ws_step s (snd (on_open status_code_of wss n (a, s)))" "ws_step s (on_message m s)"
  "ws_step s (on_close status reason s)" "ws_step s (on_error ec s)"
  by (auto simp: transport_event_defs event_ok_def data_kind_def intro!: step_transport)

lemma on_sent_step: "on_sent standalone ec i s = s \<or> ws_step s (on_sent standalone ec i s)"
  by (auto simp: on_sent_def step_sent split: option.split)

lemma ts_step_refines: "ts_step x y \<Longrightarrow> snd y = snd x \<or> ws_step (snd x) (snd y)"
proof (induction rule: ts_step.induct)
  case (ts_sent k a s standalone ec)
  then show ?case using on_sent_step by simp
next
  case (ts_process env a s failure)
  then show ?case by (simp add: adapted_def step_process)
next
  case (ts_shutdown env a s failure)
  then show ?case by (simp add: adapted_def step_shutdown)
qed (simp_all add: client_call_step transport_event_step)

lemma ts_step_sound:
  assumes "ts_step x y" "ws_sound (snd x)"
  shows "ws_sound (snd y)"
  using ts_step_refines [OF assms(1)] client_life.inv_step [OF assms(2)] assms(2) by auto

text \<open>The composed system refines the client, and through it the life cycle of a connection.\<close>

interpretation transport: refinement_chain ts_step "\<lambda>x. ws_sound (snd x)" ws_step snd ws_sound life_step life
  by unfold_locales (simp_all add: ts_step_sound ts_step_refines)

lemma ts_reachable_run: "ts_reachable x \<Longrightarrow> ts_step\<^sup>*\<^sup>* (ws_adapter_init, BaseWebSocketClient_init) x"
  by (induction rule: ts_reachable.induct) (auto intro: rtranclp.rtrancl_into_rtrancl)

lemma ws_run_reachable_from: "ws_step\<^sup>*\<^sup>* s s' \<Longrightarrow> ws_reachable s \<Longrightarrow> ws_reachable s'"
  by (induction rule: rtranclp_induct) (auto intro: ws_next)

lemma ts_reachable_client: "ts_reachable x \<Longrightarrow> ws_reachable (snd x)"
  using transport.lower.run_refines [OF ts_reachable_run] ws_run_reachable_from ws_start by (fastforce simp: life_init)

lemma ts_reachable_life: "ts_reachable x \<Longrightarrow> life_step\<^sup>*\<^sup>* (INIT, []) (life (snd x))"
  using transport.whole.run_refines [OF ts_reachable_run] by (simp add: life_init)

section \<open>What a call leaves alone\<close>

lemma client_call_keeps:
  "client_call s s' \<Longrightarrow> vis s' = vis s \<and> m_fsm_state s' = m_fsm_state s \<and> m_config s' = m_config s \<and>
     m_send_callback_queue s' = m_send_callback_queue s"
  by (induction rule: client_call.induct)
    (simp_all add: vis_def set_config_def ws_connect_def ws_disconnect_def push_fsm_event_def receive_events_def
      receive_event_def submit_message_def submit_close_def Let_def split: list.split)

lemma add_fsm_event_keeps:
  "vis (add_fsm_event t d s) = vis s" "m_fsm_state (add_fsm_event t d s) = m_fsm_state s"
  "m_config (add_fsm_event t d s) = m_config s" "m_send_callback_queue (add_fsm_event t d s) = m_send_callback_queue s"
  by (simp_all add: add_fsm_event_def vis_def log_act_def push_fsm_event_def)

lemma on_sent_keeps:
  "vis (on_sent b ec i s) = vis s" "m_fsm_state (on_sent b ec i s) = m_fsm_state s" "m_config (on_sent b ec i s) = m_config s"
  by (simp_all add: on_sent_def add_send_callback_def vis_def split: option.split)

section \<open>One call of process\<close>

lemma message_queue_keeps:
  "\<exists>sent. vis (process_message_queue env s) = vis s @ map send_action sent"
  "m_send_callback_queue (process_message_queue env s) = m_send_callback_queue s"
proof -
  have v: "filter visible (map send_action l) = map send_action l" for l by (induction l) (simp_all add: send_action_def)
  show "\<exists>sent. vis (process_message_queue env s) = vis s @ map send_action sent"
    by (cases "m_message_queue s = []") (auto simp: process_message_queue_def vis_def v split: prod.split)
qed (simp add: process_message_queue_def split: prod.split)

lemma visible_callbacks: "filter visible (fst (send_callback_actions cs)) = fst (send_callback_actions cs)"
  by (induction cs rule: send_callback_actions.induct) (auto split: prod.splits)

lemma callback_queue_keeps:
  "vis (fst (process_send_callback_queue s)) = vis s @ fst (send_callback_actions (m_send_callback_queue s))"
  "m_send_callback_queue (fst (process_send_callback_queue s)) = []"
  using visible_callbacks [of "m_send_callback_queue s"]
  by (auto simp: process_send_callback_queue_def vis_def split: prod.splits)

lemma callback_queue_arrivals: "m_send_callback_queue (push_arrivals env s) = m_send_callback_queue s"
proof -
  have "m_send_callback_queue (fold push_fsm_event es s) = m_send_callback_queue s" for es
    by (induction es arbitrary: s) simp_all
  then show ?thesis by (simp add: push_arrivals_def)
qed

text \<open>Both kinds of iteration: the calls of the state machine, the messages sent, the callbacks of sent messages.\<close>

definition iterated :: "ws_env \<Rightarrow> BaseWebSocketClient \<Rightarrow> BaseWebSocketClient \<Rightarrow> ws_action list \<Rightarrow> WebSocketSendInfo list \<Rightarrow> bool" where
  "iterated env s s' d sent \<longleftrightarrow>
     (\<exists>s1. moved env s s1 d \<and> m_fsm_state s' = m_fsm_state s1 \<and> m_config s' = m_config s1) \<and>
     new_actions s s' = d @ map send_action sent @ fst (send_callback_actions (m_send_callback_queue s)) \<and>
     vis s' = vis s @ new_actions s s' \<and> m_send_callback_queue s' = []"

lemma iteratedI:
  assumes "moved env s s1 d" "vis s2 = vis s1 @ map send_action sent" "m_fsm_state s2 = m_fsm_state s1" "m_config s2 = m_config s1"
    "m_send_callback_queue s2 = m_send_callback_queue s"
  shows "iterated env s (fst (process_send_callback_queue s2)) d sent"
proof -
  have "vis s1 = vis s @ d" using assms(1) by (simp add: moved_def)
  then have "vis (fst (process_send_callback_queue s2)) =
    vis s @ d @ map send_action sent @ fst (send_callback_actions (m_send_callback_queue s))"
    by (simp add: callback_queue_keeps assms)
  then show ?thesis unfolding iterated_def new_actions_def
    by (intro conjI exI [of _ s1]) (simp_all add: assms callback_queue_keeps(2))
qed

lemma iterations:
  assumes "adapted env" "ws_inv s"
  shows "\<exists>d sent. iterated env s (fst (ws_process env s)) d sent" "\<exists>d sent. iterated env s (fst (shutdown_iteration env s)) d sent"
proof -
  from fsm_moved [OF assms(2)] obtain d where d: "moved env s (process_fsm_state env s) d" ..
  let ?s = "process_fsm_state env s"
  from message_queue_keeps(1) obtain sent where "vis (process_message_queue env ?s) = vis ?s @ map send_action sent" by blast
  from iteratedI [OF d this] assms(1) show "\<exists>d sent. iterated env s (fst (ws_process env s)) d sent"
    by (auto simp: ws_process_def adapted_def push_arrivals_none message_queue_keeps(2))
  from iteratedI [OF d, of ?s "[]"] assms(1) show "\<exists>d sent. iterated env s (fst (shutdown_iteration env s)) d sent"
    by (auto simp: shutdown_iteration_def adapted_def push_arrivals_none)
qed

section \<open>The client the adapter holds\<close>

definition matched :: "ws_adapter \<times> BaseWebSocketClient \<Rightarrow> bool" where
  "matched = (\<lambda>(a, s). ad_io_context a \<and>
     (m_fsm_state s \<in> {CONNECTING, WORKING} \<longrightarrow> valid_ws_config (m_config s) \<and> holds_client (m_config s) a) \<and>
     (m_fsm_state s = RECONNECTING \<longrightarrow> holds_nothing a))"

lemma callback_actions_quiet: "list_all (\<lambda>x. \<not> is_transport x) (fst (send_callback_actions cs))"
  by (induction cs rule: send_callback_actions.induct) (auto split: prod.splits)

lemma iterated_matched:
  assumes "adapted env" "iterated env s s' d sent" "matched (a, s)"
  shows "matched (adapter_follows failure s s' a, s')"
proof -
  let ?f = "fold (adapter_act failure (m_config s'))"
  from assms(2) obtain s1 where s1: "moved env s s1 d" "m_fsm_state s' = m_fsm_state s1" "m_config s' = m_config s1"
    by (auto simp: iterated_def)
  let ?l = "map send_action sent @ fst (send_callback_actions (m_send_callback_queue s))"
  have "list_all (\<lambda>x. \<not> is_transport x) ?l" using callback_actions_quiet by (auto simp: list_all_iff send_action_def)
  from acts_keep [OF this] assms(2)
  have keep: "holds_client c (adapter_follows failure s s' a) = holds_client c (?f d a)"
    "holds_nothing (adapter_follows failure s s' a) = holds_nothing (?f d a)" for c
    by (simp_all add: adapter_follows_def iterated_def)
  have io: "ad_io_context a" using assms(3) by (simp add: matched_def)
  have "valid_ws_config (m_config s') \<and> holds_client (m_config s') (?f d a)" if st: "m_fsm_state s' \<in> {CONNECTING, WORKING}"
  proof (cases "d = []")
    case True
    with s1 st assms(3) show ?thesis by (auto simp: moved_def matched_def)
  next
    case False
    with s1 st have l: "last d = ActInit True" by (auto simp: moved_def)
    with False have "ActInit True \<in> set d" by (metis last_in_set)
    with s1 assms(1) have "valid_ws_config (m_config s')" by (auto simp: moved_def adapted_def)
    with acts_connected [OF False l _ io] show ?thesis by simp
  qed
  moreover have "holds_nothing (?f d a)" if "m_fsm_state s' = RECONNECTING"
    using s1 that assms(3) deinit_websocket_holds by (auto simp: moved_def matched_def)
  ultimately show ?thesis using io keep by (simp add: matched_def adapter_follows_def acts_io_context)
qed

lemma matched_cong:
  assumes "matched (a, s)" "m_fsm_state s' = m_fsm_state s" "m_config s' = m_config s"
    "ad_io_context a' = ad_io_context a" "ad_ws_client a' = ad_ws_client a" "ad_wss_client a' = ad_wss_client a"
    "holds_nothing a \<Longrightarrow> holds_nothing a'"
  shows "matched (a', s')"
  using assms by (auto simp: matched_def holds_client_def split: option.splits)

lemma owned_not_nothing: "owns wss a \<Longrightarrow> \<not> holds_nothing a"
  by (auto simp: owns_def holds_nothing_def split: if_splits)

lemma ts_step_matched: "ts_step x y \<Longrightarrow> ws_inv (snd x) \<Longrightarrow> matched x \<Longrightarrow> matched y"
proof (induction rule: ts_step.induct)
  case (ts_call s s' a)
  then show ?case using client_call_keeps [of s s'] by (auto elim: matched_cong)
next
  case (ts_open wss a s status_code_of n)
  then show ?case using owned_not_nothing [of wss a]
    by (auto simp: on_open_def init_connection_def add_fsm_event_keeps elim: matched_cong)
next
  case (ts_sent k a s standalone ec)
  then show ?case by (auto simp: take_sent_def on_sent_keeps holds_nothing_def elim!: matched_cong)
next
  case (ts_process env a s failure)
  then show ?case using iterations(1) iterated_matched by fastforce
next
  case (ts_shutdown env a s failure)
  then show ?case using iterations(2) iterated_matched by fastforce
qed (auto simp: on_message_def on_close_def on_error_def add_fsm_event_keeps elim: matched_cong)

lemma ts_reachable_matched: "ts_reachable x \<Longrightarrow> matched x"
proof (induction rule: ts_reachable.induct)
  case (ts_next x y)
  then show ?case using ts_step_matched ts_reachable_client ws_reachable_inv by blast
qed (simp add: matched_def ws_adapter_init_def BaseWebSocketClient_init_def)

section \<open>The callbacks of sent messages\<close>

text \<open>The messages with the callback \<open>f\<close> among those the client has sent, and the calls of \<open>f\<close> by \<open>process\<close>.\<close>

fun sends_with :: "cb \<Rightarrow> ws_action \<Rightarrow> bool" where
  "sends_with f (ActSend i) = (si_callback i = Some f)"
| "sends_with f (ActSendClose i) = (si_callback i = Some f)"
| "sends_with f _ = False"

fun answers :: "cb \<Rightarrow> ws_action \<Rightarrow> bool" where
  "answers f (ActSendCallback ec g) = (g = f)"
| "answers f _ = False"

definition count_if :: "('a \<Rightarrow> bool) \<Rightarrow> 'a list \<Rightarrow> nat" where
  "count_if P xs = length (filter P xs)"

lemma count_if_simps [simp]:
  "count_if P [] = 0" "count_if P (x # xs) = (if P x then 1 else 0) + count_if P xs"
  "count_if P (xs @ ys) = count_if P xs + count_if P ys"
  by (simp_all add: count_if_def)

lemma count_if_none: "list_all (\<lambda>x. \<not> P x) xs \<Longrightarrow> count_if P xs = 0"
  by (induction xs) simp_all

lemma count_if_take: "k < length xs \<Longrightarrow> count_if P xs = (if P (xs ! k) then 1 else 0) + count_if P (take k xs @ drop (Suc k) xs)"
  using id_take_nth_drop [of k xs] count_if_simps(3) [of P "take k xs" "xs ! k # drop (Suc k) xs"] by simp

definition open_callbacks :: "cb \<Rightarrow> ws_adapter \<Rightarrow> nat" where
  "open_callbacks f a = count_if (\<lambda>(_, g). g = f) (ad_calls a) + count_if (\<lambda>(_, i). si_callback i = Some f) (ad_outstanding a)"

definition queued_callbacks :: "cb \<Rightarrow> BaseWebSocketClient \<Rightarrow> nat" where
  "queued_callbacks f s = count_if (\<lambda>(_, g). g = Some f) (m_send_callback_queue s)"

definition accounted :: "ws_adapter \<times> BaseWebSocketClient \<Rightarrow> bool" where
  "accounted = (\<lambda>(a, s). callbacks_set s \<and> ActBadFunctionCall \<notin> set (vis s) \<and>
     (\<forall>f. count_if (sends_with f) (vis s) = open_callbacks f a + queued_callbacks f s + count_if (answers f) (vis s)))"

lemma open_callbacks_send: "open_callbacks f (adapter_send i a) = open_callbacks f a + (if si_callback i = Some f then 1 else 0)"
  by (simp add: adapter_send_def open_callbacks_def split: option.split)

lemma open_callbacks_act:
  "open_callbacks f (adapter_act failure cfg x a) = open_callbacks f a + (if sends_with f x then 1 else 0)"
proof (cases x)
  case (ActInit ok)
  then show ?thesis by (simp add: open_callbacks_def init_websocket_keeps)
next
  case ActDeinit
  then show ?thesis by (simp add: open_callbacks_def adapter_deinit_websocket_def)
qed (simp_all add: open_callbacks_send)

lemma open_callbacks_acts: "open_callbacks f (fold (adapter_act failure cfg) l a) = open_callbacks f a + count_if (sends_with f) l"
  by (induction l arbitrary: a) (simp_all add: open_callbacks_act)

text \<open>When every queued callback is set, one call of \<open>process\<close> calls them all.\<close>

lemma callback_actions:
  assumes "list_all (\<lambda>(_, g). g \<noteq> None) cs"
  shows "fst (send_callback_actions cs) = map (\<lambda>(ec, g). ActSendCallback ec (the g)) cs"
  using assms by (induction cs rule: send_callback_actions.induct) (auto split: prod.splits)

lemma callback_actions_count:
  assumes "list_all (\<lambda>(_, g). g \<noteq> None) cs"
  shows "count_if (answers f) (fst (send_callback_actions cs)) = count_if (\<lambda>(_, g). g = Some f) cs"
    "count_if (sends_with f) (fst (send_callback_actions cs)) = 0" "ActBadFunctionCall \<notin> set (fst (send_callback_actions cs))"
  unfolding callback_actions [OF assms] using assms by (induction cs) auto

lemma iterated_accounted:
  assumes "iterated env s s' d sent" "accounted (a, s)"
  shows "accounted (adapter_follows failure s s' a, s')"
proof -
  from assms(1) obtain s1 where s1: "moved env s s1 d" by (auto simp: iterated_def)
  have q: "list_all (\<lambda>(_, g). g \<noteq> None) (m_send_callback_queue s)" using assms(2) by (simp add: accounted_def callbacks_set_def)
  let ?l = "map send_action sent"
  have d: "list_all is_transport d" using s1 by (simp add: moved_def)
  have d0: "ActBadFunctionCall \<notin> set d" using d by (induction d) auto
  have d1: "count_if (answers f) d = 0" "count_if (sends_with f) d = 0" for f
    using d by (induction d) (auto elim: is_transport.elims)
  have l0: "count_if (answers f) ?l = 0" "ActBadFunctionCall \<notin> set ?l" for f by (induction sent) (auto simp: send_action_def)
  from assms(1) have v: "vis s' = vis s @ d @ ?l @ fst (send_callback_actions (m_send_callback_queue s))"
    and n: "new_actions s s' = d @ ?l @ fst (send_callback_actions (m_send_callback_queue s))"
    and e: "m_send_callback_queue s' = []"
    by (simp_all add: iterated_def)
  have "count_if (sends_with f) (vis s') = open_callbacks f (adapter_follows failure s s' a) + queued_callbacks f s' + count_if (answers f) (vis s')" for f
  proof -
    have "count_if (sends_with f) (vis s) = open_callbacks f a + queued_callbacks f s + count_if (answers f) (vis s)"
      using assms(2) by (simp add: accounted_def)
    then show ?thesis
      using callback_actions_count(1,2) [OF q, of f] by (simp add: v n e adapter_follows_def open_callbacks_acts d1 l0 queued_callbacks_def)
  qed
  then show ?thesis
    using assms(2) callback_actions_count(3) [OF q] d0 l0(2) by (simp add: accounted_def v e callbacks_set_def)
qed

lemma ts_step_accounted: "ts_step x y \<Longrightarrow> ws_inv (snd x) \<Longrightarrow> accounted x \<Longrightarrow> accounted y"
proof (induction rule: ts_step.induct)
  case (ts_call s s' a)
  then show ?case using client_call_keeps [of s s'] by (simp add: accounted_def callbacks_set_def queued_callbacks_def)
next
  case (ts_sent k a s standalone ec)
  have "count_if (\<lambda>(_, i). si_callback i = Some f) (ad_outstanding a) =
      (if si_callback (snd (ad_outstanding a ! k)) = Some f then 1 else 0) +
      count_if (\<lambda>(_, i). si_callback i = Some f) (ad_outstanding (take_sent k a))" for f
    using count_if_take [OF ts_sent(1), of "\<lambda>(_, i). si_callback i = Some f"] by (simp add: take_sent_def case_prod_beta)
  moreover have "ad_calls (take_sent k a) = ad_calls a" by (simp add: take_sent_def)
  ultimately show ?case using ts_sent(3)
    by (auto simp: accounted_def open_callbacks_def queued_callbacks_def callbacks_set_def on_sent_keeps on_sent_def
        add_send_callback_def vis_def split: option.split)
next
  case (ts_process env a s failure)
  then show ?case using iterations(1) iterated_accounted by fastforce
next
  case (ts_shutdown env a s failure)
  then show ?case using iterations(2) iterated_accounted by fastforce
qed (simp_all add: on_open_def on_message_def on_close_def on_error_def accounted_def callbacks_set_def queued_callbacks_def
    open_callbacks_def init_connection_def add_fsm_event_keeps)

lemma ts_reachable_accounted: "ts_reachable x \<Longrightarrow> accounted x"
proof (induction rule: ts_reachable.induct)
  case (ts_next x y)
  then show ?case using ts_step_accounted ts_reachable_client ws_reachable_inv by blast
qed (simp add: accounted_def ws_adapter_init_def BaseWebSocketClient_init_def open_callbacks_def queued_callbacks_def
    callbacks_set_def vis_def)

section \<open>Calls of process, in sequence\<close>

definition ts_iterate :: "init_failure \<Rightarrow> ws_env \<Rightarrow> ws_adapter \<times> BaseWebSocketClient \<Rightarrow> ws_adapter \<times> BaseWebSocketClient" where
  "ts_iterate failure env = (\<lambda>(a, s). let s' = fst (ws_process env s) in (adapter_follows failure s s' a, s'))"

lemma ts_iterate_reachable: "ts_reachable x \<Longrightarrow> adapted env \<Longrightarrow> ts_reachable (ts_iterate failure env x)"
  by (cases x) (auto simp: ts_iterate_def Let_def intro: ts_next ts_process)

lemma ts_call_reachable: "ts_reachable (a, s) \<Longrightarrow> client_call s s' \<Longrightarrow> ts_reachable (a, s')"
  by (blast intro: ts_next ts_call)

definition unconnected :: "ws_adapter \<Rightarrow> bool" where
  "unconnected a \<longleftrightarrow> ad_ws_connection a = None \<and> ad_wss_connection a = None"

lemma acts_unconnected:
  "list_all (\<lambda>x. \<not> is_transport x) l \<Longrightarrow> unconnected (fold (adapter_act failure cfg) l a) = unconnected a"
proof (induction l arbitrary: a)
  case (Cons x l)
  then show ?case by (cases x) (simp_all add: adapter_send_def unconnected_def split: option.split)
qed simp

lemma deinit_unconnected: "unconnected (adapter_deinit_websocket a)"
  by (simp add: unconnected_def adapter_deinit_websocket_def)

lemma init_unconnected: "unconnected (fst (adapter_init_websocket failure config a)) = unconnected a"
  by (simp add: unconnected_def adapter_init_websocket_def init_client_def create_ws_client_def set_client_def Let_def
      split: option.split)

lemma ts_iterate_effect:
  assumes "adapted env" "vis (process_fsm_state env s) = vis s @ d"
  shows "\<exists>l. list_all (\<lambda>x. \<not> is_transport x) l \<and>
      fst (ts_iterate failure env (a, s)) = fold (adapter_act failure (m_config (process_fsm_state env s))) (d @ l) a"
    "m_fsm_state (snd (ts_iterate failure env (a, s))) = m_fsm_state (process_fsm_state env s)"
    "m_config (snd (ts_iterate failure env (a, s))) = m_config (process_fsm_state env s)"
    "m_is_running (snd (ts_iterate failure env (a, s))) = m_is_running (process_fsm_state env s)"
    "m_is_connected (snd (ts_iterate failure env (a, s))) = m_is_connected (process_fsm_state env s)"
    "m_fsm_event_queue (snd (ts_iterate failure env (a, s))) = m_fsm_event_queue (process_fsm_state env s)"
proof -
  let ?s = "process_fsm_state env s"
  have p: "push_arrivals env s = s" using assms(1) by (simp add: adapted_def push_arrivals_none)
  from message_queue_keeps(1) obtain sent where "vis (process_message_queue env ?s) = vis ?s @ map send_action sent" by blast
  then have "new_actions s (fst (ws_process env s)) = d @ map send_action sent @ fst (send_callback_actions (m_send_callback_queue s))"
    by (simp add: new_actions_def ws_process_def p callback_queue_keeps message_queue_keeps(2) assms(2))
  moreover have "list_all (\<lambda>x. \<not> is_transport x) (map send_action sent @ fst (send_callback_actions (m_send_callback_queue s)))"
    using callback_actions_quiet by (auto simp: list_all_iff send_action_def)
  moreover have "m_config (fst (ws_process env s)) = m_config ?s" by (simp add: ws_process_def p)
  ultimately show "\<exists>l. list_all (\<lambda>x. \<not> is_transport x) l \<and>
      fst (ts_iterate failure env (a, s)) = fold (adapter_act failure (m_config ?s)) (d @ l) a"
    unfolding ts_iterate_def adapter_follows_def
    by (intro exI [of _ "map send_action sent @ fst (send_callback_actions (m_send_callback_queue s))"]) (simp add: Let_def)
qed (use assms(1) in \<open>simp_all add: ts_iterate_def ws_process_def adapted_def push_arrivals_none Let_def\<close>)

text \<open>The state handlers on a configuration the transport accepts.\<close>

definition starts :: "WebSocketConfig \<Rightarrow> ws_env \<Rightarrow> bool" where
  "starts cfg env \<longleftrightarrow> adapted env \<and> valid_ws_config (Some cfg) \<and> (\<forall>s. m_config s = Some cfg \<longrightarrow> init_websocket_ok env s)"

lemma reconnecting_update:
  assumes "starts cfg env" "m_fsm_state s = RECONNECTING" "m_fsm_event_queue s = fsm_request UpdateConfig (Some cfg) f # q"
    "\<not> reconnect cfg"
  shows "vis (process_fsm_state env s) = vis s @ [ActInit True]" "m_fsm_state (process_fsm_state env s) = INIT"
    "\<not> m_is_running (process_fsm_state env s)" "m_config (process_fsm_state env s) = Some cfg"
    "m_fsm_event_queue (process_fsm_state env s) = q"
  using assms by (simp_all add: starts_def process_fsm_state_def process_state_reconnecting_def reconnecting_event_def
      pop_event_def fsm_request_def update_config_def init_websocket_eq reconnecting_attempt_def)

lemma connecting_update:
  assumes "starts cfg env" "m_fsm_state s = CONNECTING" "m_fsm_event_queue s = fsm_request UpdateConfig (Some cfg) f # q"
  shows "vis (process_fsm_state env s) = vis s @ [ActDeinit, ActInit True]" "m_fsm_state (process_fsm_state env s) = CONNECTING"
    "m_config (process_fsm_state env s) = Some cfg" "m_fsm_event_queue (process_fsm_state env s) = q"
  using assms by (simp_all add: starts_def process_fsm_state_def process_state_connecting_def pop_event_def
      fsm_request_def update_config_def init_websocket_eq)

lemma connecting_opened:
  assumes "m_fsm_state s = CONNECTING" "m_fsm_event_queue s = e # q" "fe_type e = ConnectionOpened"
  shows "vis (process_fsm_state env s) = vis s" "m_fsm_state (process_fsm_state env s) = WORKING"
    "m_config (process_fsm_state env s) = m_config s" "m_is_connected (process_fsm_state env s)"
  using assms by (simp_all add: process_fsm_state_def process_state_connecting_def pop_event_def)

section \<open>A run\<close>

definition ts_env :: ws_env where
  "ts_env = (wit_env [])\<lparr>init_websocket_ok := (\<lambda>s. valid_ws_config (m_config s))\<rparr>"

definition ts_cfg :: WebSocketConfig where
  "ts_cfg = WebSocketConfig_default\<lparr>wc_url := ''wss://a.b'', reconnect_delay := 0\<rparr>"

definition ts_connecting :: "ws_adapter \<times> BaseWebSocketClient" where
  "ts_connecting = ts_iterate StartThrows ts_env (ts_iterate StartThrows ts_env
     (ws_adapter_init, ws_connect None (set_config (Some ts_cfg) None BaseWebSocketClient_init)))"

lemma ts_env_adapted: "adapted ts_env"
  by (simp add: adapted_def ts_env_def wit_env_def)

lemma ts_cfg_valid: "valid_ws_config (Some ts_cfg)"
  by code_simp

lemma ts_cfg_wss: "extract_protocol (wc_url ts_cfg) = ''wss''"
  by code_simp

lemma ts_env_starts: "valid_ws_config (Some cfg) \<Longrightarrow> starts cfg ts_env"
  using ts_env_adapted by (simp add: starts_def) (simp add: ts_env_def)

lemma ts_connecting_reachable: "ts_reachable ts_connecting"
  unfolding ts_connecting_def
  by (intro ts_iterate_reachable ts_env_adapted ts_call_reachable [OF ts_call_reachable [OF ts_start call_set_config] call_connect])

lemma ts_connecting_client:
  "m_fsm_state (snd ts_connecting) = CONNECTING" "m_fsm_event_queue (snd ts_connecting) = []" "m_config (snd ts_connecting) = Some ts_cfg"
  by (simp_all add: ts_connecting_def ts_iterate_def Let_def) code_simp+

definition ts_opened :: "ws_adapter \<times> BaseWebSocketClient \<Rightarrow> ws_adapter \<times> BaseWebSocketClient" where
  "ts_opened = on_open (\<lambda>_. 101) True \<lparr>sn_http_version = ''1.1'', sn_status_code = ''101 Switching Protocols'', sn_header = [],
     sn_address = ''10.0.0.1'', sn_port = 443\<rparr>"

lemma ts_owned:
  assumes "ts_reachable x" "m_fsm_state (snd x) \<in> {CONNECTING, WORKING}" "m_config (snd x) = Some ts_cfg"
  shows "owns True (fst x)"
  using ts_cfg_wss ts_reachable_matched [OF assms(1)] assms(2,3)
  by (auto simp: matched_def holds_client_def owns_def client_for_def split: prod.splits)

lemma ts_opened_reachable: "ts_reachable x \<Longrightarrow> owns True (fst x) \<Longrightarrow> ts_reachable (ts_opened x)"
  unfolding ts_opened_def by (metis prod.collapse ts_next ts_open)

definition ts_working :: "ws_adapter \<times> BaseWebSocketClient" where
  "ts_working = ts_iterate StartThrows ts_env (ts_opened ts_connecting)"

definition ts_reconnecting :: "ws_adapter \<times> BaseWebSocketClient" where
  "ts_reconnecting = ts_iterate StartThrows ts_env (fst ts_working, on_close 1006 ''lost'' (snd ts_working))"

lemma ts_working_reachable: "ts_reachable ts_working"
  unfolding ts_working_def
  by (rule ts_iterate_reachable [OF ts_opened_reachable [OF ts_connecting_reachable ts_owned [OF ts_connecting_reachable]] ts_env_adapted])
    (simp_all add: ts_connecting_client)

lemma ts_working_client: "m_fsm_state (snd ts_working) = WORKING" "m_config (snd ts_working) = Some ts_cfg"
  by (simp_all add: ts_working_def ts_opened_def ts_iterate_def on_open_def ts_connecting_def Let_def) code_simp+

lemma ts_reconnecting_reachable: "ts_reachable ts_reconnecting"
proof -
  have "ts_reachable (fst ts_working, on_close 1006 ''lost'' (snd ts_working))"
    using ts_next [OF ts_working_reachable] ts_close [OF ts_owned [OF ts_working_reachable]] by (simp add: ts_working_client) (metis prod.collapse)
  then show ?thesis unfolding ts_reconnecting_def by (rule ts_iterate_reachable [OF _ ts_env_adapted])
qed

lemma ts_reconnecting_client: "m_fsm_state (snd ts_reconnecting) = RECONNECTING" "m_fsm_event_queue (snd ts_reconnecting) = []"
  by (simp_all add: ts_reconnecting_def ts_working_def ts_opened_def ts_iterate_def on_open_def ts_connecting_def Let_def) code_simp+

section \<open>Properties\<close>

text \<open>
  C20: the transport follows the state machine. On every run of a client on the Simple-Web adapter - calls of the
  user, handlers of the transport, \<^verbatim>\<open>process\<close> and the loop of \<^verbatim>\<open>shutdown\<close> in any order, with
  \<^verbatim>\<open>init_websocket\<close> failing wherever it can - the client in the states CONNECTING and WORKING has a
  configuration whose URL is one of \<^verbatim>\<open>ws\<close> or \<^verbatim>\<open>wss\<close>, and the adapter holds exactly the socket client
  of that protocol, started, with the host, TLS settings, timeouts, headers and proxy of this configuration, and no
  client of the other protocol. In the state RECONNECTING it holds neither a client nor a connection. The states
  and the open and close events of the client on this transport are a run of the life cycle of a connection
  (\<open>life_step\<close>).
\<close>

theorem transport_follows_fsm:
  assumes "ts_reachable (a, s)"
  shows "(m_fsm_state s \<in> {CONNECTING, WORKING} \<longrightarrow>
      (\<exists>cfg. m_config s = Some cfg \<and> 6 \<le> length (wc_url cfg) \<and>
        (extract_protocol (wc_url cfg) = ''wss'' \<and> ad_wss_client a = Some (client_for True cfg) \<and> ad_ws_client a = None \<or>
         extract_protocol (wc_url cfg) = ''ws'' \<and> ad_ws_client a = Some (client_for False cfg) \<and> ad_wss_client a = None))) \<and>
    (m_fsm_state s = RECONNECTING \<longrightarrow> ad_ws_client a = None \<and> ad_wss_client a = None \<and> ad_connection a = None) \<and>
    life_step\<^sup>*\<^sup>* (INIT, []) (life s)"
proof (intro conjI impI)
  from ts_reachable_matched [OF assms] have m: "matched (a, s)" .
  from ts_reachable_life [OF assms] show "life_step\<^sup>*\<^sup>* (INIT, []) (life s)" by simp
  {
    assume "m_fsm_state s \<in> {CONNECTING, WORKING}"
    with m have "valid_ws_config (m_config s)" "holds_client (m_config s) a" by (auto simp: matched_def)
    then show "\<exists>cfg. m_config s = Some cfg \<and> 6 \<le> length (wc_url cfg) \<and>
        (extract_protocol (wc_url cfg) = ''wss'' \<and> ad_wss_client a = Some (client_for True cfg) \<and> ad_ws_client a = None \<or>
         extract_protocol (wc_url cfg) = ''ws'' \<and> ad_ws_client a = Some (client_for False cfg) \<and> ad_wss_client a = None)"
      by (auto simp: valid_ws_config_def holds_client_def split: option.splits if_splits)
  }
  assume "m_fsm_state s = RECONNECTING"
  with m show "ad_ws_client a = None" "ad_wss_client a = None" "ad_connection a = None"
    by (simp_all add: matched_def holds_nothing_def ad_connection_def)
qed

theorem transport_follows_fsm_witness:
  "ad_wss_client (fst ts_connecting) = Some (client_for True ts_cfg) \<and> ad_ws_client (fst ts_connecting) = None"
  using transport_follows_fsm [of "fst ts_connecting" "snd ts_connecting"] ts_connecting_reachable ts_connecting_client
  by (simp add: ts_cfg_wss)

text \<open>
  C21: no callback of a message is lost or called twice. On every run of a client on the Simple-Web adapter and for every
  callback \<^verbatim>\<open>f\<close>, each message with this callback that was handed to the transport is in exactly one place:
  its callback was called at once because there was no connection, the transport has not reported it yet, its report is
  in the queue of send callbacks, or \<^verbatim>\<open>process\<close> has called it. An empty callback is never called, so that
  \<^verbatim>\<open>process\<close> always returns normally.
\<close>

theorem send_callbacks_accounted:
  assumes "ts_reachable (a, s)"
  shows "count_if (sends_with f) (ws_log s) =
      count_if (\<lambda>(_, g). g = f) (ad_calls a) + count_if (\<lambda>(_, i). si_callback i = Some f) (ad_outstanding a) +
      count_if (\<lambda>(_, g). g = Some f) (m_send_callback_queue s) + count_if (answers f) (ws_log s) \<and>
    ActBadFunctionCall \<notin> set (ws_log s) \<and> snd (ws_process env s)"
proof -
  have a: "accounted (a, s)" by (rule ts_reachable_accounted [OF assms])
  have v: "count_if (sends_with f) (filter visible l) = count_if (sends_with f) l"
    "count_if (answers f) (filter visible l) = count_if (answers f) l" for l
    by (induction l) (auto elim: sends_with.elims answers.elims)
  have "callbacks_set (process_message_queue env (process_fsm_state env (push_arrivals env s))) = callbacks_set s"
    by (simp add: callbacks_set_def message_queue_keeps(2) callback_queue_arrivals)
  with a have "snd (ws_process env s)" using callback_queue_returns by (simp add: accounted_def ws_process_def)
  moreover have "count_if (sends_with f) (vis s) = open_callbacks f a + queued_callbacks f s + count_if (answers f) (vis s)"
    "ActBadFunctionCall \<notin> set (vis s)"
    using a by (simp_all add: accounted_def)
  ultimately show ?thesis by (simp add: vis_def v open_callbacks_def queued_callbacks_def)
qed

definition ts_submitted :: "ws_adapter \<times> BaseWebSocketClient" where
  "ts_submitted = ts_iterate StartThrows ts_env (fst ts_working, fst (submit_message ''hi'' 0 (Some 7) (snd ts_working)))"

lemma ts_submitted_reachable: "ts_reachable ts_submitted"
  unfolding ts_submitted_def
  by (intro ts_iterate_reachable ts_env_adapted ts_call_reachable [OF _ call_submit_message]) (simp add: ts_working_reachable)

theorem send_callbacks_accounted_witness:
  "count_if (\<lambda>(_, g). g = 7) (ad_calls (fst ts_submitted)) + count_if (\<lambda>(_, i). si_callback i = Some 7) (ad_outstanding (fst ts_submitted)) +
     count_if (\<lambda>(_, g). g = Some 7) (m_send_callback_queue (snd ts_submitted)) + count_if (answers 7) (ws_log (snd ts_submitted)) = 1"
proof -
  have "count_if (sends_with 7) (ws_log (snd ts_submitted)) = 1" by code_simp
  then show ?thesis
    using send_callbacks_accounted [of "fst ts_submitted" "snd ts_submitted" 7 ts_env] ts_submitted_reachable by simp
qed

lemma open_keeps: "holds_client c (init_connection wss n a) = holds_client c a" "\<not> unconnected (init_connection wss n a)"
  by (simp_all add: init_connection_def holds_client_def unconnected_def split: option.split)

lemma init_drops_open:
  assumes "adapted env" "m_fsm_state s = INIT" "m_fsm_event_queue s = []"
    and "ts_iterate failure env (on_open sc wss n (a, s)) = (a2, s2)"
  shows "m_fsm_state s2 = INIT \<and> m_is_running s2 = m_is_running s \<and> m_fsm_event_queue s2 = [] \<and> is_connected s2 = is_connected s \<and>
    holds_client c a2 = holds_client c a \<and> \<not> unconnected a2 \<and> \<not> has_events (m_fsm_event_queue s2)"
proof -
  let ?d = "Some (create_websocket_open_event sc n)"
  let ?s = "add_fsm_event ConnectionOpened ?d s"
  have o: "process_fsm_state env ?s = ?s\<lparr>m_fsm_event_queue := []\<rparr>"
    using assms(2,3) by (simp add: process_fsm_state_def process_state_init_def pop_event_def add_fsm_event_def call_callback_def)
  have "vis (process_fsm_state env ?s) = vis ?s @ []" by (simp add: o)
  note e = ts_iterate_effect [OF assms(1) this, of failure "init_connection wss n a", unfolded assms(4) [unfolded on_open_def map_prod_simp], unfolded o]
  obtain l where "list_all (\<lambda>x. \<not> is_transport x) l" "a2 = fold (adapter_act failure (m_config ?s)) l (init_connection wss n a)"
    using e(1) by (auto simp: add_fsm_event_keeps)
  with acts_keep acts_unconnected have "holds_client c a2 = holds_client c a \<and> \<not> unconnected a2" by (simp add: open_keeps)
  with e(2-6) assms(2) show ?thesis
    by (simp add: is_connected_def has_events_def add_fsm_event_keeps) (simp add: add_fsm_event_def)
qed

text \<open>
  A change of the configuration can leave a connection nobody ends. A client that waits for its next attempt gets
  \<^verbatim>\<open>UpdateConfig\<close> with a configuration that does not reconnect: \<^verbatim>\<open>process_state_reconnecting\<close> starts a
  transport with it, then goes on to the second half of the function, which sees \<^verbatim>\<open>reconnect\<close> unset and returns to
  INIT without \<^verbatim>\<open>deinit_websocket\<close>. The client is not running, and the adapter holds the started socket.
  When that socket opens, INIT drops the event; the client stays not connected, with an open connection.
\<close>

theorem update_leaks_transport:
  assumes "starts cfg env" "m_fsm_state s = RECONNECTING" "m_fsm_event_queue s = [fsm_request UpdateConfig (Some cfg) f]"
    "\<not> reconnect cfg" "ad_io_context a" "ws_inv s"
    "ts_iterate failure env (a, s) = (a1, s1)" "ts_iterate failure env (on_open sc wss n (a1, s1)) = (a2, s2)"
  shows "m_fsm_state s1 = INIT \<and> \<not> ws_is_running s1 \<and> holds_client (Some cfg) a1 \<and>
    m_fsm_state s2 = INIT \<and> \<not> ws_is_running s2 \<and> \<not> is_connected s2 \<and> holds_client (Some cfg) a2 \<and> \<not> unconnected a2"
proof -
  have ad: "adapted env" and valid: "valid_ws_config (Some cfg)" using assms(1) by (simp_all add: starts_def)
  note u = reconnecting_update [OF assms(1-4)]
  note e = ts_iterate_effect [OF ad u(1), of failure a, unfolded assms(7) u]
  obtain l where l: "list_all (\<lambda>x. \<not> is_transport x) l" "a1 = fold (adapter_act failure (Some cfg)) ([ActInit True] @ l) a"
    using e(1) by auto
  have held: "holds_client (Some cfg) a1"
    using acts_keep [OF l(1)] l(2) init_websocket_holds [OF valid assms(5)] by simp
  have "ws_inv s1" using ws_step_inv [OF step_process assms(6)] assms(7) ad by (auto simp: ts_iterate_def Let_def adapted_def)
  with e have s1: "m_fsm_state s1 = INIT \<and> \<not> ws_is_running s1 \<and> \<not> is_connected s1" "m_fsm_event_queue s1 = []"
    by (simp_all add: ws_is_running_def has_events_def is_connected_def ws_inv_def)
  from init_drops_open [OF ad _ s1(2) assms(8)] s1 held show ?thesis by (simp add: ws_is_running_def)
qed

definition ts_once :: WebSocketConfig where
  "ts_once = ts_cfg\<lparr>reconnect := False\<rparr>"

theorem update_leaks_transport_witness:
  "\<exists>a s a1 s1 a2 s2. ts_reachable (a, s) \<and> ts_iterate StartThrows ts_env (a, s) = (a1, s1) \<and>
     ts_iterate StartThrows ts_env (ts_opened (a1, s1)) = (a2, s2) \<and> \<not> ws_is_running s2 \<and> \<not> is_connected s2 \<and> \<not> unconnected a2"
proof -
  let ?a = "fst ts_reconnecting" and ?s = "set_config (Some ts_once) None (snd ts_reconnecting)"
  have r: "ts_reachable (?a, ?s)"
    using ts_call_reachable [of ?a "snd ts_reconnecting"] ts_reconnecting_reachable call_set_config by simp
  obtain a1 s1 where i1: "ts_iterate StartThrows ts_env (?a, ?s) = (a1, s1)" by fastforce
  obtain a2 s2 where i2: "ts_iterate StartThrows ts_env (ts_opened (a1, s1)) = (a2, s2)" by fastforce
  have v: "valid_ws_config (Some ts_once)" by code_simp
  have "ad_io_context ?a" "ws_inv ?s"
    using ts_reachable_matched [OF r] ws_reachable_inv [OF ts_reachable_client [OF r]] by (auto simp: matched_def)
  with update_leaks_transport [OF ts_env_starts [OF v] _ _ _ _ _ i1, of None] i2 ts_reconnecting_client
  have "\<not> ws_is_running s2 \<and> \<not> is_connected s2 \<and> \<not> unconnected a2"
    unfolding ts_opened_def by (simp add: set_config_def ts_once_def)
  with r i1 i2 show ?thesis by blast
qed

text \<open>
  The opening of a transport that is gone counts for the one that replaced it. When \<^verbatim>\<open>UpdateConfig\<close> stands in the
  queue before the \<^verbatim>\<open>ConnectionOpened\<close> of the transport it replaces, the client drops this transport, starts the next,
  and then takes the old event for the opening of the new one. It is in the state WORKING and reports a connection while the
  adapter has none; each message it accepts then fails with \<^verbatim>\<open>NotConnected\<close>.
\<close>

theorem stale_open_connects:
  assumes "starts cfg env" "m_fsm_state s = CONNECTING" "m_fsm_event_queue s = [fsm_request UpdateConfig (Some cfg) f, e]"
    "fe_type e = ConnectionOpened"
    "ts_iterate failure env (a, s) = (a1, s1)" "ts_iterate failure env (a1, s1) = (a2, s2)"
  shows "m_fsm_state s2 = WORKING \<and> is_connected s2 \<and> ad_connection a2 = None \<and>
    (msg \<noteq> [] \<and> m_max_send_queue_size s2 = 0 \<longrightarrow> accepted (snd (submit_message msg rid (Some g) s2))) \<and>
    (si_callback i = Some g \<longrightarrow> ad_calls (adapter_send i a2) = ad_calls a2 @ [(client_error NotConnected, g)])"
proof -
  have ad: "adapted env" using assms(1) by (simp add: starts_def)
  note u = connecting_update [OF assms(1-3)]
  note e1 = ts_iterate_effect [OF ad u(1), of failure a, unfolded assms(5) u]
  obtain l where l: "list_all (\<lambda>x. \<not> is_transport x) l" "a1 = fold (adapter_act failure (Some cfg)) ([ActDeinit, ActInit True] @ l) a"
    using e1(1) by auto
  have a1: "unconnected a1" using acts_unconnected [OF l(1)] l(2) deinit_unconnected by (simp add: init_unconnected)
  have s1: "m_fsm_state s1 = CONNECTING" "m_fsm_event_queue s1 = [e]" using e1 by simp_all
  note o = connecting_opened [OF s1 assms(4), of env]
  have "vis (process_fsm_state env s1) = vis s1 @ []" by (simp add: o)
  note e2 = ts_iterate_effect [OF ad this, of failure a1, unfolded assms(6)]
  then obtain l2 where "list_all (\<lambda>x. \<not> is_transport x) l2" "a2 = fold (adapter_act failure (m_config (process_fsm_state env s1))) l2 a1" by auto
  with a1 acts_unconnected have "unconnected a2" by simp
  with e2(2,5) o show ?thesis
    by (simp add: is_connected_def unconnected_def ad_connection_def adapter_send_def submit_message_def submit_result_def)
qed

theorem stale_open_connects_witness:
  "\<exists>a s a1 s1 a2 s2. ts_reachable (a, s) \<and> ts_iterate StartThrows ts_env (a, s) = (a1, s1) \<and>
     ts_iterate StartThrows ts_env (a1, s1) = (a2, s2) \<and> is_connected s2 \<and> ad_connection a2 = None"
proof -
  let ?c = "(fst ts_connecting, set_config (Some ts_once) None (snd ts_connecting))"
  have r: "ts_reachable ?c"
    using ts_call_reachable [of "fst ts_connecting" "snd ts_connecting"] ts_connecting_reachable call_set_config by simp
  obtain a s where c: "ts_opened ?c = (a, s)" by fastforce
  have o: "owns True (fst ?c)" using ts_owned [OF ts_connecting_reachable] ts_connecting_client by simp
  obtain a1 s1 where i1: "ts_iterate StartThrows ts_env (a, s) = (a1, s1)" by fastforce
  obtain a2 s2 where i2: "ts_iterate StartThrows ts_env (a1, s1) = (a2, s2)" by fastforce
  have v: "valid_ws_config (Some ts_once)" by code_simp
  have s: "s = add_fsm_event ConnectionOpened (fe_event_data (last (m_fsm_event_queue s))) (snd ?c)"
    using c by (auto simp: ts_opened_def on_open_def add_fsm_event_def)
  then have "m_fsm_event_queue s = [fsm_request UpdateConfig (Some ts_once) None, last (m_fsm_event_queue s)]"
    "fe_type (last (m_fsm_event_queue s)) = ConnectionOpened" "m_fsm_state s = CONNECTING"
    using ts_connecting_client c by (auto simp: ts_opened_def on_open_def add_fsm_event_def set_config_def)
  with stale_open_connects [OF ts_env_starts [OF v] _ _ _ i1 i2, of None "last (m_fsm_event_queue s)"]
  have "is_connected s2 \<and> ad_connection a2 = None" by simp
  moreover have "ts_reachable (a, s)" using ts_opened_reachable [OF r o] c by simp
  ultimately show ?thesis using i1 i2 by blast
qed

end
