(* ===== verification/Web_Socket_Sender.thy ===== *)
theory Web_Socket_Sender
  imports Web_Socket_Facade
begin

text \<open>
  \<^verbatim>\<open>websocket/client/BaseWebSocketClient/IWebSocketSender.hpp\<close>: what senders promise their callers, as a locale,
  with \<open>BaseWebSocketClient\<close> and the facade \<open>WebSocketClient\<close> as its instances, and the two default
  implementations of the interface.
\<close>

section \<open>The interface\<close>

datatype send_request = SendMessage string int "cb option" | SendClose int string "cb option"

text \<open>\<open>submit_message\<close> and \<open>submit_close\<close> of the interface, for implementations that have only \<open>send_message\<close> and
  \<open>send_close\<close>.\<close>

definition default_submit :: "(send_request \<Rightarrow> 's \<Rightarrow> 's \<times> bool) \<Rightarrow> send_request \<Rightarrow> 's \<Rightarrow> 's \<times> SubmitResult" where
  "default_submit send x s = (let (s', accepted) = send x s in (s', submit_result accepted no_error))"

locale web_socket_sender =
  fixes submit :: "send_request \<Rightarrow> 's \<Rightarrow> 's \<times> SubmitResult"
    and send :: "send_request \<Rightarrow> 's \<Rightarrow> 's \<times> bool"
    and connected :: "'s \<Rightarrow> bool"
    and queued :: "'s \<Rightarrow> WebSocketSendInfo list"
  assumes send_submit: "send x s = map_prod id accepted (submit x s)"
    and submit_reports: "accepted (snd (submit x s)) \<longleftrightarrow> \<not> ec_bool (submit_error (snd (submit x s)))"
    and submit_refused: "\<not> accepted (snd (submit x s)) \<Longrightarrow> fst (submit x s) = s"
    and submit_offline: "accepted (snd (submit x s)) \<Longrightarrow> connected s"
    and submit_connected: "connected (fst (submit x s)) = connected s"
    and submit_queued: "accepted (snd (submit x s)) \<Longrightarrow> \<exists>i. queued (fst (submit x s)) = queued s @ [i]"
begin

primrec submit_all :: "send_request list \<Rightarrow> 's \<Rightarrow> 's \<times> SubmitResult list" where
  "submit_all [] s = (s, [])"
| "submit_all (x # xs) s = (let (s1, r) = submit x s; (s2, rs) = submit_all xs s1 in (s2, r # rs))"

text \<open>The queue grows by one entry for each request that is accepted, and each refusal has an error.\<close>

lemma submit_all_queued:
  "submit_all xs s = (s', rs) \<Longrightarrow>
     (\<exists>is. queued s' = queued s @ is \<and> length is = length (filter accepted rs)) \<and> length rs = length xs \<and>
     list_all (\<lambda>r. accepted r \<or> ec_bool (submit_error r)) rs"
proof (induction xs arbitrary: s rs)
  case (Cons x xs)
  obtain s1 r where 1: "submit x s = (s1, r)" by fastforce
  obtain rs' where 2: "submit_all xs s1 = (s', rs')" and rs: "rs = r # rs'" using Cons.prems 1 by (auto split: prod.splits)
  from Cons.IH [OF 2] obtain "is" where i: "queued s' = queued s1 @ is" "length is = length (filter accepted rs')" "length rs' = length xs"
    "list_all (\<lambda>r. accepted r \<or> ec_bool (submit_error r)) rs'" by auto
  show ?case
  proof (cases "accepted r")
    case True
    with submit_queued [of x s] 1 obtain k where "queued s1 = queued s @ [k]" by auto
    with True i rs show ?thesis by (intro conjI exI [of _ "k # is"]) simp_all
  next
    case False
    with submit_refused [of x s] submit_reports [of x s] 1 i rs show ?thesis by auto
  qed
qed simp

lemma submit_all_offline:
  "\<not> connected s \<Longrightarrow> submit_all xs s = (s', rs) \<Longrightarrow> s' = s \<and> list_all (\<lambda>r. \<not> accepted r) rs"
proof (induction xs arbitrary: s rs)
  case (Cons x xs)
  obtain s1 r where 1: "submit x s = (s1, r)" by fastforce
  with Cons.prems(1) submit_offline [of x s] submit_refused [of x s] have r: "\<not> accepted r" "s1 = s" by auto
  obtain rs' where "submit_all xs s = (s', rs')" "rs = r # rs'" using Cons.prems(2) 1 r(2) by (auto split: prod.splits)
  with Cons.IH [of s rs'] Cons.prems(1) r show ?case by simp
qed simp

text \<open>A sender whose \<open>submit\<close> is the default one gives the same answers, without the reasons.\<close>

lemma default_submit_eq:
  "default_submit send x s = map_prod id (\<lambda>r. submit_result (accepted r) no_error) (submit x s)"
  by (simp add: default_submit_def send_submit case_prod_beta prod_eq_iff)

end

section \<open>The client and the facade\<close>

fun base_submit :: "send_request \<Rightarrow> BaseWebSocketClient \<Rightarrow> BaseWebSocketClient \<times> SubmitResult" where
  "base_submit (SendMessage m i f) s = submit_message m i f s"
| "base_submit (SendClose st r f) s = submit_close st r f s"

fun base_send :: "send_request \<Rightarrow> BaseWebSocketClient \<Rightarrow> BaseWebSocketClient \<times> bool" where
  "base_send (SendMessage m i f) s = send_message m i f s"
| "base_send (SendClose st r f) s = send_close st r f s"

fun wsc_submit :: "WebSocketClient \<Rightarrow> send_request \<Rightarrow> WebSocketManager \<Rightarrow> WebSocketManager \<times> SubmitResult" where
  "wsc_submit c (SendMessage m i f) w = wsc_submit_message m i f c w"
| "wsc_submit c (SendClose st r f) w = wsc_submit_close st r f c w"

fun wsc_send :: "WebSocketClient \<Rightarrow> send_request \<Rightarrow> WebSocketManager \<Rightarrow> WebSocketManager \<times> bool" where
  "wsc_send c (SendMessage m i f) w = wsc_send_message m i f c w"
| "wsc_send c (SendClose st r f) w = wsc_send_close st r f c w"

definition wsc_queued :: "WebSocketClient \<Rightarrow> WebSocketManager \<Rightarrow> WebSocketSendInfo list" where
  "wsc_queued c w = (case ws_clients w (f_client c) of None \<Rightarrow> [] | Some s \<Rightarrow> m_message_queue s)"

interpretation base_sender: web_socket_sender base_submit base_send is_connected m_message_queue
proof unfold_locales
  fix x s
  show "base_send x s = map_prod id accepted (base_submit x s)"
    by (cases x) (simp_all add: send_message_def send_close_def case_prod_beta prod_eq_iff)
  show "accepted (snd (base_submit x s)) \<longleftrightarrow> \<not> ec_bool (submit_error (snd (base_submit x s)))"
    by (cases x) (simp_all add: submit_message_def submit_close_def Let_def ec_bool_def no_error_def client_error_def)
  show "\<not> accepted (snd (base_submit x s)) \<Longrightarrow> fst (base_submit x s) = s"
    by (cases x) (auto simp: submit_message_def submit_close_def Let_def split: if_splits)
  show "accepted (snd (base_submit x s)) \<Longrightarrow> is_connected s"
    by (cases x) (auto simp: submit_message_def submit_close_def Let_def split: if_splits)
  show "is_connected (fst (base_submit x s)) = is_connected s"
    by (cases x) (auto simp: submit_message_def submit_close_def is_connected_def Let_def)
  show "accepted (snd (base_submit x s)) \<Longrightarrow> \<exists>i. m_message_queue (fst (base_submit x s)) = m_message_queue s @ [i]"
    by (cases x) (auto simp: submit_message_def submit_close_def Let_def split: if_splits)
qed

lemma wsc_submit_eq:
  "wsc_submit c x w =
     (case ws_clients w (f_client c) of
        None \<Rightarrow> (w, submit_result False (client_error NotConnected))
      | Some s \<Rightarrow> map_prod (\<lambda>s'. on_client (f_client c) (\<lambda>_. s') w) id (base_submit x s))"
  by (cases x) (simp_all add: wsc_submit_message_def wsc_submit_close_def case_prod_beta prod_eq_iff split: option.split)

lemma wsc_send_eq: "wsc_send c x w = map_prod id accepted (wsc_submit c x w)"
  by (cases x) (simp_all add: wsc_send_message_def wsc_send_close_def case_prod_beta prod_eq_iff)

interpretation wsc_sender: web_socket_sender "wsc_submit c" "wsc_send c" "wsc_is_connected c" "wsc_queued c" for c
proof unfold_locales
  fix x w
  show "wsc_send c x w = map_prod id accepted (wsc_submit c x w)" by (rule wsc_send_eq)
  show "accepted (snd (wsc_submit c x w)) \<longleftrightarrow> \<not> ec_bool (submit_error (snd (wsc_submit c x w)))"
    using base_sender.submit_reports by (simp add: wsc_submit_eq split: option.split)
  show "wsc_is_connected c (fst (wsc_submit c x w)) = wsc_is_connected c w"
    using base_sender.submit_connected by (simp add: wsc_submit_eq wsc_is_connected_def on_client_def split: option.split)
  show "\<not> accepted (snd (wsc_submit c x w)) \<Longrightarrow> fst (wsc_submit c x w) = w"
    using base_sender.submit_refused by (simp add: wsc_submit_eq on_client_def fun_upd_idem split: option.splits)
  show "accepted (snd (wsc_submit c x w)) \<Longrightarrow> wsc_is_connected c w"
    using base_sender.submit_offline by (simp add: wsc_submit_eq wsc_is_connected_def split: option.splits)
  show "accepted (snd (wsc_submit c x w)) \<Longrightarrow> \<exists>i. wsc_queued c (fst (wsc_submit c x w)) = wsc_queued c w @ [i]"
    using base_sender.submit_queued by (simp add: wsc_submit_eq wsc_queued_def on_client_def split: option.splits)
qed

text \<open>A burst of messages through a facade: the queue of its client grows by exactly the accepted ones, each refused one
  comes with an error, and a facade that is not connected accepts none and changes nothing.\<close>

lemma facade_burst:
  assumes "wsc_sender.submit_all c xs w = (w', rs)"
  shows "(\<exists>is. wsc_queued c w' = wsc_queued c w @ is \<and> length is = length (filter accepted rs)) \<and> length rs = length xs \<and>
    list_all (\<lambda>r. accepted r \<or> ec_bool (submit_error r)) rs \<and>
    (\<not> wsc_is_connected c w \<longrightarrow> w' = w \<and> list_all (\<lambda>r. \<not> accepted r) rs)"
  using wsc_sender.submit_all_queued [OF assms] wsc_sender.submit_all_offline [OF _ assms] by blast

end
