(* ===== verification/Json_Bindings.thy ===== *)
theory Json_Bindings
  imports Http_Auth Proxy_Config
begin

text \<open>
  The conversions to and from JSON: \<^verbatim>\<open>http/auth/data/OAuthConfig.hpp\<close>, \<^verbatim>\<open>OAuthToken.hpp\<close>, \<^verbatim>\<open>AuthResult.hpp\<close>,
  \<^verbatim>\<open>types/ProxyConfig.hpp\<close> and \<^verbatim>\<open>types/type_utils.hpp\<close>.

  nlohmann::json is the argument \<open>json_api\<close>, with the calls the conversions make; a call that throws gives \<open>Inl\<close>
  with the text of the exception. \<open>json_laws\<close> is what its documentation says of values the conversions build.
  \<open>from_json\<close> writes into an object the caller has: the result is this object and the exception that ended the
  conversion, so that the fields read before it are visible.
\<close>

section \<open>The library\<close>

record 'j json_api =
  ja_object :: "(string \<times> 'j) list \<Rightarrow> 'j"
  ja_string :: "string \<Rightarrow> 'j"
  ja_bool :: "bool \<Rightarrow> 'j"
  ja_int :: "int \<Rightarrow> 'j"
  ja_contains :: "'j \<Rightarrow> string \<Rightarrow> bool"
  ja_at :: "'j \<Rightarrow> string \<Rightarrow> 'j"
  ja_is_number_integer :: "'j \<Rightarrow> bool"
  ja_get_string :: "'j \<Rightarrow> string + string"
  ja_get_bool :: "'j \<Rightarrow> string + bool"
  ja_get_int :: "'j \<Rightarrow> string + int"
  ja_get_int64 :: "'j \<Rightarrow> string + int"

definition int64 :: "int \<Rightarrow> bool" where
  "int64 n \<longleftrightarrow> - (2 ^ 63) \<le> n \<and> n < 2 ^ 63"

definition json_laws :: "'j json_api \<Rightarrow> bool" where
  "json_laws api \<longleftrightarrow>
     (\<forall>kvs k. distinct (map fst kvs) \<longrightarrow> ja_contains api (ja_object api kvs) k = (k \<in> fst ` set kvs)) \<and>
     (\<forall>kvs k v. distinct (map fst kvs) \<and> map_of kvs k = Some v \<longrightarrow> ja_at api (ja_object api kvs) k = v) \<and>
     (\<forall>s. ja_get_string api (ja_string api s) = Inr s \<and> \<not> ja_is_number_integer api (ja_string api s)) \<and>
     (\<forall>b. ja_get_bool api (ja_bool api b) = Inr b) \<and>
     (\<forall>n. int64 n \<longrightarrow> ja_get_int64 api (ja_int api n) = Inr n)"

section \<open>Reading fields\<close>

type_synonym 'a outcome = "'a \<times> string option"

definition read_field ::
    "'j json_api \<Rightarrow> 'j \<Rightarrow> string \<Rightarrow> ('j \<Rightarrow> string + 'v) \<Rightarrow> ('v \<Rightarrow> 'a \<Rightarrow> 'a) \<Rightarrow> 'a outcome \<Rightarrow> 'a outcome" where
  "read_field api j key get assign = (\<lambda>(x, thrown).
     if thrown \<noteq> None \<or> \<not> ja_contains api j key then (x, thrown)
     else case get (ja_at api j key) of
       Inl what \<Rightarrow> (x, Some what)
     | Inr v \<Rightarrow> (assign v x, None))"

text \<open>\<open>get<T>()\<close> of a record reads into a new object.\<close>

definition get_record :: "('j \<Rightarrow> 'a \<Rightarrow> 'a outcome) \<Rightarrow> 'a \<Rightarrow> 'j \<Rightarrow> string + 'a" where
  "get_record from_json fresh j = (case from_json j fresh of (x, None) \<Rightarrow> Inr x | (x, Some what) \<Rightarrow> Inl what)"

section \<open>OAuth\<close>

definition OAuthConfig_to_json :: "'j json_api \<Rightarrow> OAuthConfig \<Rightarrow> 'j" where
  "OAuthConfig_to_json api c = ja_object api
     [(''client_id'', ja_string api (client_id c)), (''client_secret'', ja_string api (client_secret c)),
      (''authorization_endpoint'', ja_string api (authorization_endpoint c)),
      (''token_endpoint'', ja_string api (token_endpoint c)), (''redirect_uri'', ja_string api (redirect_uri c)),
      (''scope'', ja_string api (oc_scope c)), (''use_pkce'', ja_bool api (use_pkce c)),
      (''audience'', ja_string api (audience c)), (''prompt'', ja_string api (prompt c)),
      (''access_type'', ja_string api (access_type c))]"

definition OAuthConfig_from_json :: "'j json_api \<Rightarrow> 'j \<Rightarrow> OAuthConfig \<Rightarrow> OAuthConfig outcome" where
  "OAuthConfig_from_json api j c =
     (let str = (\<lambda>key assign. read_field api j key (ja_get_string api) assign)
      in str ''access_type'' (\<lambda>v c. c\<lparr>access_type := v\<rparr>)
         (str ''prompt'' (\<lambda>v c. c\<lparr>prompt := v\<rparr>)
         (str ''audience'' (\<lambda>v c. c\<lparr>audience := v\<rparr>)
         (read_field api j ''use_pkce'' (ja_get_bool api) (\<lambda>v c. c\<lparr>use_pkce := v\<rparr>)
         (str ''scope'' (\<lambda>v c. c\<lparr>oc_scope := v\<rparr>)
         (str ''redirect_uri'' (\<lambda>v c. c\<lparr>redirect_uri := v\<rparr>)
         (str ''token_endpoint'' (\<lambda>v c. c\<lparr>token_endpoint := v\<rparr>)
         (str ''authorization_endpoint'' (\<lambda>v c. c\<lparr>authorization_endpoint := v\<rparr>)
         (str ''client_secret'' (\<lambda>v c. c\<lparr>client_secret := v\<rparr>)
         (str ''client_id'' (\<lambda>v c. c\<lparr>client_id := v\<rparr>) (c, None)))))))))))"

definition OAuthToken_to_json :: "'j json_api \<Rightarrow> OAuthToken \<Rightarrow> 'j" where
  "OAuthToken_to_json api t = ja_object api
     [(''access_token'', ja_string api (access_token t)), (''refresh_token'', ja_string api (refresh_token t)),
      (''token_type'', ja_string api (token_type t)), (''scope'', ja_string api (tk_scope t)),
      (''expires_at_ms'', ja_int api (expires_at_ms t))]"

definition OAuthToken_from_json :: "'j json_api \<Rightarrow> 'j \<Rightarrow> OAuthToken \<Rightarrow> OAuthToken outcome" where
  "OAuthToken_from_json api j t =
     (let str = (\<lambda>key assign. read_field api j key (ja_get_string api) assign)
      in read_field api j ''expires_at_ms'' (ja_get_int64 api) (\<lambda>v t. t\<lparr>expires_at_ms := v\<rparr>)
         (str ''scope'' (\<lambda>v t. t\<lparr>tk_scope := v\<rparr>)
         (str ''token_type'' (\<lambda>v t. t\<lparr>token_type := v\<rparr>)
         (str ''refresh_token'' (\<lambda>v t. t\<lparr>refresh_token := v\<rparr>)
         (str ''access_token'' (\<lambda>v t. t\<lparr>access_token := v\<rparr>) (t, None))))))"

definition AuthError_to_json :: "'j json_api \<Rightarrow> AuthError \<Rightarrow> 'j" where
  "AuthError_to_json api e = ja_string api
     (case e of
        AuthNone \<Rightarrow> ''None'' | InvalidConfig \<Rightarrow> ''InvalidConfig'' | HttpError \<Rightarrow> ''HttpError''
      | InvalidResponse \<Rightarrow> ''InvalidResponse'' | TokenExpired \<Rightarrow> ''TokenExpired''
      | UnsupportedFlow \<Rightarrow> ''UnsupportedFlow'' | StateMismatch \<Rightarrow> ''StateMismatch'')"

definition AuthError_from_json :: "'j json_api \<Rightarrow> 'j \<Rightarrow> string + AuthError" where
  "AuthError_from_json api j =
     or_throw (ja_get_string api j) (\<lambda>s. Inr
       (if s = ''None'' then AuthNone
        else if s = ''InvalidConfig'' then InvalidConfig
        else if s = ''HttpError'' then HttpError
        else if s = ''InvalidResponse'' then InvalidResponse
        else if s = ''TokenExpired'' then TokenExpired
        else if s = ''UnsupportedFlow'' then UnsupportedFlow
        else if s = ''StateMismatch'' then StateMismatch
        else AuthNone))"

definition AuthResult_to_json :: "'j json_api \<Rightarrow> AuthResult \<Rightarrow> 'j" where
  "AuthResult_to_json api r = ja_object api
     [(''success'', ja_bool api (auth_success r)), (''error'', AuthError_to_json api (auth_error r)),
      (''error_message'', ja_string api (auth_error_message r)), (''token'', OAuthToken_to_json api (auth_token r)),
      (''raw_response'', ja_string api (auth_raw_response r))]"

definition AuthResult_from_json :: "'j json_api \<Rightarrow> 'j \<Rightarrow> AuthResult \<Rightarrow> AuthResult outcome" where
  "AuthResult_from_json api j r =
     read_field api j ''raw_response'' (ja_get_string api) (\<lambda>v r. r\<lparr>auth_raw_response := v\<rparr>)
     (read_field api j ''token'' (get_record (OAuthToken_from_json api) OAuthToken_default) (\<lambda>v r. r\<lparr>auth_token := v\<rparr>)
     (read_field api j ''error_message'' (ja_get_string api) (\<lambda>v r. r\<lparr>auth_error_message := v\<rparr>)
     (read_field api j ''error'' (AuthError_from_json api) (\<lambda>v r. r\<lparr>auth_error := v\<rparr>)
     (read_field api j ''success'' (ja_get_bool api) (\<lambda>v r. r\<lparr>auth_success := v\<rparr>) (r, None)))))"

section \<open>Proxies and enumerations\<close>

definition invalid_enum :: "string \<Rightarrow> string \<Rightarrow> 'a option \<Rightarrow> string + 'a" where
  "invalid_enum type name v = (case v of None \<Rightarrow> Inl (''Invalid '' @ type @ '': '' @ name) | Some x \<Rightarrow> Inr x)"

definition proxy_type_from_json :: "'j json_api \<Rightarrow> 'j \<Rightarrow> string + ProxyType" where
  "proxy_type_from_json api j =
     (let by_name = or_throw (ja_get_string api j) (\<lambda>name. invalid_enum ''ProxyType'' (to_upper_case name) (proxy_type_from_name name))
      in if ja_is_number_integer api j
         then or_throw (ja_get_int api j) (\<lambda>raw.
                if 0 \<le> raw \<and> raw \<le> 6
                then Inr ([PROXY_HTTP, PROXY_HTTPS, PROXY_HTTP_1_0, PROXY_SOCKS4, PROXY_SOCKS4A, PROXY_SOCKS5,
                           PROXY_SOCKS5_HOSTNAME] ! nat raw)
                else by_name)
         else by_name)"

definition ProxyConfig_to_json :: "'j json_api \<Rightarrow> ProxyConfig \<Rightarrow> 'j" where
  "ProxyConfig_to_json api p = ja_object api
     [(''proxy_server'', ja_string api (px_server p)), (''proxy_auth'', ja_string api (px_auth p)),
      (''proxy_type'', ja_string api (proxy_type_name (px_type p))), (''use'', ja_bool api (px_use p))]"

definition ProxyConfig_from_json :: "'j json_api \<Rightarrow> 'j \<Rightarrow> ProxyConfig \<Rightarrow> ProxyConfig outcome" where
  "ProxyConfig_from_json api j p =
     read_field api j ''use'' (ja_get_bool api) (\<lambda>v p. p\<lparr>px_use := v\<rparr>)
     (read_field api j ''proxy_type'' (proxy_type_from_json api) (\<lambda>v p. p\<lparr>px_type := v\<rparr>)
     (read_field api j ''proxy_auth'' (ja_get_string api) (\<lambda>v p. p\<lparr>px_auth := v\<rparr>)
     (read_field api j ''proxy_server'' (ja_get_string api) (\<lambda>v p. p\<lparr>px_server := v\<rparr>) (p, None))))"

text \<open>The enumerations of \<^verbatim>\<open>type_utils.hpp\<close>; \<open>to_enum\<close> throws on an unknown name.\<close>

definition enum_to_json :: "'j json_api \<Rightarrow> ('a \<Rightarrow> string) \<Rightarrow> 'a \<Rightarrow> 'j" where
  "enum_to_json api to_str v = ja_string api (to_str v)"

definition enum_from_json :: "'j json_api \<Rightarrow> string \<Rightarrow> (string \<Rightarrow> 'a option) \<Rightarrow> 'j \<Rightarrow> string + 'a" where
  "enum_from_json api type to_enum j = or_throw (ja_get_string api j) (\<lambda>s. invalid_enum type s (to_enum s))"

section \<open>Lemmas\<close>

text \<open>Reading a field of an object the code has built.\<close>

lemma read_field_object:
  assumes "json_laws api" "distinct (map fst kvs)" "map_of kvs key = Some v" "get v = Inr y"
  shows "read_field api (ja_object api kvs) key get assign (x, None) = (assign y x, None)"
proof -
  have "key \<in> fst ` set kvs" using assms(3) by (auto dest: map_of_SomeD intro: rev_image_eqI)
  with assms show ?thesis by (simp add: read_field_def json_laws_def)
qed

lemma json_scalars:
  assumes "json_laws api"
  shows "ja_get_string api (ja_string api s) = Inr s" "\<not> ja_is_number_integer api (ja_string api s)"
    "ja_get_bool api (ja_bool api b) = Inr b" "int64 n \<Longrightarrow> ja_get_int64 api (ja_int api n) = Inr n"
  using assms by (simp_all add: json_laws_def)

lemma OAuthConfig_roundtrip:
  assumes "json_laws api"
  shows "OAuthConfig_from_json api (OAuthConfig_to_json api c) c0 = (c, None)"
  unfolding OAuthConfig_from_json_def OAuthConfig_to_json_def Let_def
  by (simp add: read_field_object [OF assms] json_scalars [OF assms])

lemma OAuthToken_roundtrip:
  assumes "json_laws api" "int64 (expires_at_ms t)"
  shows "OAuthToken_from_json api (OAuthToken_to_json api t) t0 = (t\<lparr>tk_raw_response := tk_raw_response t0\<rparr>, None)"
  unfolding OAuthToken_from_json_def OAuthToken_to_json_def Let_def
  by (simp add: read_field_object [OF assms(1)] json_scalars [OF assms(1)] assms(2))

lemma AuthError_roundtrip: "json_laws api \<Longrightarrow> AuthError_from_json api (AuthError_to_json api e) = Inr e"
  by (cases e) (simp_all add: AuthError_from_json_def AuthError_to_json_def json_scalars)

lemma AuthResult_roundtrip:
  assumes "json_laws api" "int64 (expires_at_ms (auth_token r))"
  shows "AuthResult_from_json api (AuthResult_to_json api r) r0 = (r\<lparr>auth_token := (auth_token r)\<lparr>tk_raw_response := []\<rparr>\<rparr>, None)"
proof -
  have "get_record (OAuthToken_from_json api) OAuthToken_default (OAuthToken_to_json api (auth_token r)) =
      Inr ((auth_token r)\<lparr>tk_raw_response := []\<rparr>)"
    using OAuthToken_roundtrip [OF assms, of OAuthToken_default] by (simp add: get_record_def OAuthToken_default_def)
  then show ?thesis unfolding AuthResult_from_json_def AuthResult_to_json_def
    by (simp add: read_field_object [OF assms(1)] json_scalars [OF assms(1)] AuthError_roundtrip [OF assms(1)])
qed

lemma ProxyConfig_roundtrip:
  assumes "json_laws api"
  shows "ProxyConfig_from_json api (ProxyConfig_to_json api p) p0 = (p, None)"
proof -
  have "proxy_type_from_json api (ja_string api (proxy_type_name t)) = Inr t" for t
    by (simp add: proxy_type_from_json_def json_scalars [OF assms] proxy_type_name_roundtrip invalid_enum_def)
  then show ?thesis unfolding ProxyConfig_from_json_def ProxyConfig_to_json_def
    by (simp add: read_field_object [OF assms] json_scalars [OF assms])
qed

lemma enum_roundtrip:
  "to_enum_ProxyType (to_str_ProxyType v1) = Some v1" "to_enum_RateLimitType (to_str_RateLimitType v2) = Some v2"
  "to_enum_WebSocketEventType (to_str_WebSocketEventType v3) = Some v3"
proof -
  show "to_enum_ProxyType (to_str_ProxyType v1) = Some v1" by (cases v1; hypsubst; code_simp)
  show "to_enum_RateLimitType (to_str_RateLimitType v2) = Some v2" by (cases v2; hypsubst; code_simp)
  show "to_enum_WebSocketEventType (to_str_WebSocketEventType v3) = Some v3" by (cases v3; hypsubst; code_simp)
qed

lemma enum_json_roundtrip:
  "json_laws api \<Longrightarrow> to_enum (to_str v) = Some v \<Longrightarrow> enum_from_json api type to_enum (enum_to_json api to_str v) = Inr v"
  by (simp add: enum_from_json_def enum_to_json_def json_scalars invalid_enum_def)

section \<open>Properties\<close>

text \<open>
  C40: what the library writes as JSON it reads back. For every JSON library that keeps the members of the objects, strings,
  Booleans and 64-bit integers it is given, \<^verbatim>\<open>from_json\<close> of \<^verbatim>\<open>to_json\<close> restores a configuration of OAuth, a token,
  the result of an authentication, a configuration of a proxy and the values of the three enumerations, whatever the
  object held before. The one exception is \<^verbatim>\<open>raw_response\<close> of a token, which \<^verbatim>\<open>to_json\<close> does not write: a token read
  on its own keeps the one the object had, a token inside a result gets an empty one.
\<close>

theorem json_roundtrip:
  assumes "json_laws api" "int64 (expires_at_ms t)" "int64 (expires_at_ms (auth_token r))"
  shows "OAuthConfig_from_json api (OAuthConfig_to_json api c) c0 = (c, None) \<and>
    OAuthToken_from_json api (OAuthToken_to_json api t) t0 = (t\<lparr>tk_raw_response := tk_raw_response t0\<rparr>, None) \<and>
    AuthResult_from_json api (AuthResult_to_json api r) r0 = (r\<lparr>auth_token := (auth_token r)\<lparr>tk_raw_response := []\<rparr>\<rparr>, None) \<and>
    ProxyConfig_from_json api (ProxyConfig_to_json api p) p0 = (p, None) \<and>
    enum_from_json api ''ProxyType'' to_enum_ProxyType (enum_to_json api to_str_ProxyType v1) = Inr v1 \<and>
    enum_from_json api ''RateLimitType'' to_enum_RateLimitType (enum_to_json api to_str_RateLimitType v2) = Inr v2 \<and>
    enum_from_json api ''WebSocketEventType'' to_enum_WebSocketEventType (enum_to_json api to_str_WebSocketEventType v3) = Inr v3"
  using assms by (simp add: OAuthConfig_roundtrip OAuthToken_roundtrip AuthResult_roundtrip ProxyConfig_roundtrip
      enum_json_roundtrip enum_roundtrip)

text \<open>JSON values and the calls on them.\<close>

datatype json_data = JString string | JBool bool | JInt int | JObject "(string \<times> json_data) list"

definition json_data_api :: "json_data json_api" where
  "json_data_api =
     \<lparr>ja_object = JObject, ja_string = JString, ja_bool = JBool, ja_int = JInt,
      ja_contains = (\<lambda>j k. case j of JObject kvs \<Rightarrow> map_of kvs k \<noteq> None | _ \<Rightarrow> False),
      ja_at = (\<lambda>j k. case j of JObject kvs \<Rightarrow> (case map_of kvs k of Some v \<Rightarrow> v | None \<Rightarrow> j) | _ \<Rightarrow> j),
      ja_is_number_integer = (\<lambda>j. case j of JInt _ \<Rightarrow> True | _ \<Rightarrow> False),
      ja_get_string = (\<lambda>j. case j of JString s \<Rightarrow> Inr s | _ \<Rightarrow> Inl ''type must be string''),
      ja_get_bool = (\<lambda>j. case j of JBool b \<Rightarrow> Inr b | _ \<Rightarrow> Inl ''type must be boolean''),
      ja_get_int = (\<lambda>j. case j of JInt n \<Rightarrow> Inr n | _ \<Rightarrow> Inl ''type must be number''),
      ja_get_int64 = (\<lambda>j. case j of JInt n \<Rightarrow> Inr n | _ \<Rightarrow> Inl ''type must be number'')\<rparr>"

lemma json_data_laws: "json_laws json_data_api"
  by (auto simp: json_laws_def json_data_api_def map_of_eq_None_iff)

theorem json_roundtrip_witness:
  "OAuthToken_from_json json_data_api (OAuthToken_to_json json_data_api (OAuthToken_default\<lparr>access_token := ''a'', expires_at_ms := 5\<rparr>))
     OAuthToken_default = (OAuthToken_default\<lparr>access_token := ''a'', expires_at_ms := 5\<rparr>, None)"
  using json_roundtrip [OF json_data_laws, of "OAuthToken_default\<lparr>access_token := ''a'', expires_at_ms := 5\<rparr>" AuthResult_default _ _
      OAuthToken_default AuthResult_default _ _ PROXY_HTTP RL_GENERAL WS_OPEN]
  by (simp add: int64_def OAuthToken_default_def AuthResult_default_def)

end
