(* ===== verification/Text_Patterns.thy ===== *)
theory Text_Patterns
  imports Kurlyk_Strings
begin

text \<open>
  \<^verbatim>\<open>utils/email_utils.hpp\<close> and \<^verbatim>\<open>utils/user_agent_utils.hpp\<close>: two regular expressions of \<open>std::regex\<close>, with the
  ECMAScript matcher the standard library uses for them: alternatives are tried in order, repetitions take as much
  as they can first. The quantifiers of the two expressions stand on single characters.
\<close>

section \<open>Regular expressions\<close>

datatype regex =
    One "char \<Rightarrow> bool"
  | Many nat "char \<Rightarrow> bool"
  | Then regex regex
  | Group regex

fun literal :: "string \<Rightarrow> regex \<Rightarrow> regex" where
  "literal [] r = r"
| "literal (c # s) r = Then (One (\<lambda>x. x = c)) (literal s r)"

text \<open>The ways to match a beginning of the input, in the order in which the matcher tries them: the text matched, the
  rest of the input, the groups.\<close>

fun regex_run :: "regex \<Rightarrow> string \<Rightarrow> (string \<times> string \<times> string list) list" where
  "regex_run (One P) s = (case s of c # r \<Rightarrow> if P c then [([c], r, [])] else [] | [] \<Rightarrow> [])"
| "regex_run (Many n P) s = map (\<lambda>k. (take k s, drop k s, [])) (rev [n ..< Suc (length (takeWhile P s))])"
| "regex_run (Then x y) s =
     concat (map (\<lambda>(u, r, g). map (\<lambda>(v, r', h). (u @ v, r', g @ h)) (regex_run y r)) (regex_run x s))"
| "regex_run (Group x) s = map (\<lambda>(u, r, g). (u, r, u # g)) (regex_run x s)"

definition regex_match :: "regex \<Rightarrow> string \<Rightarrow> bool" where
  "regex_match x s = list_ex (\<lambda>(_, r, _). r = []) (regex_run x s)"

fun regex_search :: "regex \<Rightarrow> string \<Rightarrow> (string \<times> string list) option" where
  "regex_search x s =
     (case regex_run x s of
        (u, _, g) # _ \<Rightarrow> Some (u, g)
      | [] \<Rightarrow> (case s of [] \<Rightarrow> None | _ # s' \<Rightarrow> regex_search x s'))"

declare regex_search.simps [simp del]

section \<open>The two utilities\<close>

definition email_local :: "char \<Rightarrow> bool" where "email_local c = (isalnum c \<or> c \<in> set ''._%+-'')"
definition email_domain :: "char \<Rightarrow> bool" where "email_domain c = (isalnum c \<or> c \<in> set ''.-'')"

definition email_regex :: regex where
  "email_regex = Then (Many 1 email_local) (literal ''@'' (Then (Many 1 email_domain) (literal ''.'' (Many 2 isalpha))))"

definition is_valid_email_id :: "string \<Rightarrow> bool" where
  "is_valid_email_id str = regex_match email_regex str"

definition browser_regex :: regex where
  "browser_regex = literal ''Chrome/'' (Then (Group (Many 1 isdigit))
     (literal ''.'' (Then (Many 1 isdigit) (literal ''.'' (Then (Many 1 isdigit) (literal ''.'' (Many 1 isdigit)))))))"

definition sec_ch_ua :: "string \<Rightarrow> string" where
  "sec_ch_ua version = [CHR 0x22] @ ''Not;A Brand'' @ [CHR 0x22] @ '';v='' @ [CHR 0x22] @ ''99'' @ [CHR 0x22] @ '', '' @
     [CHR 0x22] @ ''Google Chrome'' @ [CHR 0x22] @ '';v='' @ [CHR 0x22] @ version @ [CHR 0x22] @ '', '' @
     [CHR 0x22] @ ''Chromium'' @ [CHR 0x22] @ '';v='' @ [CHR 0x22] @ version @ [CHR 0x22]"

definition convert_user_agent_to_sec_ch_ua :: "string \<Rightarrow> string" where
  "convert_user_agent_to_sec_ch_ua user_agent =
     sec_ch_ua (case regex_search browser_regex user_agent of Some (_, version # _) \<Rightarrow> version | _ \<Rightarrow> ''0'')"

section \<open>What a regular expression matches\<close>

inductive regex_lang :: "regex \<Rightarrow> string \<Rightarrow> string list \<Rightarrow> bool" where
  lang_one: "P c \<Longrightarrow> regex_lang (One P) [c] []"
| lang_many: "list_all P u \<Longrightarrow> n \<le> length u \<Longrightarrow> regex_lang (Many n P) u []"
| lang_then: "regex_lang x u g \<Longrightarrow> regex_lang y v h \<Longrightarrow> regex_lang (Then x y) (u @ v) (g @ h)"
| lang_group: "regex_lang x u g \<Longrightarrow> regex_lang (Group x) u (u # g)"

inductive_simps lang_one_simp: "regex_lang (One P) u g"
inductive_simps lang_many_simp: "regex_lang (Many n P) u g"
inductive_simps lang_then_simp: "regex_lang (Then x y) u g"
inductive_simps lang_group_simp: "regex_lang (Group x) u g"

lemma many_prefixes:
  "(u, r, g) \<in> set (regex_run (Many n P) s) \<longleftrightarrow> s = u @ r \<and> list_all P u \<and> n \<le> length u \<and> g = []"
proof -
  have "k \<le> length (takeWhile P s) \<longleftrightarrow> k \<le> length s \<and> list_all P (take k s)" for k
  proof (induction s arbitrary: k)
    case (Cons c s)
    then show ?case by (cases k) auto
  qed simp
  note l = this
  have "(u, r, g) \<in> set (regex_run (Many n P) s) \<longleftrightarrow>
      (\<exists>k. n \<le> k \<and> k \<le> length (takeWhile P s) \<and> u = take k s \<and> r = drop k s \<and> g = [])"
    by (auto simp del: upt_Suc simp: less_Suc_eq_le)
  also have "\<dots> \<longleftrightarrow> s = u @ r \<and> list_all P u \<and> n \<le> length u \<and> g = []" (is "?l \<longleftrightarrow> ?r")
  proof
    assume ?r
    then show ?l unfolding l by (intro exI [of _ "length u"]) simp
  qed (auto simp: l)
  finally show ?thesis .
qed

text \<open>The matcher finds exactly the beginnings in the language of the expression.\<close>

lemma regex_run_correct: "(u, r, g) \<in> set (regex_run x s) \<longleftrightarrow> s = u @ r \<and> regex_lang x u g"
proof (induction x arbitrary: u r g s)
  case (One P)
  show ?case by (auto simp: lang_one_simp split: list.split)
next
  case (Many n P)
  show ?case unfolding many_prefixes lang_many_simp by blast
next
  case (Then x y)
  show ?case
  proof
    assume "(u, r, g) \<in> set (regex_run (Then x y) s)"
    then obtain u1 r1 g1 v h where "(u1, r1, g1) \<in> set (regex_run x s)" "(v, r, h) \<in> set (regex_run y r1)"
      "u = u1 @ v" "g = g1 @ h" by auto
    then show "s = u @ r \<and> regex_lang (Then x y) u g" by (auto simp: Then.IH lang_then)
  next
    assume "s = u @ r \<and> regex_lang (Then x y) u g"
    then obtain u1 g1 v h where "u = u1 @ v" "g = g1 @ h" "regex_lang x u1 g1" "regex_lang y v h" "s = u1 @ v @ r"
      by (auto simp: lang_then_simp)
    then have "(u1, v @ r, g1) \<in> set (regex_run x s)" "(v, r, h) \<in> set (regex_run y (v @ r))" "u = u1 @ v" "g = g1 @ h"
      by (simp_all add: Then.IH)
    then have "(u1, v @ r, g1) \<in> set (regex_run x s)"
      "(u, r, g) \<in> set ((\<lambda>(u1, r1, g1). map (\<lambda>(v, r', h). (u1 @ v, r', g1 @ h)) (regex_run y r1)) (u1, v @ r, g1))"
      by (auto intro!: rev_image_eqI [of "(v, r, h)"])
    then show "(u, r, g) \<in> set (regex_run (Then x y) s)" unfolding regex_run.simps set_concat set_map by blast
  qed
next
  case (Group x)
  have "(u, r, g) \<in> set (regex_run (Group x) s) \<longleftrightarrow> (\<exists>g1. (u, r, g1) \<in> set (regex_run x s) \<and> g = u # g1)" by force
  then show ?case by (auto simp: Group.IH lang_group_simp)
qed

lemma regex_match_correct: "regex_match x s \<longleftrightarrow> (\<exists>g. regex_lang x s g)"
proof -
  have "regex_match x s \<longleftrightarrow> (\<exists>u g. (u, [], g) \<in> set (regex_run x s))" by (force simp: regex_match_def list_ex_iff)
  then show ?thesis by (simp add: regex_run_correct)
qed

text \<open>A search finds the leftmost match, or there is none.\<close>

lemma regex_search_correct:
  "case regex_search x s of
     Some (u, g) \<Rightarrow> \<exists>p r. s = p @ u @ r \<and> regex_lang x u g \<and> (\<forall>p' q. p = p' @ q \<and> q \<noteq> [] \<longrightarrow> regex_run x (q @ u @ r) = [])
   | None \<Rightarrow> \<forall>p q. s = p @ q \<longrightarrow> regex_run x q = []"
proof (induction s rule: regex_search.induct)
  case (1 x s)
  show ?case
  proof (cases "regex_run x s")
    case Nil
    show ?thesis
    proof (cases s)
      case Nil
      with \<open>regex_run x s = []\<close> show ?thesis by (simp add: regex_search.simps)
    next
      case (Cons c s')
      note ih = "1.IH" [OF \<open>regex_run x s = []\<close> Cons]
      have e: "regex_search x s = regex_search x s'" using \<open>regex_run x s = []\<close> Cons by (subst regex_search.simps) simp
      show ?thesis
      proof (cases "regex_search x s'")
        case None
        with ih e Cons \<open>regex_run x s = []\<close> show ?thesis by (auto simp: Cons_eq_append_conv)
      next
        case (Some z)
        then obtain u g where z: "regex_search x s' = Some (u, g)" by (cases z) auto
        with ih obtain p r where "s' = p @ u @ r" "regex_lang x u g" "\<forall>p' q. p = p' @ q \<and> q \<noteq> [] \<longrightarrow> regex_run x (q @ u @ r) = []"
          by auto
        then have "s = (c # p) @ u @ r \<and> regex_lang x u g \<and> (\<forall>p' q. c # p = p' @ q \<and> q \<noteq> [] \<longrightarrow> regex_run x (q @ u @ r) = [])"
          using Cons \<open>regex_run x s = []\<close> by (auto simp: Cons_eq_append_conv)
        then show ?thesis unfolding e z by (auto simp del: append_Cons)
      qed
    qed
  next
    case (Cons y ys)
    obtain u r g where y: "y = (u, r, g)" by (cases y)
    have "(u, r, g) \<in> set (regex_run x s)" using Cons y by simp
    then have "s = [] @ u @ r \<and> regex_lang x u g" by (simp add: regex_run_correct)
    moreover have "regex_search x s = Some (u, g)" using Cons y by (simp add: regex_search.simps)
    ultimately show ?thesis by auto
  qed
qed

lemma lang_then_one: "regex_lang (Then (One P) y) u g \<longleftrightarrow> (\<exists>c v. u = c # v \<and> P c \<and> regex_lang y v g)"
proof
  assume "\<exists>c v. u = c # v \<and> P c \<and> regex_lang y v g"
  then obtain c v where "u = [c] @ v" "P c" "regex_lang y v g" by auto
  with lang_then [OF lang_one [of P c], of y v g] show "regex_lang (Then (One P) y) u g" by simp
qed (auto simp: lang_then_simp lang_one_simp)

lemma lang_then_many:
  "regex_lang (Then (Many n P) y) u g \<longleftrightarrow> (\<exists>v w. u = v @ w \<and> list_all P v \<and> n \<le> length v \<and> regex_lang y w g)"
proof
  assume "\<exists>v w. u = v @ w \<and> list_all P v \<and> n \<le> length v \<and> regex_lang y w g"
  then obtain v w where "u = v @ w" "list_all P v" "n \<le> length v" "regex_lang y w g" by auto
  with lang_then [OF lang_many [of P v n], of y w g] show "regex_lang (Then (Many n P) y) u g" by simp
next
  assume "regex_lang (Then (Many n P) y) u g"
  then obtain v w g1 h where "u = v @ w" "g = g1 @ h" "regex_lang (Many n P) v g1" "regex_lang y w h" by (auto simp: lang_then_simp)
  then show "\<exists>v w. u = v @ w \<and> list_all P v \<and> n \<le> length v \<and> regex_lang y w g" by (auto simp: lang_many_simp)
qed

lemma literal_lang: "regex_lang (literal s x) u g \<longleftrightarrow> (\<exists>v. u = s @ v \<and> regex_lang x v g)"
  by (induction s arbitrary: u g) (auto simp: lang_then_one)

declare literal.simps [simp del]

section \<open>Addresses and versions\<close>

text \<open>The addresses that are accepted: a local part, a domain and a top-level domain of at least two letters.\<close>

theorem is_valid_email_id_iff:
  "is_valid_email_id str \<longleftrightarrow>
     (\<exists>name domain top. str = name @ ''@'' @ domain @ ''.'' @ top \<and> name \<noteq> [] \<and> list_all email_local name \<and>
        domain \<noteq> [] \<and> list_all email_domain domain \<and> 2 \<le> length top \<and> list_all isalpha top)"
  unfolding is_valid_email_id_def regex_match_correct email_regex_def
proof
  assume "\<exists>name domain top. str = name @ ''@'' @ domain @ ''.'' @ top \<and> name \<noteq> [] \<and> list_all email_local name \<and>
    domain \<noteq> [] \<and> list_all email_domain domain \<and> 2 \<le> length top \<and> list_all isalpha top"
  then obtain name domain top where s: "str = name @ ''@'' @ domain @ ''.'' @ top" "1 \<le> length name" "list_all email_local name"
    "1 \<le> length domain" "list_all email_domain domain" "2 \<le> length top" "list_all isalpha top" by (auto simp: Suc_le_eq)
  then have "regex_lang (literal ''.'' (Many 2 isalpha)) (''.'' @ top) []" by (simp add: literal_lang lang_many_simp)
  with s have "regex_lang (Then (Many 1 email_domain) (literal ''.'' (Many 2 isalpha))) (domain @ ''.'' @ top) []"
    using lang_then [OF lang_many] by fastforce
  with s have "regex_lang (literal ''@'' (Then (Many 1 email_domain) (literal ''.'' (Many 2 isalpha)))) (''@'' @ domain @ ''.'' @ top) []"
    by (simp add: literal_lang)
  with s show "\<exists>g. regex_lang (Then (Many 1 email_local) (literal ''@'' (Then (Many 1 email_domain) (literal ''.'' (Many 2 isalpha))))) str g"
    using lang_then [OF lang_many] by fastforce
next
  assume "\<exists>g. regex_lang (Then (Many 1 email_local) (literal ''@'' (Then (Many 1 email_domain) (literal ''.'' (Many 2 isalpha))))) str g"
  then obtain name domain top where "str = name @ ''@'' @ domain @ ''.'' @ top" "list_all email_local name" "1 \<le> length name"
    "list_all email_domain domain" "1 \<le> length domain" "list_all isalpha top" "2 \<le> length top"
    by (auto simp: lang_then_many literal_lang lang_many_simp)
  then show "\<exists>name domain top. str = name @ ''@'' @ domain @ ''.'' @ top \<and> name \<noteq> [] \<and> list_all email_local name \<and>
    domain \<noteq> [] \<and> list_all email_domain domain \<and> 2 \<le> length top \<and> list_all isalpha top"
    by (intro exI [of _ name] exI [of _ domain] exI [of _ top]) auto
qed

text \<open>A version of Chrome at the beginning of a text.\<close>

definition chrome_at :: "string \<Rightarrow> string \<Rightarrow> bool" where
  "chrome_at s v \<longleftrightarrow> (\<exists>a b c r. s = ''Chrome/'' @ v @ ''.'' @ a @ ''.'' @ b @ ''.'' @ c @ r \<and>
     list_all (\<lambda>w. w \<noteq> [] \<and> list_all isdigit w) [v, a, b, c])"

lemma many_group: "regex_lang (Then (Group (Many 1 P)) y) u g \<longleftrightarrow> (\<exists>v w h. u = v @ w \<and> v \<noteq> [] \<and> list_all P v \<and> regex_lang y w h \<and> g = v # h)"
proof
  assume "\<exists>v w h. u = v @ w \<and> v \<noteq> [] \<and> list_all P v \<and> regex_lang y w h \<and> g = v # h"
  then obtain v w h where "u = v @ w" "1 \<le> length v" "list_all P v" "regex_lang y w h" "g = [v] @ h" by (auto simp: Suc_le_eq)
  with lang_then [OF lang_group [OF lang_many]] show "regex_lang (Then (Group (Many 1 P)) y) u g" by blast
next
  assume "regex_lang (Then (Group (Many 1 P)) y) u g"
  then obtain v w g1 h where "u = v @ w" "g = g1 @ h" "regex_lang (Group (Many 1 P)) v g1" "regex_lang y w h"
    by (auto simp: lang_then_simp)
  then show "\<exists>v w h. u = v @ w \<and> v \<noteq> [] \<and> list_all P v \<and> regex_lang y w h \<and> g = v # h"
    by (intro exI [of _ v] exI [of _ w] exI [of _ h]) (auto simp: lang_group_simp lang_many_simp)
qed

lemma browser_lang:
  "regex_lang browser_regex u g \<longleftrightarrow> (\<exists>v a b c. u = ''Chrome/'' @ v @ ''.'' @ a @ ''.'' @ b @ ''.'' @ c \<and>
     list_all (\<lambda>w. w \<noteq> [] \<and> list_all isdigit w) [v, a, b, c] \<and> g = [v])" (is "?l \<longleftrightarrow> ?r")
proof
  assume ?l
  then obtain v w where 1: "u = ''Chrome/'' @ v @ ''.'' @ w" "v \<noteq> []" "list_all isdigit v"
    "regex_lang (Then (Many 1 isdigit) (literal ''.'' (Then (Many 1 isdigit) (literal ''.'' (Many 1 isdigit))))) w (tl g)" "g = v # tl g"
    unfolding browser_regex_def literal_lang many_group by auto
  from 1(4) obtain a b c where "w = a @ ''.'' @ b @ ''.'' @ c" "tl g = []" "1 \<le> length a" "1 \<le> length b" "1 \<le> length c"
    "list_all isdigit a" "list_all isdigit b" "list_all isdigit c"
    by (auto simp: lang_then_many literal_lang lang_many_simp)
  with 1 show ?r by (intro exI [of _ v] exI [of _ a] exI [of _ b] exI [of _ c]) auto
next
  assume ?r
  then obtain v a b c where u: "u = ''Chrome/'' @ v @ ''.'' @ a @ ''.'' @ b @ ''.'' @ c" "g = [v]"
    "v \<noteq> []" "a \<noteq> []" "b \<noteq> []" "c \<noteq> []" "list_all isdigit v" "list_all isdigit a" "list_all isdigit b" "list_all isdigit c" by auto
  have dot: "regex_lang (literal ''.'' x) (''.'' @ z) h = regex_lang x z h" for x z h by (simp add: literal_lang)
  have many: "regex_lang (Then (Many 1 isdigit) y) (z @ w) []" if "z \<noteq> []" "list_all isdigit z" "regex_lang y w []" for z w y
    unfolding lang_then_many using that by (auto simp: Suc_le_eq)
  have "regex_lang (Many 1 isdigit) c []" using u by (simp add: lang_many_simp Suc_le_eq)
  with u have "regex_lang (Then (Many 1 isdigit) (literal ''.'' (Then (Many 1 isdigit) (literal ''.'' (Many 1 isdigit))))) (a @ ''.'' @ b @ ''.'' @ c) []"
    by (intro many dot [THEN iffD2])
  then have "regex_lang (literal ''.'' (Then (Many 1 isdigit) (literal ''.'' (Then (Many 1 isdigit) (literal ''.'' (Many 1 isdigit))))))
      (''.'' @ a @ ''.'' @ b @ ''.'' @ c) []"
    by (rule dot [THEN iffD2])
  with u(2,3,7) have "regex_lang (Then (Group (Many 1 isdigit)) (literal ''.'' (Then (Many 1 isdigit) (literal ''.'' (Then (Many 1 isdigit)
      (literal ''.'' (Many 1 isdigit))))))) (v @ ''.'' @ a @ ''.'' @ b @ ''.'' @ c) g"
    unfolding many_group by blast
  then show ?l unfolding browser_regex_def u(1) literal_lang by blast
qed

lemma chrome_at_lang: "chrome_at s v \<longleftrightarrow> (\<exists>u r. s = u @ r \<and> regex_lang browser_regex u [v])"
proof
  assume "chrome_at s v"
  then obtain a b c r where "s = (''Chrome/'' @ v @ ''.'' @ a @ ''.'' @ b @ ''.'' @ c) @ r"
    "list_all (\<lambda>w. w \<noteq> [] \<and> list_all isdigit w) [v, a, b, c]" by (auto simp: chrome_at_def)
  then show "\<exists>u r. s = u @ r \<and> regex_lang browser_regex u [v]" unfolding browser_lang by blast
next
  assume "\<exists>u r. s = u @ r \<and> regex_lang browser_regex u [v]"
  then obtain a b c r where "s = (''Chrome/'' @ v @ ''.'' @ a @ ''.'' @ b @ ''.'' @ c) @ r"
    "list_all (\<lambda>w. w \<noteq> [] \<and> list_all isdigit w) [v, a, b, c]" unfolding browser_lang by auto
  then show "chrome_at s v" unfolding chrome_at_def
    by (intro exI [of _ a] exI [of _ b] exI [of _ c] exI [of _ r]) simp
qed

lemma browser_run_empty: "regex_run browser_regex s = [] \<longleftrightarrow> (\<forall>v. \<not> chrome_at s v)"
proof -
  have "regex_run browser_regex s = [] \<longleftrightarrow> (\<forall>u r g. (u, r, g) \<notin> set (regex_run browser_regex s))"
    by (cases "regex_run browser_regex s") auto
  then show ?thesis unfolding regex_run_correct chrome_at_lang using browser_lang by metis
qed

text \<open>The header carries the major version of the first Chrome version in the text, or 0 if there is none.\<close>

theorem user_agent_version:
  "(\<exists>pre s v. user_agent = pre @ s \<and> chrome_at s v \<and> (\<forall>p q w. pre = p @ q \<and> q \<noteq> [] \<longrightarrow> \<not> chrome_at (q @ s) w) \<and>
      convert_user_agent_to_sec_ch_ua user_agent = sec_ch_ua v) \<or>
   (\<forall>p q w. user_agent = p @ q \<longrightarrow> \<not> chrome_at q w) \<and> convert_user_agent_to_sec_ch_ua user_agent = sec_ch_ua ''0''"
proof (cases "regex_search browser_regex user_agent")
  case None
  with regex_search_correct [of user_agent browser_regex] show ?thesis
    by (simp add: browser_run_empty convert_user_agent_to_sec_ch_ua_def)
next
  case (Some z)
  then obtain u g where z: "regex_search browser_regex user_agent = Some (u, g)" by (cases z) auto
  with regex_search_correct [of user_agent browser_regex] obtain p r where
    p: "user_agent = p @ u @ r" "regex_lang browser_regex u g" "\<forall>p' q. p = p' @ q \<and> q \<noteq> [] \<longrightarrow> regex_run browser_regex (q @ u @ r) = []"
    by auto
  then obtain v where v: "g = [v]" by (auto simp: browser_lang)
  with p(2) have "chrome_at (u @ r) v" by (auto simp: chrome_at_lang)
  with p z v show ?thesis
    by (intro disjI1 exI [of _ p] exI [of _ "u @ r"] exI [of _ v]) (simp add: browser_run_empty convert_user_agent_to_sec_ch_ua_def)
qed

end
