(* ===== verification/System_Paths.thy ===== *)
theory System_Paths
  imports Kurlyk_Strings
begin

text \<open>
  \<^verbatim>\<open>utils/path_utils.hpp\<close>, \<^verbatim>\<open>utils/encoding_utils.hpp\<close> and \<open>get_ca_file_path\<close> of \<^verbatim>\<open>HttpRequestHandler.hpp\<close>: the directory
  of the executable on the three platforms, and the certificate bundle in it. What the operating system answers is
  an argument; \<open>Inl\<close> is an exception of \<open>std::runtime_error\<close>. A wide string is a list of code units.
\<close>

section \<open>The directory of a path\<close>

definition find_last_of :: "'a set \<Rightarrow> 'a list \<Rightarrow> nat option" where
  "find_last_of seps s = map_option (\<lambda>i. length s - 1 - i) (find_index (\<lambda>x. x \<in> seps) (rev s))"

definition cut_file_name :: "'a set \<Rightarrow> 'a list \<Rightarrow> 'a list" where
  "cut_file_name seps path = (case find_last_of seps path of None \<Rightarrow> path | Some pos \<Rightarrow> take pos path)"

definition c_string :: "string \<Rightarrow> string" where
  "c_string s = takeWhile (\<lambda>c. c \<noteq> CHR 0x00) s"

section \<open>Windows\<close>

text \<open>\<open>GetModuleFileNameW\<close> with a buffer of \<open>n\<close> units: the units written and whether the error is
  \<open>ERROR_INSUFFICIENT_BUFFER\<close>. The loop doubles the buffer.\<close>

type_synonym module_file_name = "nat \<Rightarrow> nat list \<times> bool"

partial_function (option) module_path :: "module_file_name \<Rightarrow> nat \<Rightarrow> nat list option" where
  "module_path f n =
     (let (path, insufficient) = f n
      in if length path = n \<and> insufficient then module_path f (n * 2) else Some path)"

definition exec_dir_windows :: "(nat list \<Rightarrow> string) \<Rightarrow> module_file_name \<Rightarrow> (string + string) option" where
  "exec_dir_windows to_utf8 f =
     (case module_path f 260 of
        None \<Rightarrow> None
      | Some path \<Rightarrow>
          Some (if path = [] then Inl ''Failed to get executable path.''
                else Inr (to_utf8 (cut_file_name {92, 47} path))))"

section \<open>macOS and other systems\<close>

text \<open>\<open>_NSGetExecutablePath\<close>: the result and the size for a null buffer, and for a buffer of this size; \<open>realpath\<close>.\<close>

definition exec_dir_macos :: "int \<times> nat \<Rightarrow> (nat \<Rightarrow> int \<times> string) \<Rightarrow> (string \<Rightarrow> string option) \<Rightarrow> string + string" where
  "exec_dir_macos query fill realpath =
     (let (rc, path_size) = query
      in if rc \<noteq> -1 \<or> path_size = 0 then Inl ''Failed to determine executable path size.''
         else
           let (rc2, buffer) = fill path_size
           in if rc2 \<noteq> 0 then Inl ''Failed to get executable path.''
              else
                let exe_path = c_string buffer;
                    exe_path' = (case realpath exe_path of None \<Rightarrow> exe_path | Some p \<Rightarrow> c_string p)
                in Inr (cut_file_name {CHR ''/''} exe_path'))"

text \<open>The target of the link \<^verbatim>\<open>/proc/self/exe\<close>, \<open>None\<close> when \<open>readlink\<close> fails; it writes at most \<open>path_max\<close> bytes.\<close>

definition exec_dir_posix :: "nat \<Rightarrow> string option \<Rightarrow> string + string" where
  "exec_dir_posix path_max link =
     (case link of
        None \<Rightarrow> Inl ''Failed to get executable path.''
      | Some target \<Rightarrow> Inr (cut_file_name {CHR 0x5C, CHR ''/''} (take path_max target)))"

section \<open>The certificate bundle\<close>

text \<open>The two conversions of the Windows API; \<open>None\<close> when they report a length of 0.\<close>

definition utf8_to_ansi :: "(string \<Rightarrow> nat list option) \<Rightarrow> (nat list \<Rightarrow> string option) \<Rightarrow> string \<Rightarrow> string" where
  "utf8_to_ansi to_wide to_ansi utf8 =
     (case to_wide (c_string utf8) of
        None \<Rightarrow> []
      | Some wide \<Rightarrow> (case to_ansi (takeWhile (\<lambda>c. c \<noteq> 0) wide) of None \<Rightarrow> [] | Some ansi \<Rightarrow> ansi))"

definition get_ca_file_path :: "(string \<Rightarrow> string) option \<Rightarrow> string + string \<Rightarrow> string + string" where
  "get_ca_file_path windows exec_dir =
     (case exec_dir of
        Inl what \<Rightarrow> Inl what
      | Inr dir \<Rightarrow>
          Inr (case windows of
                 Some to_ansi \<Rightarrow> to_ansi (dir @ [CHR 0x5C] @ ''curl-ca-bundle.crt'')
               | None \<Rightarrow> dir @ ''/curl-ca-bundle.crt''))"

section \<open>Properties\<close>

lemma cut_file_name_path:
  assumes "sep \<in> seps" "set name \<inter> seps = {}"
  shows "cut_file_name seps (dir @ sep # name) = dir"
proof -
  have "find_index (\<lambda>x. x \<in> seps) (rev name @ sep # rev dir) = Some (length name)"
    using assms(2)
  proof (induction name rule: rev_induct)
    case (snoc c name)
    then show ?case by auto
  qed (simp add: assms(1))
  then show ?thesis by (simp add: cut_file_name_def find_last_of_def)
qed

lemma cut_file_name_plain: "set name \<inter> seps = {} \<Longrightarrow> cut_file_name seps name = name"
proof -
  assume "set name \<inter> seps = {}"
  then have "find_index (\<lambda>x. x \<in> seps) (rev name) = None" by (auto simp: find_index_None_iff)
  then show ?thesis by (simp add: cut_file_name_def find_last_of_def)
qed

text \<open>What the documentation says of \<open>GetModuleFileNameW\<close>: a path that does not fit with its terminator is cut off.\<close>

definition module_laws :: "nat list \<Rightarrow> module_file_name \<Rightarrow> bool" where
  "module_laws path f \<longleftrightarrow> (\<forall>n > 0. f n = (if length path < n then (path, False) else (take n path, True)))"

text \<open>The loop ends with the whole path, however long it is.\<close>

lemma module_path_complete:
  assumes "module_laws path f"
  shows "0 < n \<Longrightarrow> module_path f n = Some path"
proof (induction "Suc (length path) - n" arbitrary: n rule: less_induct)
  case less
  have f: "f n = (if length path < n then (path, False) else (take n path, True))" using assms less.prems by (simp add: module_laws_def)
  show ?case
  proof (cases "length path < n")
    case True
    with f show ?thesis by (subst module_path.simps) simp
  next
    case False
    then have "module_path f (n * 2) = Some path" using less.prems by (intro less.hyps) auto
    with f False show ?thesis by (subst module_path.simps) simp
  qed
qed

text \<open>On all three platforms the result is the directory of the executable, whatever its name, provided the name does
  not contain a separator.\<close>

theorem exec_dir_correct:
  shows "module_laws (wdir @ 92 # wname) f \<Longrightarrow> set wname \<inter> {92, 47} = {} \<Longrightarrow>
      exec_dir_windows to_utf8 f = Some (Inr (to_utf8 wdir))"
    and "set name \<inter> {CHR 0x5C, CHR ''/''} = {} \<Longrightarrow> length (dir @ CHR ''/'' # name) \<le> path_max \<Longrightarrow>
      exec_dir_posix path_max (Some (dir @ CHR ''/'' # name)) = Inr dir"
    and "CHR ''/'' \<notin> set name \<Longrightarrow> CHR 0x00 \<notin> set (dir @ name) \<Longrightarrow> query = (-1, m) \<Longrightarrow> m > 0 \<Longrightarrow> fill m = (0, exe) \<Longrightarrow>
      realpath (c_string exe) = Some (dir @ CHR ''/'' # name) \<Longrightarrow> exec_dir_macos query fill realpath = Inr dir"
proof -
  assume "module_laws (wdir @ 92 # wname) f" "set wname \<inter> {92, 47} = {}"
  then show "exec_dir_windows to_utf8 f = Some (Inr (to_utf8 wdir))"
    by (simp add: exec_dir_windows_def module_path_complete cut_file_name_path)
next
  assume "set name \<inter> {CHR 0x5C, CHR ''/''} = {}" "length (dir @ CHR ''/'' # name) \<le> path_max"
  then show "exec_dir_posix path_max (Some (dir @ CHR ''/'' # name)) = Inr dir"
    by (simp add: exec_dir_posix_def cut_file_name_path)
next
  assume a: "CHR ''/'' \<notin> set name" "CHR 0x00 \<notin> set (dir @ name)" "query = (-1, m)" "m > 0" "fill m = (0, exe)"
    "realpath (c_string exe) = Some (dir @ CHR ''/'' # name)"
  have "c_string (dir @ CHR ''/'' # name) = dir @ CHR ''/'' # name"
    unfolding c_string_def takeWhile_eq_all_conv using a(2) by auto
  with a show "exec_dir_macos query fill realpath = Inr dir" by (simp add: exec_dir_macos_def cut_file_name_path)
qed

text \<open>On a system where file names may contain a backslash, \<open>find_last_of\<close> cuts such a name as well.\<close>

lemma exec_dir_posix_backslash: "exec_dir_posix 4096 (Some (''/opt/my'' @ [CHR 0x5C] @ ''app'')) = Inr ''/opt/my''"
  using cut_file_name_path [of "CHR 0x5C" "{CHR 0x5C, CHR ''/''}" "''app''" "''/opt/my''"] by (simp add: exec_dir_posix_def)

end
