(* ===== verification/Spec2Isabelle.thy ===== *)
theory Spec2Isabelle
  imports
    Http_Rate_Limiter_Props
    Kurlyk_Runtime
    Http_Client_Waiting
    Http_Request_Desk
    Http_Curl_Options
    Http_Auth_Props
    Proxy_Checker
    Simple_Web_Worker
    Web_Socket_Transport
    Web_Socket_Sender
    Json_Bindings
    Text_Patterns
    System_Paths
begin

text \<open>
  A verification development for kurlyk, a C++ library of asynchronous HTTP and WebSocket clients
  (the headers under \<^verbatim>\<open>src/include/kurlyk\<close>; all paths below are relative to that directory).

  \<^bold>\<open>The program.\<close> Users hold facades: \<^verbatim>\<open>HttpClient\<close>, the free functions of \<^verbatim>\<open>http/utils.hpp\<close>, and
  \<^verbatim>\<open>WebSocketClient\<close>. The facades put requests into two singletons, \<^verbatim>\<open>HttpRequestManager\<close> and
  \<^verbatim>\<open>WebSocketManager\<close>, and notify a third, \<^verbatim>\<open>NetworkWorker\<close>, whose thread calls \<open>process\<close> of the managers
  while they are loaded and sleeps otherwise. The HTTP manager admits pending requests through
  \<^verbatim>\<open>HttpRateLimiter\<close>, runs them in batches on libcurl, retries failed ones, cancels, counts groups and
  calls back. The WebSocket manager drives the finite state machines of its clients
  (\<^verbatim>\<open>BaseWebSocketClient\<close>), which sit on a transport and have a rate limiter of their own.

  \<^bold>\<open>Theories and sources.\<close>
  \<^item> \<^verbatim>\<open>Kurlyk_Prelude\<close>, \<^verbatim>\<open>Kurlyk_Strings\<close>, \<^verbatim>\<open>Kurlyk_Types\<close>: machine types, durations, hash maps, the operations
    of \<open>std::string\<close> the code uses; \<^verbatim>\<open>types/\<close> and the error categories of \<^verbatim>\<open>utils/\<close>.
  \<^item> \<^verbatim>\<open>Fixed_Window\<close>, \<^verbatim>\<open>Http_Rate_Limiter\<close> with \<^verbatim>\<open>_Inv\<close>, \<^verbatim>\<open>_Window\<close>, \<^verbatim>\<open>_Props\<close>: \<^verbatim>\<open>HttpRateLimiter.hpp\<close>,
    \<^verbatim>\<open>HttpRateLimitHandle.hpp\<close>, \<^verbatim>\<open>HttpRateLimitDelay.hpp\<close>. The locale \<open>fixed_window\<close> has the counting
    argument once, for this limiter and the WebSocket one.
  \<^item> \<^verbatim>\<open>Http_Data\<close>, \<^verbatim>\<open>Http_Request_Manager\<close>: \<^verbatim>\<open>http/data\<close>, \<^verbatim>\<open>HttpRequestContext.hpp\<close>, \<^verbatim>\<open>HttpRequestHandler.hpp\<close>,
    \<^verbatim>\<open>HttpBatchRequestHandler.hpp\<close>, \<^verbatim>\<open>HttpRequestManager.hpp\<close>; \<^verbatim>\<open>Token_Ledger\<close> (the locale of what the
    manager needs of the limiter), \<^verbatim>\<open>Http_Request_Inv\<close>, \<^verbatim>\<open>_Steps\<close>, \<^verbatim>\<open>_Batches\<close>, \<^verbatim>\<open>_Process\<close> (the invariant,
    stage by stage), \<^verbatim>\<open>_Guarantees\<close>, \<^verbatim>\<open>_Control\<close> (what users rely on), \<^verbatim>\<open>_Desk\<close> (the abstract specification the
    manager refines); \<^verbatim>\<open>Http_Curl_Options\<close>: the options
    set on a libcurl handle.
  \<^item> \<^verbatim>\<open>Http_Client\<close>, \<^verbatim>\<open>Http_Functions\<close>, \<^verbatim>\<open>Http_Client_Props\<close>: \<^verbatim>\<open>http/HttpClient.hpp\<close>, \<^verbatim>\<open>http/utils.hpp\<close>;
    \<^verbatim>\<open>Http_Client_Waiting\<close>: the functions of a client that block, with the threads they wait for.
  \<^item> \<^verbatim>\<open>Http_Auth\<close>, \<^verbatim>\<open>Http_Auth_Props\<close>: \<^verbatim>\<open>http/auth\<close>, the providers of a client and the OAuth client;
    \<^verbatim>\<open>Proxy_Checker\<close>: \<^verbatim>\<open>http/ProxyChecker.hpp\<close> and its data.
  \<^item> \<^verbatim>\<open>Event_Queue\<close>, \<^verbatim>\<open>Web_Socket_Config\<close>, \<^verbatim>\<open>Web_Socket_Rate_Limiter\<close>, \<^verbatim>\<open>Web_Socket_Client\<close>:
    \<^verbatim>\<open>utils/EventQueue.hpp\<close>, \<^verbatim>\<open>websocket/data\<close>, \<^verbatim>\<open>websocket/client/BaseWebSocketClient*\<close>; \<^verbatim>\<open>Web_Socket_Fsm\<close>,
    \<^verbatim>\<open>_Props\<close>, \<^verbatim>\<open>_Guarantees\<close>: invariants and properties of the state machine; \<^verbatim>\<open>Web_Socket_Lifecycle\<close>: the
    abstract life cycle of a connection and that the client refines it; \<^verbatim>\<open>Web_Socket_Facade\<close> and
    \<^verbatim>\<open>_Props\<close>: \<^verbatim>\<open>WebSocketManager.hpp\<close>, \<^verbatim>\<open>WebSocketClient.hpp\<close>.
  \<^item> \<^verbatim>\<open>Simple_Web_Worker\<close>, \<^verbatim>\<open>Web_Socket_Tls\<close>, \<^verbatim>\<open>Web_Socket_Adapter\<close>: \<^verbatim>\<open>websocket/client/SimpleWeb\<close>, the thread of
    the transport, its TLS client and the adapter; \<^verbatim>\<open>Web_Socket_Adapter_Props\<close> (which calls the state machine makes on
    the adapter) and \<^verbatim>\<open>Web_Socket_Transport\<close> (client and adapter as one system).
  \<^item> \<^verbatim>\<open>Refinement\<close>: the locale of refinements and of their composition.
  \<^item> \<^verbatim>\<open>Network_Worker\<close>, \<^verbatim>\<open>Network_Worker_Props\<close>: \<^verbatim>\<open>core/\<close>; \<^verbatim>\<open>Kurlyk_Runtime\<close>: \<^verbatim>\<open>startup/\<close> and the composition.
  \<^item> \<^verbatim>\<open>Http_Text\<close>, \<^verbatim>\<open>Http_Text_Props\<close>, \<^verbatim>\<open>Codecs\<close>, \<^verbatim>\<open>Query_Strings\<close>, \<^verbatim>\<open>Pkce\<close>, \<^verbatim>\<open>Proxy_Config\<close>: the text utilities
    of \<^verbatim>\<open>utils/\<close> and \<^verbatim>\<open>types/ProxyConfig.hpp\<close>; \<^verbatim>\<open>Json_Bindings\<close>: the JSON conversions of the records;
    \<^verbatim>\<open>Text_Patterns\<close>, \<^verbatim>\<open>System_Paths\<close>: regular expressions, paths and encodings of \<^verbatim>\<open>utils/\<close>.

  \<^bold>\<open>Correspondence.\<close> A class is a record with the members of the class, a member function a definition
  on the record. Containers are lists or association lists in iteration order; \<open>uint64_t\<close> counters
  are 64-bit words and wrap. Shared pointers to rate limits are counted in the limiter. A user's
  callback is a number, and calling it appends to a log, so that what the user sees is part of the
  state. Code outside the repository is an argument: libcurl (\<open>http_env\<close>, \<open>curl_input\<close>), what a transport does
  (\<open>ws_env\<close>; \<open>adapted\<close> says when it is the Simple-Web adapter's), Asio and Simple-WebSocket-Server, random bytes, SHA-256, nlohmann::json, the clock. Exceptions, null dereferences and calls that do not
  return are values.

  \<^bold>\<open>What is shown.\<close> HTTP: the manager refines a desk that takes requests and answers them; every accepted request is answered
  exactly once or still held; group counters
  and rate-limit tokens are exact; retries are bounded; admission, cancellation, waiting and shutdown do
  what they promise, except for a request that waits for a retry inside a running batch, which shutdown
  and cancellation miss. Futures are settled exactly once; the blocking functions of a client
  return when they should and only then. The rate limiter bounds the requests in every
  interval, serialises sequential limits, reports sufficient delays; garbage collection is
  transparent. WebSocket: the connection state is consistent, every run refines the life cycle of a connection, so that
  open and close events alternate,
  callbacks are called exactly once, reconnection follows the policy, messages are neither lost nor
  reordered; shutdown ends in the states where it can, and two states where it hangs are exhibited. On its transport
  the client holds exactly the socket its state and configuration ask for while it connects or works, and the callback of
  every message is in one place; the blocking calls of its facade return; a leaked socket and a stale opening are
  exhibited. TLS connections are set up
  in order, the transport's thread ends on \<open>stop\<close>. Worker:
  for every interleaving the task queue refines a serial executor, no wake-up is lost, \<open>stop\<close> ends the
  thread; composed with the managers, a sleeping worker means a settled library. OAuth: the
  authorization URL and the token request are bound by state and PKCE, results are consistent; proxy
  checks are settled exactly once. Codecs, query strings and parsers round trip.

  \<^bold>\<open>Interfaces.\<close> The locales \<open>fixed_window\<close>, \<open>token_ledger\<close>, \<open>fifo_queue\<close>, \<open>codec\<close>, \<open>query_writer\<close>,
  \<open>auth_provider\<close>, \<open>web_socket_sender\<close> and \<open>task_manager\<close> state what one component relies on in another; each is
  interpreted on the model of the code. \<open>refinement\<close> and \<open>refinement_chain\<close> state what a refinement gives; they are
  interpreted on the request manager, the worker's task queue, the WebSocket client, and the client on its transport.

  \<^bold>\<open>Fuel and bounds.\<close> The WebSocket shutdown loop and the PKCE loop take fuel, since they need not end;
  the theorems give the fuel with which they do end, or show that no fuel suffices. Theorems about tokens
  assume fewer than \<open>2^64\<close> operations, after which the token counter of the code wraps.

  \<^bold>\<open>Not modelled.\<close> \<^verbatim>\<open>websocket/client/Emscripten\<close> does not compile, so there is no behaviour to
  model; \<^verbatim>\<open>ITokenStorage\<close> has no implementation; console output and umbrella headers carry no logic of the
  library. The memory model is sequential consistency, with critical sections as atomic steps; one call of a manager's \<open>process\<close> is one step.
  User callbacks do not call back into the manager that calls them.
\<close>

end
